(* ===== verification/Prelude.thy ===== *)
theory Prelude
  imports Complex_Main "HOL-Library.Word" "HOL-Library.List_Lexorder" "HOL-Library.Product_Lexorder"
begin

text \<open>
  Shared vocabulary of the development: the model's basic types (Python text as a list of Unicode
  code points, byte strings as lists of 8-bit words), the exceptions the program raises or catches,
  results that are either an exception or a value, and insertion-ordered dictionaries together with
  the interface their clients rely on.
\<close>

named_theorems text_simps \<open>rewriting of text literals and of the string methods\<close>
named_theorems res_simps \<open>rewriting of results: sequencing and lifting\<close>

section \<open>Text and bytes\<close>

text \<open>A Python \<^verbatim>\<open>str\<close> is a sequence of code points; \<^verbatim>\<open>bytes\<close> is a sequence of octets.\<close>

type_synonym code_point = nat
type_synonym pystr = "code_point list"
type_synonym bytes = "8 word list"

text \<open>A string literal of the source.\<close>

definition L :: "string \<Rightarrow> pystr" where
  "L s = map of_char s"

lemma L_inject [simp, text_simps]: "L a = L b \<longleftrightarrow> a = b"
  by (simp add: L_def inj_map_eq_map inj_def)

lemma L_Nil [simp, text_simps]: "L [] = []"
  by (simp add: L_def)

lemma L_eq_Nil [simp, text_simps]: "L a = [] \<longleftrightarrow> a = []"
  by (simp add: L_def)

lemma Nil_eq_L [simp, text_simps]: "[] = L a \<longleftrightarrow> a = []"
  by (auto simp: L_def)

lemma L_append [text_simps]: "L a @ L b = L (a @ b)"
  by (simp add: L_def)

lemma length_L [simp, text_simps]: "length (L a) = length a"
  by (simp add: L_def)

section \<open>Exceptions and results\<close>

text \<open>
  An exception object of a client library: the name and module of its class and its
  \<^verbatim>\<open>code\<close> attribute, which are what the program reads of it.
\<close>

record client_exn =
  cx_name :: pystr
  cx_module :: pystr
  cx_code :: "int option"

text \<open>The texts of exception messages only reach the log, so they are not carried.\<close>

datatype py_exn =
    ValueError | TypeError | KeyError | IndexError | AttributeError | AssertionError
  | RuntimeError | OverflowError | ArgumentTypeError
  | UnsupportedTypeError | TtlTooLongError | RecordTooLargeError | RecordAlreadyExists
  | ClientError client_exn

text \<open>\<^verbatim>\<open>type(exc).__name__\<close>\<close>

fun exn_name :: "py_exn \<Rightarrow> pystr" where
  "exn_name ValueError = L ''ValueError''"
| "exn_name TypeError = L ''TypeError''"
| "exn_name KeyError = L ''KeyError''"
| "exn_name IndexError = L ''IndexError''"
| "exn_name AttributeError = L ''AttributeError''"
| "exn_name AssertionError = L ''AssertionError''"
| "exn_name RuntimeError = L ''RuntimeError''"
| "exn_name OverflowError = L ''OverflowError''"
| "exn_name ArgumentTypeError = L ''ArgumentTypeError''"
| "exn_name UnsupportedTypeError = L ''UnsupportedTypeError''"
| "exn_name TtlTooLongError = L ''TtlTooLongError''"
| "exn_name RecordTooLargeError = L ''RecordTooLargeError''"
| "exn_name RecordAlreadyExists = L ''RecordAlreadyExists''"
| "exn_name (ClientError c) = cx_name c"

type_synonym 'a res = "py_exn + 'a"

text \<open>Sequencing: the first exception ends the computation.\<close>

fun rbind :: "'a res \<Rightarrow> ('a \<Rightarrow> 'b res) \<Rightarrow> 'b res" where
  "rbind (Inl e) f = Inl e"
| "rbind (Inr x) f = f x"

definition rmap :: "('a \<Rightarrow> 'b) \<Rightarrow> 'a res \<Rightarrow> 'b res" where
  "rmap f m = rbind m (\<lambda>x. Inr (f x))"

text \<open>A list comprehension whose element expression may raise.\<close>

fun mapr :: "('a \<Rightarrow> 'b res) \<Rightarrow> 'a list \<Rightarrow> 'b list res" where
  "mapr f [] = Inr []"
| "mapr f (x # xs) = rbind (f x) (\<lambda>y. rbind (mapr f xs) (\<lambda>ys. Inr (y # ys)))"

text \<open>A \<^verbatim>\<open>for\<close> loop over an accumulator whose body may raise.\<close>

fun foldr_res :: "('a \<Rightarrow> 's \<Rightarrow> 's res) \<Rightarrow> 'a list \<Rightarrow> 's \<Rightarrow> 's res" where
  "foldr_res f [] s = Inr s"
| "foldr_res f (x # xs) s = rbind (f x s) (foldr_res f xs)"

lemma rbind_cong [fundef_cong]:
  "m = m' \<Longrightarrow> (\<And>x. m' = Inr x \<Longrightarrow> f x = f' x) \<Longrightarrow> rbind m f = rbind m' f'"
  by (cases m) auto

lemma rbind_eq_Inr [res_simps]: "rbind m f = Inr y \<longleftrightarrow> (\<exists>x. m = Inr x \<and> f x = Inr y)"
  by (cases m) auto

lemma rbind_eq_Inl [res_simps]:
  "rbind m f = Inl e \<longleftrightarrow> m = Inl e \<or> (\<exists>x. m = Inr x \<and> f x = Inl e)"
  by (cases m) auto

lemma rmap_simps [simp, res_simps]: "rmap f (Inl e) = Inl e" "rmap f (Inr x) = Inr (f x)"
  by (simp_all add: rmap_def)

lemma rmap_eq_Inr [res_simps]: "rmap f m = Inr y \<longleftrightarrow> (\<exists>x. m = Inr x \<and> y = f x)"
  by (cases m) auto

lemma rmap_eq_Inl [res_simps]: "rmap f m = Inl e \<longleftrightarrow> m = Inl e"
  by (cases m) auto

lemma mapr_eq_Inr: "mapr f xs = Inr ys \<longleftrightarrow> list_all2 (\<lambda>x y. f x = Inr y) xs ys"
  by (induction xs arbitrary: ys) (auto simp: rbind_eq_Inr list_all2_Cons1)

lemma mapr_length: "mapr f xs = Inr ys \<Longrightarrow> length ys = length xs"
  by (simp add: mapr_eq_Inr list_all2_lengthD)

lemma mapr_total: "(\<And>x. x \<in> set xs \<Longrightarrow> f x = Inr (g x)) \<Longrightarrow> mapr f xs = Inr (map g xs)"
  by (induction xs) auto

lemma mapr_Inl_iff: "(\<exists>e. mapr f xs = Inl e) \<longleftrightarrow> (\<exists>x \<in> set xs. \<exists>e. f x = Inl e)"
proof (induction xs)
  case Nil
  then show ?case by simp
next
  case (Cons x xs)
  then show ?case
    by (cases "f x"; cases "mapr f xs") (auto simp: rbind_eq_Inl)
qed

lemma foldr_res_append:
  "foldr_res f (xs @ ys) s = rbind (foldr_res f xs s) (foldr_res f ys)"
proof (induction xs arbitrary: s)
  case Nil
  then show ?case by simp
next
  case (Cons x xs)
  then show ?case by (cases "f x s") auto
qed

section \<open>Dictionaries\<close>

text \<open>
  A Python dictionary keeps its keys in insertion order. Two keys are the same when their
  normal forms under \<open>nf\<close> are equal (for text keys \<open>nf\<close> is the identity; numbers of different
  types can be equal in Python). Assigning to an existing key keeps its position and its
  original key object.
\<close>

type_synonym ('k, 'v) dict = "('k \<times> 'v) list"

fun kget :: "('k \<Rightarrow> 'n) \<Rightarrow> ('k, 'v) dict \<Rightarrow> 'k \<Rightarrow> 'v option" where
  "kget nf [] k = None"
| "kget nf ((k', v) # d) k = (if nf k' = nf k then Some v else kget nf d k)"

fun kset :: "('k \<Rightarrow> 'n) \<Rightarrow> 'k \<Rightarrow> 'v \<Rightarrow> ('k, 'v) dict \<Rightarrow> ('k, 'v) dict" where
  "kset nf k v [] = [(k, v)]"
| "kset nf k v ((k', v') # d) =
     (if nf k' = nf k then (k', v) # d else (k', v') # kset nf k v d)"

definition kwf :: "('k \<Rightarrow> 'n) \<Rightarrow> ('k, 'v) dict \<Rightarrow> bool" where
  "kwf nf d \<longleftrightarrow> distinct (map (\<lambda>p. nf (fst p)) d)"

abbreviation dict_get :: "('k, 'v) dict \<Rightarrow> 'k \<Rightarrow> 'v option" where
  "dict_get \<equiv> kget (\<lambda>k. k)"

abbreviation dict_set :: "'k \<Rightarrow> 'v \<Rightarrow> ('k, 'v) dict \<Rightarrow> ('k, 'v) dict" where
  "dict_set \<equiv> kset (\<lambda>k. k)"

abbreviation dict_wf :: "('k, 'v) dict \<Rightarrow> bool" where
  "dict_wf \<equiv> kwf (\<lambda>k. k)"

text \<open>\<^verbatim>\<open>d.pop(k, None)\<close>: the value and the dictionary without the key.\<close>

definition dict_del :: "'k \<Rightarrow> ('k, 'v) dict \<Rightarrow> ('k, 'v) dict" where
  "dict_del k d = filter (\<lambda>p. fst p \<noteq> k) d"

text \<open>A loop \<^verbatim>\<open>for k, v in items: d[k] = v\<close>.\<close>

definition kset_all :: "('k \<Rightarrow> 'n) \<Rightarrow> ('k \<times> 'v) list \<Rightarrow> ('k, 'v) dict \<Rightarrow> ('k, 'v) dict" where
  "kset_all nf items d = fold (\<lambda>(k, v). kset nf k v) items d"

lemma kget_kset: "kget nf (kset nf k v d) k' = (if nf k' = nf k then Some v else kget nf d k')"
  by (induction d) auto

lemma keys_kset:
  "map (\<lambda>p. nf (fst p)) (kset nf k v d) =
     (if nf k \<in> (\<lambda>p. nf (fst p)) ` set d then map (\<lambda>p. nf (fst p)) d else map (\<lambda>p. nf (fst p)) d @ [nf k])"
  by (induction d) (auto simp: image_iff split: if_splits)

lemma kwf_kset: "kwf nf d \<Longrightarrow> kwf nf (kset nf k v d)"
  unfolding kwf_def keys_kset by auto

lemma kget_None_iff: "kget nf d k = None \<longleftrightarrow> nf k \<notin> (\<lambda>p. nf (fst p)) ` set d"
  by (induction d) (auto simp: image_iff split: if_splits)

lemma kget_in_set: "kwf nf d \<Longrightarrow> (k, v) \<in> set d \<Longrightarrow> kget nf d k = Some v"
  by (induction d) (auto simp: kwf_def image_iff)

lemma kget_SomeD: "kget nf d k = Some v \<Longrightarrow> \<exists>k'. (k', v) \<in> set d \<and> nf k' = nf k"
  by (induction d) (auto split: if_splits)

lemma list_all_kset:
  "list_all P d \<Longrightarrow> P (k, v) \<Longrightarrow> list_all P (dict_set k v d)"
  by (induction d) auto

lemma kset_new: "nf k \<notin> (\<lambda>p. nf (fst p)) ` set d \<Longrightarrow> kset nf k v d = d @ [(k, v)]"
  by (induction d) auto

text \<open>
  The interface a client of a dictionary relies on: what a lookup returns after an assignment,
  how the keys are ordered, and that assignments keep the keys distinct. The lemmas on loops of
  assignments are proved once, from these laws only.
\<close>

locale dictionary =
  fixes nf :: "'k \<Rightarrow> 'n"
    and get :: "'d \<Rightarrow> 'k \<Rightarrow> 'v option"
    and put :: "'k \<Rightarrow> 'v \<Rightarrow> 'd \<Rightarrow> 'd"
    and keys :: "'d \<Rightarrow> 'n list"
    and wf :: "'d \<Rightarrow> bool"
  assumes get_put: "get (put k v d) k' = (if nf k' = nf k then Some v else get d k')"
    and keys_put: "keys (put k v d) = (if nf k \<in> set (keys d) then keys d else keys d @ [nf k])"
    and wf_put: "wf d \<Longrightarrow> wf (put k v d)"
    and wf_distinct: "wf d \<Longrightarrow> distinct (keys d)"
    and get_keys: "get d k = None \<longleftrightarrow> nf k \<notin> set (keys d)"
begin

lemma get_put_all:
  "get (fold (\<lambda>(k, v). put k v) items d) k =
     (case find (\<lambda>(k', v). nf k' = nf k) (rev items) of
        Some (k', v) \<Rightarrow> Some v
      | None \<Rightarrow> get d k)"
proof (induction items arbitrary: d rule: rev_induct)
  case Nil
  then show ?case by simp
next
  case (snoc p items)
  obtain k' v where p: "p = (k', v)" by (cases p)
  show ?case using snoc by (simp add: p get_put eq_commute)
qed

lemma set_keys_put_all:
  "set (keys (fold (\<lambda>(k, v). put k v) items d)) = set (keys d) \<union> (\<lambda>p. nf (fst p)) ` set items"
  by (induction items arbitrary: d) (auto simp: keys_put split: if_splits)

lemma wf_put_all: "wf d \<Longrightarrow> wf (fold (\<lambda>(k, v). put k v) items d)"
  by (induction items arbitrary: d) (auto intro: wf_put)

lemma keys_put_all_distinct:
  assumes "distinct (map (\<lambda>p. nf (fst p)) items)" and "(\<lambda>p. nf (fst p)) ` set items \<inter> set (keys d) = {}"
  shows "keys (fold (\<lambda>(k, v). put k v) items d) = keys d @ map (\<lambda>p. nf (fst p)) items"
  using assms by (induction items arbitrary: d) (auto simp: keys_put)

lemma put_commute_get:
  "nf k1 \<noteq> nf k2 \<Longrightarrow> get (put k1 v1 (put k2 v2 d)) k = get (put k2 v2 (put k1 v1 d)) k"
  by (simp add: get_put)

end

interpretation kd: dictionary nf "kget nf" "kset nf" "map (\<lambda>p. nf (fst p))" "kwf nf" for nf
  by unfold_locales (auto simp: kget_kset keys_kset kwf_kset kget_None_iff kwf_def)

lemmas kset_all_get = kd.get_put_all [folded kset_all_def]
lemmas kset_all_keys = kd.set_keys_put_all [folded kset_all_def]
lemmas kset_all_wf = kd.wf_put_all [folded kset_all_def]

lemma kset_all_fresh:
  assumes "distinct (map (\<lambda>p. nf (fst p)) (d @ items))"
  shows "kset_all nf items d = d @ items"
  using assms
proof (induction items arbitrary: d)
  case Nil
  then show ?case by (simp add: kset_all_def)
next
  case (Cons p items)
  obtain k v where p: "p = (k, v)" by (cases p)
  have "kset nf k v d = d @ [p]"
    using Cons.prems by (intro trans [OF kset_new]) (auto simp: p)
  moreover have "kset_all nf items (d @ [p]) = (d @ [p]) @ items"
    using Cons.prems by (intro Cons.IH) auto
  ultimately show ?case by (simp add: kset_all_def p)
qed

lemma dict_del_get: "dict_get (dict_del k d) k' = (if k' = k then None else dict_get d k')"
  by (induction d) (auto simp: dict_del_def)

section \<open>Lists\<close>

lemma foldl_add_eq: "foldl (+) (a::nat) xs = a + sum_list xs"
  by (induction xs arbitrary: a) auto

lemma sum_list_map_update:
  fixes f :: "'a \<Rightarrow> 'b :: comm_monoid_add"
  shows "i < length xs \<Longrightarrow>
    sum_list (map f (xs[i := y])) + f (xs ! i) = sum_list (map f xs) + f y"
  by (induction xs arbitrary: i) (auto simp: nth_Cons' ac_simps split: nat.splits if_splits)

text \<open>A sum over a list with one element taken out, to compare it before and after an update.\<close>

lemma sum_list_update_split:
  fixes f :: "'a \<Rightarrow> 'b :: comm_monoid_add"
  assumes "i < length xs"
  shows "\<exists>rest. sum_list (map f xs) = rest + f (xs ! i) \<and> (\<forall>y. sum_list (map f (xs[i := y])) = rest + f y)"
proof -
  have "xs = take i xs @ xs ! i # drop (Suc i) xs" using assms by (rule id_take_nth_drop)
  then have "sum_list (map f xs) = sum_list (map f (take i xs)) + (f (xs ! i) + sum_list (map f (drop (Suc i) xs)))"
    by (metis list.map(2) map_append sum_list.Cons sum_list_append)
  moreover have "xs[i := y] = take i xs @ y # drop (Suc i) xs" for y
    using assms by (rule upd_conv_take_nth_drop)
  ultimately show ?thesis
    by (intro exI [of _ "sum_list (map f (take i xs)) + sum_list (map f (drop (Suc i) xs))"]) (simp add: ac_simps)
qed

end
