(* ===== verification/Py_Text.thy ===== *)
theory Py_Text
  imports Prelude
begin

text \<open>
  The parts of Python's text handling that the program uses: UTF-8 in its strict and its
  \<^verbatim>\<open>"replace"\<close> mode, decimal digits and white space of the Unicode database, the string methods
  (\<^verbatim>\<open>strip\<close>, \<^verbatim>\<open>lower\<close>, \<^verbatim>\<open>split\<close>, \<^verbatim>\<open>partition\<close>, \<^verbatim>\<open>startswith\<close>, \<^verbatim>\<open>endswith\<close>), \<^verbatim>\<open>int()\<close> and \<^verbatim>\<open>str()\<close> of
  integers and the printed form of byte strings. The results about UTF-8 carry the development's
  claims on keys and members: decoding is injective and encoding is its inverse.
\<close>

section \<open>UTF-8\<close>

text \<open>The code points a well-formed text holds: everything but the surrogates.\<close>

definition scalar :: "code_point \<Rightarrow> bool" where
  "scalar c \<longleftrightarrow> c < 0x110000 \<and> \<not> (0xD800 \<le> c \<and> c < 0xE000)"

definition wf_text :: "pystr \<Rightarrow> bool" where
  "wf_text s \<longleftrightarrow> list_all scalar s"

definition enc1 :: "code_point \<Rightarrow> nat list" where
  "enc1 c =
     (if c < 0x80 then [c]
      else if c < 0x800 then [0xC0 + c div 64, 0x80 + c mod 64]
      else if c < 0x10000 then [0xE0 + c div 4096, 0x80 + c div 64 mod 64, 0x80 + c mod 64]
      else [0xF0 + c div 262144, 0x80 + c div 4096 mod 64, 0x80 + c div 64 mod 64, 0x80 + c mod 64])"

text \<open>\<^verbatim>\<open>s.encode("utf-8")\<close>\<close>

definition utf8_encode :: "pystr \<Rightarrow> bytes" where
  "utf8_encode s = map of_nat (concat (map enc1 s))"

definition cont :: "nat \<Rightarrow> bool" where
  "cont b \<longleftrightarrow> 0x80 \<le> b \<and> b < 0xC0"

text \<open>
  The second byte of a three or four byte sequence is restricted after some first bytes, which
  excludes overlong forms, surrogates and code points above \<open>0x10FFFF\<close>.
\<close>

definition second_ok :: "nat \<Rightarrow> nat \<Rightarrow> bool" where
  "second_ok b0 b1 \<longleftrightarrow>
     (if b0 = 0xE0 then 0xA0 \<le> b1 \<and> b1 < 0xC0
      else if b0 = 0xED then 0x80 \<le> b1 \<and> b1 < 0xA0
      else if b0 = 0xF0 then 0x90 \<le> b1 \<and> b1 < 0xC0
      else if b0 = 0xF4 then 0x80 \<le> b1 \<and> b1 < 0x90
      else cont b1)"

text \<open>
  One step of the decoder: the code point, or \<open>None\<close> for a malformed sequence, and the rest of
  the input after it. A malformed sequence is the longest prefix that could still have become a
  valid one, as the decoder of CPython reports it.
\<close>

fun utf8_next :: "nat list \<Rightarrow> code_point option \<times> nat list" where
  "utf8_next [] = (None, [])"
| "utf8_next (b0 # r) =
     (if b0 < 0x80 then (Some b0, r)
      else if 0xC2 \<le> b0 \<and> b0 < 0xE0 then
        (case r of
           [] \<Rightarrow> (None, [])
         | b1 # r1 \<Rightarrow> if cont b1 then (Some ((b0 - 0xC0) * 64 + (b1 - 0x80)), r1) else (None, r))
      else if 0xE0 \<le> b0 \<and> b0 < 0xF0 then
        (case r of
           [] \<Rightarrow> (None, [])
         | b1 # r1 \<Rightarrow>
             if \<not> second_ok b0 b1 then (None, r)
             else (case r1 of
                     [] \<Rightarrow> (None, [])
                   | b2 # r2 \<Rightarrow>
                       if cont b2
                       then (Some ((b0 - 0xE0) * 4096 + (b1 - 0x80) * 64 + (b2 - 0x80)), r2)
                       else (None, r1)))
      else if 0xF0 \<le> b0 \<and> b0 < 0xF5 then
        (case r of
           [] \<Rightarrow> (None, [])
         | b1 # r1 \<Rightarrow>
             if \<not> second_ok b0 b1 then (None, r)
             else (case r1 of
                     [] \<Rightarrow> (None, [])
                   | b2 # r2 \<Rightarrow>
                       if \<not> cont b2 then (None, r1)
                       else (case r2 of
                               [] \<Rightarrow> (None, [])
                             | b3 # r3 \<Rightarrow>
                                 if cont b3
                                 then (Some ((b0 - 0xF0) * 262144 + (b1 - 0x80) * 4096
                                             + (b2 - 0x80) * 64 + (b3 - 0x80)), r3)
                                 else (None, r2))))
      else (None, r))"

lemma utf8_next_shorter: "(out, r) = utf8_next xs \<Longrightarrow> xs \<noteq> [] \<Longrightarrow> length r < length xs"
  by (cases xs) (auto split: list.splits if_splits)

function decode_strict :: "nat list \<Rightarrow> pystr option" where
  "decode_strict xs =
     (if xs = [] then Some []
      else case utf8_next xs of
             (None, r) \<Rightarrow> None
           | (Some c, r) \<Rightarrow> map_option ((#) c) (decode_strict r))"
  by pat_completeness auto
termination
  by (relation "measure length") (auto intro: utf8_next_shorter)

function decode_replace :: "nat list \<Rightarrow> pystr" where
  "decode_replace xs =
     (if xs = [] then []
      else case utf8_next xs of
             (None, r) \<Rightarrow> 0xFFFD # decode_replace r
           | (Some c, r) \<Rightarrow> c # decode_replace r)"
  by pat_completeness auto
termination
  by (relation "measure length") (auto intro: utf8_next_shorter)

declare decode_strict.simps [simp del] decode_replace.simps [simp del]

text \<open>\<^verbatim>\<open>b.decode("utf-8")\<close>, with \<open>None\<close> for \<^verbatim>\<open>UnicodeDecodeError\<close>, and \<^verbatim>\<open>b.decode("utf-8", "replace")\<close>\<close>

definition utf8_decode :: "bytes \<Rightarrow> pystr option" where
  "utf8_decode b = decode_strict (map unat b)"

definition utf8_decode_replace :: "bytes \<Rightarrow> pystr" where
  "utf8_decode_replace b = decode_replace (map unat b)"

subsection \<open>Encoding and decoding are inverse\<close>

lemma enc1_nonempty [simp]: "enc1 c \<noteq> []"
  by (simp add: enc1_def)

lemma enc1_octets:
  assumes "scalar c" and "b \<in> set (enc1 c)"
  shows "b < 256"
proof -
  have "c < 1114112" using assms(1) by (simp add: scalar_def)
  then have "c div 262144 \<le> 4" by simp
  moreover have "c < 2048 \<Longrightarrow> c div 64 < 32" "c < 65536 \<Longrightarrow> c div 4096 < 16" by simp_all
  moreover have "c mod 64 < 64" "c div 64 mod 64 < 64" "c div 4096 mod 64 < 64" by simp_all
  ultimately show ?thesis using assms(2) by (auto simp: enc1_def split: if_splits)
qed

text \<open>The base-64 digits of a code point, as linear equations.\<close>

lemma base64_digits:
  fixes c :: nat
  shows "c = c div 64 * 64 + c mod 64" "c div 64 = c div 4096 * 64 + c div 64 mod 64"
    "c div 4096 = c div 262144 * 64 + c div 4096 mod 64"
proof -
  have "c div 4096 = c div 64 div 64" "c div 262144 = c div 4096 div 64"
    by (simp_all flip: div_mult2_eq)
  then show "c div 64 = c div 4096 * 64 + c div 64 mod 64"
    "c div 4096 = c div 262144 * 64 + c div 4096 mod 64"
    by (metis div_mult_mod_eq)+
qed simp

lemma second_ok_enc3:
  assumes "scalar c" "2048 \<le> c" "c < 65536"
  shows "second_ok (224 + c div 4096) (128 + c div 64 mod 64)"
proof -
  define q a b where "q = c div 64" and "a = c div 4096" and "b = c div 64 mod 64"
  have q: "q = a * 64 + b" "c = q * 64 + c mod 64" and b: "b < 64" "c mod 64 < 64"
    using base64_digits [of c] by (simp_all add: q_def a_def b_def)
  have "a = 0 \<Longrightarrow> 32 \<le> b" using q b assms(2) by linarith
  moreover have "a = 13 \<Longrightarrow> b < 32" using q b assms(1) unfolding scalar_def by linarith
  moreover have "a < 16" using q b assms(3) by linarith
  ultimately show ?thesis using b by (auto simp: second_ok_def cont_def simp flip: a_def b_def)
qed

lemma second_ok_enc4:
  assumes "65536 \<le> c" "c < 1114112"
  shows "second_ok (240 + c div 262144) (128 + c div 4096 mod 64)"
proof -
  define q a b where "q = c div 4096" and "a = c div 262144" and "b = c div 4096 mod 64"
  have q: "q = a * 64 + b" and b: "b < 64"
    using base64_digits [of c] by (simp_all add: q_def a_def b_def)
  have c: "16 \<le> q" "q < 272" using assms by (simp_all add: q_def)
  have "a = 0 \<Longrightarrow> 16 \<le> b" "a = 4 \<Longrightarrow> b < 16" "a < 5" using q b c by linarith+
  then show ?thesis using b by (auto simp: second_ok_def cont_def simp flip: a_def b_def)
qed

lemma utf8_next_enc1:
  assumes "scalar c"
  shows "utf8_next (enc1 c @ r) = (Some c, r)"
proof -
  have m: "c mod 64 < 64" "c div 64 mod 64 < 64" "c div 4096 mod 64 < 64" by simp_all
  consider "c < 128" | "128 \<le> c" "c < 2048" | "2048 \<le> c" "c < 65536" | "65536 \<le> c" "c < 1114112"
    using assms by (force simp: scalar_def)
  then show ?thesis
  proof cases
    case 1
    then show ?thesis by (simp add: enc1_def)
  next
    case 2
    then have "2 \<le> c div 64" "c div 64 < 32" by simp_all
    with 2 m show ?thesis by (simp add: enc1_def cont_def)
  next
    case 3
    then have "c div 4096 < 16" by simp
    moreover have "c div 4096 * 4096 + c div 64 mod 64 * 64 + c mod 64 = c"
      using base64_digits [of c] by linarith
    ultimately show ?thesis using 3 m second_ok_enc3 [OF assms 3] by (simp add: enc1_def cont_def)
  next
    case 4
    then have "c div 262144 < 5" by simp
    moreover have "c div 262144 * 262144 + c div 4096 mod 64 * 4096 + c div 64 mod 64 * 64 + c mod 64 = c"
      using base64_digits [of c] by linarith
    ultimately show ?thesis using 4 m second_ok_enc4 [OF 4] by (simp add: enc1_def cont_def)
  qed
qed

lemma compose64: "d < 64 \<Longrightarrow> (q * 64 + d) div 64 = q" "d < 64 \<Longrightarrow> (q * 64 + d) mod 64 = d"
  for d q :: nat
  by simp_all

lemma compose4096:
  fixes a b d :: nat
  assumes "b < 64" "d < 64"
  defines "c \<equiv> a * 4096 + b * 64 + d"
  shows "c div 64 = a * 64 + b" "c mod 64 = d" "c div 4096 = a" "c div 64 mod 64 = b"
proof -
  have c: "c = (a * 64 + b) * 64 + d" by (simp add: c_def)
  show q: "c div 64 = a * 64 + b" and "c mod 64 = d"
    using compose64 [OF assms(2), of "a * 64 + b"] by (simp_all only: c)
  have "c div 4096 = c div 64 div 64" by (simp flip: div_mult2_eq)
  then show "c div 4096 = a" "c div 64 mod 64 = b"
    using compose64 [OF assms(1), of a] by (simp_all only: q)
qed

lemma compose262144:
  fixes a b d e :: nat
  assumes "b < 64" "d < 64" "e < 64"
  defines "c \<equiv> a * 262144 + b * 4096 + d * 64 + e"
  shows "c mod 64 = e" "c div 64 mod 64 = d" "c div 4096 mod 64 = b" "c div 262144 = a"
proof -
  have c: "c = (a * 64 + b) * 4096 + d * 64 + e" by (simp add: c_def)
  show "c mod 64 = e" "c div 64 mod 64 = d"
    unfolding c using compose4096 [OF assms(2,3), of "a * 64 + b"] by (simp_all only:)
  have q: "c div 4096 = a * 64 + b"
    unfolding c using compose4096 [OF assms(2,3), of "a * 64 + b"] by (simp only:)
  have "c div 262144 = c div 4096 div 64" by (simp flip: div_mult2_eq)
  then show "c div 4096 mod 64 = b" "c div 262144 = a"
    using compose64 [OF assms(1), of a] by (simp_all only: q)
qed

lemma next3_enc1:
  assumes b0: "224 \<le> b0" "b0 < 240" and b1: "second_ok b0 b1" and b2: "cont b2"
    and c: "c = (b0 - 224) * 4096 + (b1 - 128) * 64 + (b2 - 128)"
  shows "scalar c \<and> [b0, b1, b2] = enc1 c"
proof -
  define a b d where "a = b0 - 224" and "b = b1 - 128" and "d = b2 - 128"
  have ok: "a < 16" "b < 64" "d < 64" "b0 = 224 + a" "b1 = 128 + b" "b2 = 128 + d"
    "a = 0 \<longrightarrow> 32 \<le> b" "a = 13 \<longrightarrow> b < 32"
    using assms by (auto simp: a_def b_def d_def second_ok_def cont_def split: if_splits)
  have c: "c = a * 4096 + b * 64 + d" by (simp add: c a_def b_def d_def)
  have "2048 \<le> c" "c < 65536" using ok unfolding c by (cases "a = 0"; linarith)+
  moreover have "scalar c"
  proof (cases "a = 13")
    case True
    then show ?thesis using ok unfolding scalar_def c by linarith
  next
    case False
    then have "a \<le> 12 \<or> 14 \<le> a" by linarith
    then show ?thesis using ok unfolding scalar_def c by linarith
  qed
  ultimately show ?thesis
    using compose4096 [of b d a] ok unfolding c [symmetric] by (simp add: enc1_def)
qed

lemma next4_enc1:
  assumes b0: "240 \<le> b0" "b0 < 245" and b1: "second_ok b0 b1" and b23: "cont b2" "cont b3"
    and c: "c = (b0 - 240) * 262144 + (b1 - 128) * 4096 + (b2 - 128) * 64 + (b3 - 128)"
  shows "scalar c \<and> [b0, b1, b2, b3] = enc1 c"
proof -
  define a b d e where "a = b0 - 240" and "b = b1 - 128" and "d = b2 - 128" and "e = b3 - 128"
  have ok: "a < 5" "b < 64" "d < 64" "e < 64" "b0 = 240 + a" "b1 = 128 + b" "b2 = 128 + d"
    "b3 = 128 + e" "a = 0 \<longrightarrow> 16 \<le> b" "a = 4 \<longrightarrow> b < 16"
    using assms by (auto simp: a_def b_def d_def e_def second_ok_def cont_def split: if_splits)
  have c: "c = a * 262144 + b * 4096 + d * 64 + e" by (simp add: c a_def b_def d_def e_def)
  have "65536 \<le> c" "c < 1114112" using ok unfolding c by (cases "a = 0"; cases "a = 4"; linarith)+
  then show ?thesis
    using compose262144 [of b d e a] ok unfolding c [symmetric] by (simp add: enc1_def scalar_def)
qed

lemma next2_enc1:
  assumes "194 \<le> b0" "b0 < 224" "cont b1" and c: "c = (b0 - 192) * 64 + (b1 - 128)"
  shows "scalar c \<and> [b0, b1] = enc1 c"
proof -
  define a b where "a = b0 - 192" and "b = b1 - 128"
  have ok: "2 \<le> a" "a < 32" "b < 64" "b0 = 192 + a" "b1 = 128 + b"
    using assms by (auto simp: a_def b_def cont_def)
  have c: "c = a * 64 + b" by (simp add: c a_def b_def)
  have "128 \<le> c" "c < 2048" using ok unfolding c by linarith+
  then show ?thesis
    using compose64 [of b a] ok unfolding c [symmetric] by (simp add: enc1_def scalar_def)
qed

lemma utf8_next_Some:
  assumes "utf8_next xs = (Some c, r)"
  shows "scalar c \<and> xs = enc1 c @ r"
proof (cases xs)
  case Nil
  with assms show ?thesis by simp
next
  case (Cons b0 r0)
  consider "b0 < 128" | "194 \<le> b0" "b0 < 224" | "224 \<le> b0" "b0 < 240" | "240 \<le> b0" "b0 < 245"
    using assms by (force simp: Cons split: if_splits)
  then show ?thesis
  proof cases
    case 1
    then show ?thesis using assms by (simp add: Cons enc1_def scalar_def)
  next
    case 2
    then obtain b1 where "r0 = b1 # r" "cont b1" "c = (b0 - 192) * 64 + (b1 - 128)"
      using assms by (auto simp: Cons split: list.splits if_splits)
    then show ?thesis using next2_enc1 [OF 2] by (auto simp: Cons)
  next
    case 3
    then obtain b1 b2 where "r0 = b1 # b2 # r" "second_ok b0 b1" "cont b2"
      "c = (b0 - 224) * 4096 + (b1 - 128) * 64 + (b2 - 128)"
      using assms by (auto simp: Cons split: list.splits if_splits)
    then show ?thesis using next3_enc1 [OF 3] by (auto simp: Cons)
  next
    case 4
    then obtain b1 b2 b3 where "r0 = b1 # b2 # b3 # r" "second_ok b0 b1" "cont b2" "cont b3"
      "c = (b0 - 240) * 262144 + (b1 - 128) * 4096 + (b2 - 128) * 64 + (b3 - 128)"
      using assms by (auto simp: Cons split: list.splits if_splits)
    then show ?thesis using next4_enc1 [OF 4] by (auto simp: Cons)
  qed
qed

lemma decode_strict_encode: "wf_text s \<Longrightarrow> decode_strict (concat (map enc1 s)) = Some s"
proof (induction s)
  case Nil
  then show ?case by (simp add: decode_strict.simps)
next
  case (Cons c s)
  then show ?case by (subst decode_strict.simps) (simp add: wf_text_def utf8_next_enc1)
qed

lemma decode_strict_Some:
  "decode_strict xs = Some s \<Longrightarrow> wf_text s \<and> xs = concat (map enc1 s)"
proof (induction xs arbitrary: s rule: decode_strict.induct)
  case (1 xs)
  show ?case
  proof (cases "xs = []")
    case True
    with "1.prems" show ?thesis by (simp add: decode_strict.simps wf_text_def)
  next
    case False
    with "1.prems" obtain c r t where n: "utf8_next xs = (Some c, r)"
      and t: "decode_strict r = Some t" "s = c # t"
      by (subst (asm) decode_strict.simps) (auto split: prod.splits option.splits)
    with "1.IH" False have "wf_text t \<and> r = concat (map enc1 t)" by simp
    with utf8_next_Some [OF n] t(2) show ?thesis by (simp add: wf_text_def)
  qed
qed

lemma map_unat_of_nat:
  assumes "\<And>b. b \<in> set xs \<Longrightarrow> b < 256"
  shows "map unat (map of_nat xs :: bytes) = xs"
proof -
  have "unat (of_nat b :: 8 word) = b" if "b \<in> set xs" for b
    using assms [OF that] by (simp add: unat_of_nat)
  then show ?thesis by (induction xs) auto
qed

lemma map_of_nat_unat: "map of_nat (map unat b) = b" for b :: bytes
  by (induction b) auto

theorem utf8_decode_encode: "wf_text s \<Longrightarrow> utf8_decode (utf8_encode s) = Some s"
proof -
  assume wf: "wf_text s"
  have "b < 256" if "b \<in> set (concat (map enc1 s))" for b
    using that wf enc1_octets by (auto simp: wf_text_def list_all_iff)
  then show ?thesis
    using decode_strict_encode [OF wf] by (simp only: utf8_decode_def utf8_encode_def map_unat_of_nat)
qed

theorem utf8_decode_Some:
  assumes "utf8_decode b = Some s"
  shows "wf_text s" "utf8_encode s = b"
proof -
  have "wf_text s \<and> map unat b = concat (map enc1 s)"
    using assms decode_strict_Some by (simp add: utf8_decode_def)
  then show "wf_text s" "utf8_encode s = b"
    using map_of_nat_unat [of b] by (auto simp: utf8_encode_def)
qed

corollary utf8_decode_inject: "utf8_decode a = Some s \<Longrightarrow> utf8_decode b = Some s \<Longrightarrow> a = b"
  using utf8_decode_Some(2) by metis

text \<open>On valid input the replacing decoder agrees with the strict one.\<close>

lemma decode_replace_valid: "decode_strict xs = Some s \<Longrightarrow> decode_replace xs = s"
proof (induction xs arbitrary: s rule: decode_strict.induct)
  case (1 xs)
  then show ?case
    by (subst decode_replace.simps, subst (asm) (2) decode_strict.simps)
      (auto split: if_splits prod.splits option.splits)
qed

lemma utf8_decode_replace_valid: "utf8_decode b = Some s \<Longrightarrow> utf8_decode_replace b = s"
  by (simp add: utf8_decode_def utf8_decode_replace_def decode_replace_valid)

text \<open>The replacing decoder always yields well-formed text.\<close>

lemma decode_replace_wf: "wf_text (decode_replace xs)"
proof (induction xs rule: decode_replace.induct)
  case (1 xs)
  have "scalar c" if "utf8_next xs = (Some c, r)" for c r
    using utf8_next_Some [OF that] by simp
  moreover have "scalar 0xFFFD" by (simp add: scalar_def)
  ultimately show ?case
    using 1 by (subst decode_replace.simps) (auto simp: wf_text_def split: prod.splits option.splits)
qed

lemma utf8_decode_replace_wf: "wf_text (utf8_decode_replace b)"
  by (simp add: utf8_decode_replace_def decode_replace_wf)

end
