(* ===== verification/Py_Str.thy ===== *)
theory Py_Str
  imports Py_Text
begin

text \<open>
  Python's string methods, \<^verbatim>\<open>int()\<close> and \<^verbatim>\<open>str()\<close> on integers, and the printed form of byte strings,
  as far as the program calls them. The tables of decimal digits and white space are those of the
  Unicode database 14.0, which CPython 3.11 carries.
\<close>

section \<open>Character classes\<close>

text \<open>The zero of every run of ten decimal digits (general category Nd).\<close>

definition digit_zeros :: "code_point list" where
  "digit_zeros =
     [0x30, 0x660, 0x6f0, 0x7c0, 0x966, 0x9e6, 0xa66, 0xae6, 0xb66, 0xbe6, 0xc66, 0xce6, 0xd66,
      0xde6, 0xe50, 0xed0, 0xf20, 0x1040, 0x1090, 0x17e0, 0x1810, 0x1946, 0x19d0, 0x1a80, 0x1a90,
      0x1b50, 0x1bb0, 0x1c40, 0x1c50, 0xa620, 0xa8d0, 0xa900, 0xa9d0, 0xa9f0, 0xaa50, 0xabf0,
      0xff10, 0x104a0, 0x10d30, 0x11066, 0x110f0, 0x11136, 0x111d0, 0x112f0, 0x11450, 0x114d0,
      0x11650, 0x116c0, 0x11730, 0x118e0, 0x11950, 0x11c50, 0x11d50, 0x11da0, 0x16a60, 0x16ac0,
      0x16b50, 0x1d7ce, 0x1d7d8, 0x1d7e2, 0x1d7ec, 0x1d7f6, 0x1e140, 0x1e2f0, 0x1e950, 0x1fbf0]"

definition digit_value :: "code_point \<Rightarrow> nat option" where
  "digit_value c = map_option (\<lambda>z. c - z) (find (\<lambda>z. z \<le> c \<and> c < z + 10) digit_zeros)"

text \<open>\<^verbatim>\<open>\d\<close> of a text pattern\<close>

definition is_digit :: "code_point \<Rightarrow> bool" where
  "is_digit c \<longleftrightarrow> digit_value c \<noteq> None"

definition is_space :: "code_point \<Rightarrow> bool" where
  "is_space c \<longleftrightarrow> c \<in> set [9, 10, 11, 12, 13, 28, 29, 30, 31, 32, 133, 160, 5760, 8192, 8193, 8194,
     8195, 8196, 8197, 8198, 8199, 8200, 8201, 8202, 8232, 8233, 8239, 8287, 12288]"

text \<open>
  Lower case, exact on ASCII and on the two other code points whose lower case contains ASCII
  characters; other letters are left alone. The program only compares the result with ASCII words.
\<close>

definition lower1 :: "code_point \<Rightarrow> pystr" where
  "lower1 c = (if 65 \<le> c \<and> c \<le> 90 then [c + 32]
               else if c = 0x212A then [107] else if c = 0x130 then [105, 0x307] else [c])"

definition py_lower :: "pystr \<Rightarrow> pystr" where
  "py_lower s = concat (map lower1 s)"

section \<open>String methods\<close>

definition py_strip :: "pystr \<Rightarrow> pystr" where
  "py_strip s = rev (dropWhile is_space (rev (dropWhile is_space s)))"

definition startswith :: "pystr \<Rightarrow> pystr \<Rightarrow> bool" where
  "startswith s p \<longleftrightarrow> take (length p) s = p"

definition endswith :: "pystr \<Rightarrow> pystr \<Rightarrow> bool" where
  "endswith s p \<longleftrightarrow> length p \<le> length s \<and> drop (length s - length p) s = p"

text \<open>\<^verbatim>\<open>s.partition(sep)\<close>: \<open>None\<close> when \<^verbatim>\<open>sep\<close> does not occur, else the parts around its first occurrence\<close>

fun py_partition :: "pystr \<Rightarrow> pystr \<Rightarrow> (pystr \<times> pystr) option" where
  "py_partition sep [] = (if sep = [] then Some ([], []) else None)"
| "py_partition sep (c # s) =
     (if startswith (c # s) sep then Some ([], drop (length sep) (c # s))
      else map_option (\<lambda>(a, b). (c # a, b)) (py_partition sep s))"

text \<open>\<^verbatim>\<open>sub in s\<close>\<close>

definition py_contains :: "pystr \<Rightarrow> pystr \<Rightarrow> bool" where
  "py_contains sub s \<longleftrightarrow> py_partition sub s \<noteq> None"

text \<open>\<^verbatim>\<open>s.split(c)\<close> on one separator character, and with a bound on the number of splits\<close>

fun py_split :: "code_point \<Rightarrow> pystr \<Rightarrow> pystr list" where
  "py_split sep [] = [[]]"
| "py_split sep (c # s) =
     (if c = sep then [] # py_split sep s
      else case py_split sep s of
             [] \<Rightarrow> [[c]]
           | w # ws \<Rightarrow> (c # w) # ws)"

fun py_split_max :: "code_point \<Rightarrow> nat \<Rightarrow> pystr \<Rightarrow> pystr list" where
  "py_split_max sep 0 s = [s]"
| "py_split_max sep (Suc n) [] = [[]]"
| "py_split_max sep (Suc n) (c # s) =
     (if c = sep then [] # py_split_max sep n s
      else case py_split_max sep (Suc n) s of
             [] \<Rightarrow> [[c]]
           | w # ws \<Rightarrow> (c # w) # ws)"

text \<open>\<^verbatim>\<open>sep.join(parts)\<close>\<close>

fun py_join :: "pystr \<Rightarrow> pystr list \<Rightarrow> pystr" where
  "py_join sep [] = []"
| "py_join sep [w] = w"
| "py_join sep (w # v # ws) = w @ sep @ py_join sep (v # ws)"

section \<open>Integers as text\<close>

fun digits_of :: "nat \<Rightarrow> nat list" where
  "digits_of n = (if n < 10 then [n] else digits_of (n div 10) @ [n mod 10])"

declare digits_of.simps [simp del]

definition nat_of_digits :: "nat list \<Rightarrow> nat" where
  "nat_of_digits ds = foldl (\<lambda>a d. a * 10 + d) 0 ds"

definition str_nat :: "nat \<Rightarrow> pystr" where
  "str_nat n = map ((+) 48) (digits_of n)"

text \<open>\<^verbatim>\<open>str(i)\<close>\<close>

definition str_int :: "int \<Rightarrow> pystr" where
  "str_int i = (if i < 0 then 45 # str_nat (nat (- i)) else str_nat (nat i))"

text \<open>The digits of an integer literal; single underscores may separate them.\<close>

fun int_digits :: "pystr \<Rightarrow> nat list option" where
  "int_digits [] = None"
| "int_digits [c] = map_option (\<lambda>d. [d]) (digit_value c)"
| "int_digits (c # c2 # s) =
     (case digit_value c of
        None \<Rightarrow> None
      | Some d \<Rightarrow>
          if c2 = 95 then map_option ((#) d) (int_digits s)
          else map_option ((#) d) (int_digits (c2 # s)))"

text \<open>The default limit on the digits of a decimal literal (\<^verbatim>\<open>sys.int_info.default_max_str_digits\<close>).\<close>

definition max_str_digits :: nat where
  "max_str_digits = 4300"

text \<open>\<^verbatim>\<open>int(s)\<close> on text\<close>

definition unsign :: "pystr \<Rightarrow> bool \<times> pystr" where
  "unsign t =
     (case t of
        [] \<Rightarrow> (False, [])
      | c # r \<Rightarrow> if c = 45 then (True, r) else if c = 43 then (False, r) else (False, t))"

definition py_int :: "pystr \<Rightarrow> int res" where
  "py_int s =
     (case unsign (py_strip s) of (neg, u) \<Rightarrow>
        (case int_digits u of
           None \<Rightarrow> Inl ValueError
         | Some ds \<Rightarrow>
             if max_str_digits < length ds then Inl ValueError
             else Inr (if neg then - int (nat_of_digits ds) else int (nat_of_digits ds))))"

section \<open>Byte strings as text\<close>

definition hex_digit :: "nat \<Rightarrow> code_point" where
  "hex_digit n = (if n < 10 then 48 + n else 87 + n)"

definition bytes_repr1 :: "nat \<Rightarrow> nat \<Rightarrow> pystr" where
  "bytes_repr1 quote b =
     (if b = quote \<or> b = 92 then [92, b]
      else if b = 9 then [92, 116]
      else if b = 10 then [92, 110]
      else if b = 13 then [92, 114]
      else if b < 32 \<or> 127 \<le> b then [92, 120, hex_digit (b div 16), hex_digit (b mod 16)]
      else [b])"

text \<open>\<^verbatim>\<open>str(b)\<close> of a byte string: its literal form\<close>

definition bytes_repr :: "bytes \<Rightarrow> pystr" where
  "bytes_repr b =
     (let bs = map unat b;
          quote = (if 39 \<in> set bs \<and> 34 \<notin> set bs then 34 else 39)
      in [98, quote] @ concat (map (bytes_repr1 quote) bs) @ [quote])"

section \<open>Facts\<close>

lemma digit_value_ascii: "d < 10 \<Longrightarrow> digit_value (48 + d) = Some d"
  by (simp add: digit_value_def digit_zeros_def)

lemma digit_value_lt: "digit_value c = Some d \<Longrightarrow> d < 10"
  by (auto simp: digit_value_def find_Some_iff)

lemma digit_not_sign:
  assumes "is_digit c"
  shows "48 \<le> c"
proof -
  have "\<forall>z \<in> set digit_zeros. 48 \<le> z" by (simp add: digit_zeros_def)
  moreover obtain z where "find (\<lambda>z. z \<le> c \<and> c < z + 10) digit_zeros = Some z"
    using assms by (auto simp: is_digit_def digit_value_def)
  then have "z \<in> set digit_zeros" "z \<le> c" by (auto simp: find_Some_iff)
  ultimately show ?thesis by fastforce
qed

lemma digits_of_lt: "d \<in> set (digits_of n) \<Longrightarrow> d < 10"
proof (induction n rule: digits_of.induct)
  case (1 n)
  then show ?case by (subst (asm) (2) digits_of.simps) (auto split: if_splits)
qed

lemma digits_of_nonempty [simp]: "digits_of n \<noteq> []"
  by (subst digits_of.simps) simp

lemma nat_of_digits_digits_of: "nat_of_digits (digits_of n) = n"
proof (induction n rule: digits_of.induct)
  case (1 n)
  then show ?case by (subst digits_of.simps) (auto simp: nat_of_digits_def)
qed

lemma hd_digits_of: "0 < n \<Longrightarrow> hd (digits_of n) \<noteq> 0"
proof (induction n rule: digits_of.induct)
  case (1 n)
  then show ?case by (subst digits_of.simps) (auto simp: hd_append)
qed

lemma int_digits_ascii:
  "ds \<noteq> [] \<Longrightarrow> (\<And>d. d \<in> set ds \<Longrightarrow> d < 10) \<Longrightarrow> int_digits (map ((+) 48) ds) = Some ds"
proof (induction ds rule: induct_list012)
  case (3 x y zs)
  then have "y \<noteq> 47" by force
  with 3 show ?case by (simp add: digit_value_ascii)
qed (simp_all add: digit_value_ascii)

lemma py_strip_id: "s \<noteq> [] \<Longrightarrow> \<not> is_space (hd s) \<Longrightarrow> \<not> is_space (last s) \<Longrightarrow> py_strip s = s"
proof -
  assume s: "s \<noteq> []" "\<not> is_space (hd s)" "\<not> is_space (last s)"
  then have "dropWhile is_space s = s" by (simp add: dropWhile_eq_self_iff)
  moreover have "dropWhile is_space (rev s) = rev s"
    using s by (simp add: dropWhile_eq_self_iff hd_rev)
  ultimately show ?thesis by (simp add: py_strip_def)
qed

lemma ascii_digit_not_space: "d < 10 \<Longrightarrow> \<not> is_space (48 + d)"
  by (simp add: is_space_def)

lemma str_nat_nonempty [simp]: "str_nat n \<noteq> []"
  by (simp add: str_nat_def)

lemma str_nat_not_space: "c \<in> set (str_nat n) \<Longrightarrow> \<not> is_space c"
  using digits_of_lt ascii_digit_not_space by (auto simp: str_nat_def)

text \<open>Printing and reading an integer is the identity, within the length limit.\<close>

lemma str_int_strip: "py_strip (str_int i) = str_int i"
proof -
  have "\<not> is_space (last (str_nat n))" "\<not> is_space (hd (str_nat n))" for n
    using str_nat_not_space by (meson last_in_set hd_in_set str_nat_nonempty)+
  moreover have "\<not> is_space 45" by (simp add: is_space_def)
  ultimately show ?thesis by (intro py_strip_id) (auto simp: str_int_def)
qed

lemma unsign_str_nat: "unsign (str_nat n) = (False, str_nat n)"
proof -
  obtain d ds where "digits_of n = d # ds" by (cases "digits_of n") auto
  then show ?thesis by (simp add: unsign_def str_nat_def)
qed

lemma int_digits_str_nat: "int_digits (str_nat n) = Some (digits_of n)"
  unfolding str_nat_def by (rule int_digits_ascii) (auto dest: digits_of_lt)

lemma py_int_str_int:
  assumes "length (digits_of (nat \<bar>i\<bar>)) \<le> max_str_digits"
  shows "py_int (str_int i) = Inr i"
proof (cases "i < 0")
  case True
  then have "unsign (str_int i) = (True, str_nat (nat (- i)))"
    by (simp add: str_int_def unsign_def)
  with True assms show ?thesis
    by (simp add: py_int_def str_int_strip int_digits_str_nat nat_of_digits_digits_of)
next
  case False
  then have "unsign (str_int i) = (False, str_nat (nat i))"
    by (simp add: str_int_def unsign_str_nat)
  with False assms show ?thesis
    by (simp add: py_int_def str_int_strip int_digits_str_nat nat_of_digits_digits_of)
qed

lemma startswith_iff: "startswith s p \<longleftrightarrow> (\<exists>r. s = p @ r)"
  unfolding startswith_def by (metis append_eq_conv_conj append_take_drop_id)

lemma endswith_iff: "endswith s p \<longleftrightarrow> (\<exists>r. s = r @ p)"
  unfolding endswith_def by (metis append_eq_append_conv append_take_drop_id diff_diff_cancel
      le_add2 length_append length_drop)

lemma py_partition_Some: "py_partition sep s = Some (a, b) \<Longrightarrow> s = a @ sep @ b"
  by (induction s arbitrary: a) (auto simp: startswith_iff split: if_splits)

lemma py_split_nonempty [simp]: "py_split sep s \<noteq> []"
  by (cases s) (auto split: list.splits)

lemma py_split_max_nonempty [simp]: "py_split_max sep n s \<noteq> []"
  by (cases n; cases s) (auto split: list.splits)

lemma py_join_split: "py_join [sep] (py_split sep s) = s"
proof (induction s)
  case Nil
  then show ?case by simp
next
  case (Cons c s)
  obtain w ws where w: "py_split sep s = w # ws"
    by (cases "py_split sep s") auto
  with Cons show ?case by (cases ws) auto
qed

lemma py_join_split_max: "py_join [sep] (py_split_max sep n s) = s"
proof (induction sep n s rule: py_split_max.induct)
  case (3 sep n c s)
  obtain w ws w' ws' where "py_split_max sep n s = w # ws" "py_split_max sep (Suc n) s = w' # ws'"
    by (metis neq_Nil_conv py_split_max_nonempty)
  with 3 show ?case by (cases ws; cases ws') auto
qed auto

end
