(* ===== verification/Py_Float.thy ===== *)
theory Py_Float
  imports Py_Str
begin

text \<open>
  Python's \<^verbatim>\<open>float\<close>: IEEE 754 binary64 values. The program needs of them the conversion from a
  ratio of integers (true division and the reading of decimal literals, both correctly rounded),
  \<^verbatim>\<open>math.isfinite\<close>, \<^verbatim>\<open>math.ceil\<close> and \<^verbatim>\<open>str\<close>. The theory proves that the ceiling of the rounded
  quotient by a thousand, which the program uses to turn milliseconds into seconds, is the
  ceiling of the exact quotient.
\<close>

text \<open>A finite value is \<open>\<plusminus> m * 2 ^ e\<close>, its sign first.\<close>

datatype pyfloat = FFin bool nat int | FInf bool | FNan

section \<open>Rounding a ratio to the nearest double\<close>

fun bitlen :: "nat \<Rightarrow> nat" where
  "bitlen n = (if n = 0 then 0 else Suc (bitlen (n div 2)))"

declare bitlen.simps [simp del]

text \<open>Division rounded to the nearest integer, ties to even.\<close>

definition round_half_even :: "nat \<Rightarrow> nat \<Rightarrow> nat" where
  "round_half_even a b =
     (let q = a div b; r = a mod b
      in if 2 * r < b then q else if b < 2 * r then q + 1 else if even q then q else q + 1)"

text \<open>\<open>p / q\<close> is at least \<open>2 ^ l\<close>, and the binary exponent of \<open>p / q\<close>.\<close>

definition ratio_ge_pow2 :: "nat \<Rightarrow> nat \<Rightarrow> int \<Rightarrow> bool" where
  "ratio_ge_pow2 p q l \<longleftrightarrow> (if 0 \<le> l then q * 2 ^ nat l \<le> p else q \<le> p * 2 ^ nat (- l))"

definition ratio_log2 :: "nat \<Rightarrow> nat \<Rightarrow> int" where
  "ratio_log2 p q =
     (let l = int (bitlen p) - int (bitlen q) in if ratio_ge_pow2 p q l then l else l - 1)"

definition scaled_round :: "nat \<Rightarrow> nat \<Rightarrow> int \<Rightarrow> nat" where
  "scaled_round p q e =
     (if 0 \<le> e then round_half_even p (q * 2 ^ nat e) else round_half_even (p * 2 ^ nat (- e)) q)"

text \<open>
  The double nearest to \<open>p / q\<close>: 53 bits of precision, exponents from -1074, and overflow to
  an infinity from \<open>2 ^ 1024\<close> on.
\<close>

definition round_ratio :: "bool \<Rightarrow> nat \<Rightarrow> nat \<Rightarrow> pyfloat" where
  "round_ratio neg p q =
     (if p = 0 then FFin neg 0 (- 1074)
      else
        let e = max (- 1074) (ratio_log2 p q - 52);
            m = scaled_round p q e;
            (m', e') = (if m = 2 ^ 53 then (2 ^ 52, e + 1) else (m, e))
        in if 971 < e' then FInf neg else FFin neg m' e')"

section \<open>Operations\<close>

text \<open>\<^verbatim>\<open>math.isfinite\<close>\<close>

fun isfinite :: "pyfloat \<Rightarrow> bool" where
  "isfinite (FFin neg m e) = True"
| "isfinite (FInf neg) = False"
| "isfinite FNan = False"

text \<open>\<^verbatim>\<open>math.ceil\<close> raises on infinities (OverflowError) and on NaN (ValueError).\<close>

fun py_ceil :: "pyfloat \<Rightarrow> int res" where
  "py_ceil (FFin neg m e) =
     (let v = (if neg then - int m else int m)
      in Inr (if 0 \<le> e then v * 2 ^ nat e else - ((- v) div 2 ^ nat (- e))))"
| "py_ceil (FInf neg) = Inl OverflowError"
| "py_ceil FNan = Inl ValueError"

text \<open>\<^verbatim>\<open>a / b\<close> on integers with a positive divisor: correctly rounded, OverflowError when too large\<close>

definition int_truediv :: "int \<Rightarrow> nat \<Rightarrow> pyfloat res" where
  "int_truediv a b =
     (case round_ratio (a < 0) (nat \<bar>a\<bar>) b of
        FInf neg \<Rightarrow> Inl OverflowError
      | x \<Rightarrow> Inr x)"

text \<open>
  Python compares \<open>0.0\<close> and \<open>-0.0\<close> as equal; other finite values are equal when their normal
  forms are.
\<close>

fun float_key :: "pyfloat \<Rightarrow> pyfloat" where
  "float_key (FFin neg m e) = (if m = 0 then FFin False 0 (- 1074) else FFin neg m e)"
| "float_key x = x"

section \<open>Reading decimal literals\<close>

text \<open>The longest run of decimal digits, as their values, and what follows it.\<close>

fun digit_run :: "pystr \<Rightarrow> nat list \<times> pystr" where
  "digit_run [] = ([], [])"
| "digit_run (c # s) =
     (case digit_value c of
        None \<Rightarrow> ([], c # s)
      | Some d \<Rightarrow> (case digit_run s of (ds, r) \<Rightarrow> (d # ds, r)))"

text \<open>
  An unsigned decimal literal \<^verbatim>\<open>(\d+\.\d*|\.\d+|\d+)([eE][-+]?\d+)?\<close>: the digits before and after
  the point and the exponent.
\<close>

definition scan_exponent :: "pystr \<Rightarrow> int option" where
  "scan_exponent s =
     (case s of
        [] \<Rightarrow> Some 0
      | c # r \<Rightarrow>
          if c = 101 \<or> c = 69 then
            (case unsign r of (neg, u) \<Rightarrow>
               (case digit_run u of (ds, rest) \<Rightarrow>
                  if ds \<noteq> [] \<and> rest = []
                  then Some (if neg then - int (nat_of_digits ds) else int (nat_of_digits ds))
                  else None))
          else None)"

definition scan_decimal :: "pystr \<Rightarrow> (nat list \<times> nat list \<times> int) option" where
  "scan_decimal s =
     (case digit_run s of (ip, r) \<Rightarrow>
        (case (case r of
                 c # r' \<Rightarrow> if c = 46 then digit_run r' else ([], r)
               | [] \<Rightarrow> ([], r)) of (fp, r2) \<Rightarrow>
           if ip = [] \<and> fp = [] then None
           else map_option (\<lambda>x. (ip, fp, x)) (scan_exponent r2)))"

text \<open>The double denoted by a literal: \<open>ip.fp\<close> times ten to the exponent.\<close>

definition decimal_float :: "bool \<Rightarrow> nat list \<Rightarrow> nat list \<Rightarrow> int \<Rightarrow> pyfloat" where
  "decimal_float neg ip fp x =
     (let n = nat_of_digits (ip @ fp); k = x - int (length fp)
      in if 0 \<le> k then round_ratio neg (n * 10 ^ nat k) 1 else round_ratio neg n (10 ^ nat (- k)))"

text \<open>
  \<^verbatim>\<open>float(s)\<close> on text: surrounding white space, a sign, the words for infinities and NaN, and
  single underscores between digits are accepted.
\<close>

fun drop_underscores :: "pystr \<Rightarrow> pystr option" where
  "drop_underscores [] = Some []"
| "drop_underscores [c] = (if c = 95 then None else Some [c])"
| "drop_underscores (c # c2 # s) =
     (if c = 95 then None
      else if c2 = 95 then
        (case s of
           [] \<Rightarrow> None
         | c3 # s' \<Rightarrow>
             if is_digit c \<and> is_digit c3 then map_option ((#) c) (drop_underscores (c3 # s'))
             else None)
      else map_option ((#) c) (drop_underscores (c2 # s)))"

definition py_float :: "pystr \<Rightarrow> pyfloat res" where
  "py_float s =
     (case unsign (py_strip s) of (neg, u) \<Rightarrow>
        let w = py_lower u
        in if w = L ''inf'' \<or> w = L ''infinity'' then Inr (FInf neg)
           else if w = L ''nan'' then Inr FNan
           else (case Option.bind (drop_underscores u) scan_decimal of
                   None \<Rightarrow> Inl ValueError
                 | Some (ip, fp, x) \<Rightarrow> Inr (decimal_float neg ip fp x)))"

section \<open>Printing\<close>

text \<open>
  \<^verbatim>\<open>str(x)\<close>: the shortest decimal that reads back as \<^verbatim>\<open>x\<close>, the nearest one among those.
  \<open>ten_exp p q k\<close> is the number of digits before the point of \<open>p / q\<close>, searched from \<open>k\<close>.
\<close>

definition ratio_lt_pow10 :: "nat \<Rightarrow> nat \<Rightarrow> int \<Rightarrow> bool" where
  "ratio_lt_pow10 p q k \<longleftrightarrow> (if 0 \<le> k then p < q * 10 ^ nat k else p * 10 ^ nat (- k) < q)"

fun ten_exp :: "nat \<Rightarrow> nat \<Rightarrow> nat \<Rightarrow> int \<Rightarrow> int" where
  "ten_exp 0 p q k = k"
| "ten_exp (Suc fuel) p q k = (if ratio_lt_pow10 p q k then k else ten_exp fuel p q (k + 1))"

definition float_ratio :: "nat \<Rightarrow> int \<Rightarrow> nat \<times> nat" where
  "float_ratio m e = (if 0 \<le> e then (m * 2 ^ nat e, 1) else (m, 2 ^ nat (- e)))"

definition scale10 :: "nat \<Rightarrow> nat \<Rightarrow> int \<Rightarrow> nat \<times> nat" where
  "scale10 p q k = (if 0 \<le> k then (p * 10 ^ nat k, q) else (p, q * 10 ^ nat (- k)))"

definition shortest_try :: "nat \<Rightarrow> int \<Rightarrow> nat \<Rightarrow> nat \<Rightarrow> int \<Rightarrow> nat \<Rightarrow> nat option" where
  "shortest_try m e p q k n =
     (case scale10 p q (int n - k) of (a, b) \<Rightarrow>
        let lo = a div b;
            reads = (\<lambda>d. case scale10 d 1 (k - int n) of (u, v) \<Rightarrow> round_ratio False u v = FFin False m e)
        in if reads lo \<and> (2 * (a mod b) \<le> b \<or> \<not> reads (lo + 1)) then Some lo
           else if reads (lo + 1) then Some (lo + 1) else None)"

fun shortest_digits :: "nat \<Rightarrow> nat \<Rightarrow> nat \<Rightarrow> int \<Rightarrow> nat \<Rightarrow> nat \<Rightarrow> int \<Rightarrow> nat \<times> nat" where
  "shortest_digits 0 n m e p q k = (0, n)"
| "shortest_digits (Suc fuel) n m e p q k =
     (case shortest_try m e p q k n of
        Some d \<Rightarrow> (d, n)
      | None \<Rightarrow> shortest_digits fuel (n + 1) m e p q k)"

definition format_repr :: "pystr \<Rightarrow> int \<Rightarrow> pystr" where
  "format_repr ds k =
     (let n = int (length ds)
      in if k \<le> - 4 \<or> 16 < k then
           (let x = k - 1; xs = str_nat (nat \<bar>x\<bar>)
            in take 1 ds @ (if n = 1 then [] else [46] @ drop 1 ds) @ [101, if x < 0 then 45 else 43]
               @ (if length xs = 1 then [48] else []) @ xs)
         else if k \<le> 0 then [48, 46] @ replicate (nat (- k)) 48 @ ds
         else if n \<le> k then ds @ replicate (nat (k - n)) 48 @ [46, 48]
         else take (nat k) ds @ [46] @ drop (nat k) ds)"

definition float_abs_repr :: "nat \<Rightarrow> int \<Rightarrow> pystr" where
  "float_abs_repr m e =
     (if m = 0 then L ''0.0''
      else case float_ratio m e of (p, q) \<Rightarrow>
        let k = ten_exp 700 p q (- 330)
        in case shortest_digits 17 1 m e p q k of (d, n) \<Rightarrow>
             let k' = k + int (length (digits_of d)) - int n
             in format_repr (rev (dropWhile ((=) 48) (rev (str_nat d)))) k')"

fun float_repr :: "pyfloat \<Rightarrow> pystr" where
  "float_repr (FFin neg m e) = (if neg then [45] else []) @ float_abs_repr m e"
| "float_repr (FInf neg) = (if neg then L ''-inf'' else L ''inf'')"
| "float_repr FNan = L ''nan''"

section \<open>Bounds of the rounding\<close>

lemma round_half_even_ge: "0 < b \<Longrightarrow> n * b \<le> a \<Longrightarrow> n \<le> round_half_even a b"
  by (auto simp: round_half_even_def Let_def less_eq_div_iff_mult_less_eq intro: le_SucI)

lemma round_half_even_le:
  assumes "0 < b" and "a \<le> n * b"
  shows "round_half_even a b \<le> n"
proof (cases "a div b < n")
  case True
  then show ?thesis by (simp add: round_half_even_def Let_def)
next
  case False
  then have "n * b \<le> a div b * b" by simp
  also have "\<dots> \<le> a" by simp
  finally have "a = n * b" using assms(2) by simp
  then show ?thesis using assms(1) by (simp add: round_half_even_def)
qed

lemma round_half_even_gt:
  assumes "0 < b" and "2 * n * b + b < 2 * a"
  shows "n < round_half_even a b"
proof (cases "n < a div b")
  case True
  then show ?thesis by (auto simp: round_half_even_def Let_def)
next
  case False
  have "n * b \<le> a" using assms(2) by simp
  then have "n \<le> a div b" using assms(1) by (simp add: less_eq_div_iff_mult_less_eq)
  with False have q: "a div b = n" by simp
  have "a = n * b + a mod b" using q by (metis div_mult_mod_eq)
  with assms(2) have "b < 2 * (a mod b)" by simp
  then show ?thesis using q by (simp add: round_half_even_def)
qed

lemma bitlen_bounds: "0 < n \<Longrightarrow> 2 ^ (bitlen n - 1) \<le> n \<and> n < 2 ^ bitlen n \<and> 0 < bitlen n"
proof (induction n rule: bitlen.induct)
  case (1 n)
  have step: "bitlen n = Suc (bitlen (n div 2))" using "1.prems" by (subst bitlen.simps) simp
  show ?case
  proof (cases "n div 2 = 0")
    case True
    then have "n = 1" using "1.prems" by simp
    moreover have "bitlen 0 = 0" by (simp add: bitlen.simps)
    ultimately show ?thesis using step by simp
  next
    case False
    then have IH: "2 ^ (bitlen (n div 2) - 1) \<le> n div 2 \<and> n div 2 < 2 ^ bitlen (n div 2) \<and> 0 < bitlen (n div 2)"
      using "1.IH" "1.prems" by simp
    then obtain j where j: "bitlen (n div 2) = Suc j" by (metis Suc_pred)
    with IH have "2 ^ j \<le> n div 2" "n div 2 < 2 * 2 ^ j" by simp_all
    then show ?thesis unfolding step j by simp linarith
  qed
qed

lemma ratio_ge_pow2_bitlen:
  assumes "0 < p" "0 < q"
  shows "ratio_ge_pow2 p q (int (bitlen p) - int (bitlen q) - 1)"
proof -
  obtain i j where ij: "bitlen p = Suc i" "2 ^ i \<le> p" "bitlen q = Suc j" "q \<le> 2 ^ Suc j"
    using bitlen_bounds [OF assms(1)] bitlen_bounds [OF assms(2)]
    by (metis Suc_pred diff_Suc_1 less_imp_le)
  show ?thesis
  proof (cases "Suc j \<le> i")
    case True
    then have "q * 2 ^ (i - Suc j) \<le> 2 ^ Suc j * 2 ^ (i - Suc j)" using ij(4) by (rule_tac mult_right_mono) auto
    also have "\<dots> = 2 ^ i" using True by (simp flip: power_add power_Suc)
    finally show ?thesis using ij True
      by (auto simp: ratio_ge_pow2_def nat_diff_distrib' nat_less_iff of_nat_diff intro: order_trans
          cong: if_cong)
  next
    case False
    then have "q \<le> 2 ^ i * 2 ^ (Suc j - i)" using ij(4) by (simp flip: power_add power_Suc)
    also have "\<dots> \<le> p * 2 ^ (Suc j - i)" using ij(2) by (rule_tac mult_right_mono) auto
    finally have "q \<le> p * 2 ^ (Suc j - i)" .
    moreover have "nat (- (int (bitlen p) - int (bitlen q) - 1)) = Suc j - i"
      using ij False by (simp add: nat_eq_iff of_nat_diff)
    ultimately show ?thesis using ij False by (auto simp: ratio_ge_pow2_def)
  qed
qed

lemma ratio_log2_ge: "0 < p \<Longrightarrow> 0 < q \<Longrightarrow> ratio_ge_pow2 p q (ratio_log2 p q)"
  using ratio_ge_pow2_bitlen by (simp add: ratio_log2_def Let_def)

lemma ratio_log2_less:
  assumes "0 < p" "0 < q" "p < q * 2 ^ n"
  shows "ratio_log2 p q < int n"
proof (rule ccontr)
  assume "\<not> ?thesis"
  then have l: "int n \<le> ratio_log2 p q" by simp
  then have "q * 2 ^ n \<le> q * 2 ^ nat (ratio_log2 p q)"
    by (intro mult_left_mono power_increasing) auto
  also have "\<dots> \<le> p" using ratio_log2_ge [OF assms(1,2)] l by (simp add: ratio_ge_pow2_def)
  finally show False using assms(3) by simp
qed

text \<open>The ceiling of a non-negative finite value.\<close>

definition ceil_pos :: "nat \<Rightarrow> int \<Rightarrow> int" where
  "ceil_pos m e = (if 0 \<le> e then int m * 2 ^ nat e else - ((- int m) div 2 ^ nat (- e)))"

lemma ceil_pos_carry: "ceil_pos (2 ^ 53) e = ceil_pos (2 ^ 52) (e + 1)"
proof -
  consider "0 \<le> e" | "e = - 1" | "e < - 1" by linarith
  then show ?thesis
  proof cases
    case 1
    then show ?thesis by (simp add: ceil_pos_def nat_add_distrib)
  next
    case 2
    then show ?thesis by (simp add: ceil_pos_def)
  next
    case 3
    define k where "k = nat (- e) - 1"
    have k: "nat (- e) = Suc k" "nat (- (e + 1)) = k" using 3 by (auto simp: k_def nat_diff_distrib)
    have "- (2 ^ 53 :: int) div 2 ^ Suc k = - (2 ^ 52) div 2 ^ k"
      using div_mult_mult1 [of "2::int" "- (2 ^ 52)" "2 ^ k"] by simp
    then show ?thesis using 3 k by (simp add: ceil_pos_def)
  qed
qed

lemma py_ceil_round_ratio:
  assumes "0 < p" "0 < q" "p < q * 2 ^ 1000"
  defines "e \<equiv> max (- 1074) (ratio_log2 p q - 52)"
  shows "py_ceil (round_ratio False p q) = Inr (ceil_pos (scaled_round p q e) e)"
proof -
  have "e < 949" using ratio_log2_less [OF assms(1-3)] by (simp add: e_def)
  then show ?thesis using assms(1) ceil_pos_carry [of e]
    by (auto simp: round_ratio_def Let_def ceil_pos_def simp flip: e_def)
qed

lemma le_div_iff_int: "0 < d \<Longrightarrow> a \<le> x div d \<longleftrightarrow> a * d \<le> x" for a d x :: int
proof
  assume d: "0 < d" and "a \<le> x div d"
  then have "a * d \<le> x div d * d" by (intro mult_right_mono) auto
  also have "\<dots> \<le> x" using d by (metis add.commute le_add_same_cancel2 mod_div_mult_eq pos_mod_sign)
  finally show "a * d \<le> x" .
next
  assume "0 < d" "a * d \<le> x"
  then show "a \<le> x div d" using zdiv_mono1 [of "a * d" x d] by simp
qed

lemma ceil_pos_neg_le:
  assumes "0 < k"
  shows "ceil_pos m (- int k) \<le> int n \<longleftrightarrow> m \<le> n * 2 ^ k"
proof -
  have "ceil_pos m (- int k) \<le> int n \<longleftrightarrow> - int n \<le> (- int m) div 2 ^ k"
    using assms by (auto simp: ceil_pos_def)
  also have "\<dots> \<longleftrightarrow> - int n * 2 ^ k \<le> - int m"
    by (rule le_div_iff_int) simp
  also have "\<dots> \<longleftrightarrow> int m \<le> int (n * 2 ^ k)" by simp
  finally show ?thesis by (simp only: of_nat_le_iff)
qed

text \<open>
  For a quotient below \<open>2 ^ 44\<close> the rounding does not move it past an integer, whatever the
  representation of the quotient; for milliseconds above, only the order of magnitude is kept.
\<close>

lemma ceil_quotient_small:
  assumes "0 < t" "t < d * 2 ^ 44" "d < 1024" "0 < s"
  shows "py_ceil (round_ratio False (t * s) (d * s)) = Inr ((int t + int d - 1) div int d)"
proof -
  define e k n where "e = max (- 1074) (ratio_log2 (t * s) (d * s) - 52)" and "k = nat (- e)"
    and "n = (t + (d - 1)) div d"
  have d: "0 < d" using assms(2) by (cases d) simp_all
  have below: "t * s < (d * s) * 2 ^ 44" using mult_strict_right_mono [OF assms(2,4)] by (simp add: ac_simps)
  have "ratio_log2 (t * s) (d * s) < 44" using ratio_log2_less [of "t * s" "d * s" 44] assms d below by simp
  then have k: "e = - int k" "9 \<le> k" by (auto simp: e_def k_def)
  have m: "scaled_round (t * s) (d * s) e = round_half_even (t * s * 2 ^ k) (d * s)"
    using k by (simp add: scaled_round_def)
  have "d * n \<le> t + (d - 1)" "t + (d - 1) < d * n + d"
    using dividend_less_times_div [OF d, of "t + (d - 1)"] times_div_less_eq_dividend [of d "t + (d - 1)"]
    by (simp_all add: n_def)
  then have n: "t \<le> n * d" "n * d < t + d" "0 < n" using assms(1) d by (auto simp: ac_simps intro: gr0I)
  have "t * (s * 2 ^ k) \<le> n * d * (s * 2 ^ k)" using n(1) by (rule mult_right_mono) simp
  then have hi: "scaled_round (t * s) (d * s) e \<le> n * 2 ^ k"
    unfolding m using d assms(4) by (intro round_half_even_le) (simp_all add: ac_simps)
  have "(512::nat) \<le> 2 ^ k" using power_increasing [OF k(2), of "2::nat"] by simp
  moreover have "(n - 1) * d + 1 \<le> t" using n by (cases n) auto
  then have "((n - 1) * d + 1) * 2 ^ k \<le> t * 2 ^ k" by (rule mult_right_mono) simp
  ultimately have "2 * ((n - 1) * 2 ^ k) * d + d < 2 * (t * 2 ^ k)"
    using assms(3) by (simp add: algebra_simps)
  from mult_strict_right_mono [OF this assms(4)]
  have lo: "(n - 1) * 2 ^ k < scaled_round (t * s) (d * s) e"
    unfolding m using d assms(4) by (intro round_half_even_gt) (simp_all add: algebra_simps)
  have "ceil_pos (scaled_round (t * s) (d * s) e) e = int n"
    using hi lo ceil_pos_neg_le [of k "scaled_round (t * s) (d * s) e" n]
      ceil_pos_neg_le [of k "scaled_round (t * s) (d * s) e" "n - 1"] k n(3) by auto
  moreover have "t * s < (d * s) * 2 ^ 1000"
    using below mult_left_mono [of "2 ^ 44" "2 ^ 1000" "d * s"] power_increasing [of 44 1000 "2::nat"] by simp
  moreover have "int n = (int t + int d - 1) div int d" using d by (simp add: n_def zdiv_int of_nat_diff algebra_simps)
  ultimately show ?thesis using py_ceil_round_ratio [of "t * s" "d * s"] assms(1,4) d by (simp add: e_def)
qed

lemma ceil_thousandth_small:
  "0 < t \<Longrightarrow> t < 1000 * 2 ^ 44 \<Longrightarrow> py_ceil (round_ratio False t 1000) = Inr ((int t + 999) div 1000)"
  using ceil_quotient_small [of t 1000 1] by simp

text \<open>An integer below \<open>2 ^ 44\<close> becomes a double without loss.\<close>

lemma int_to_float_exact:
  assumes "0 < m" "m < 2 ^ 44"
  obtains a e k where "int_truediv (int m) 1 = Inr (FFin False a e)" "float_ratio a e = (m * 2 ^ k, 2 ^ k)"
proof -
  define e where "e = max (- 1074) (ratio_log2 m 1 - 52)"
  define k where "k = nat (- e)"
  have "ratio_log2 m 1 < 44" using ratio_log2_less [of m 1 44] assms by simp
  then have k: "e = - int k" "9 \<le> k" by (auto simp: e_def k_def)
  have r: "scaled_round m 1 e = m * 2 ^ k" using k by (simp add: scaled_round_def round_half_even_def Let_def)
  have rr: "round_ratio False m 1 = (if m * 2 ^ k = 2 ^ 53 then FFin False (2 ^ 52) (e + 1) else FFin False (m * 2 ^ k) e)"
    unfolding round_ratio_def Let_def e_def [symmetric] r using assms(1) k by simp
  show ?thesis
  proof (cases "m * 2 ^ k = 2 ^ 53")
    case True
    obtain j where j: "k = Suc j" "8 \<le> j" using k(2) by (cases k) auto
    have "m * 2 ^ j = 2 ^ 52" using True by (simp add: j(1))
    moreover have "int_truediv (int m) 1 = Inr (FFin False (2 ^ 52) (e + 1))"
      using rr True by (simp add: int_truediv_def)
    moreover have "e + 1 = - int j" using k(1) j by simp
    ultimately show ?thesis using j by (intro that [of "2 ^ 52" "e + 1" j]) (simp_all add: float_ratio_def)
  next
    case False
    moreover have "int_truediv (int m) 1 = Inr (FFin False (m * 2 ^ k) e)"
      using rr False by (simp add: int_truediv_def)
    ultimately show ?thesis using k by (intro that [of "m * 2 ^ k" e k]) (simp_all add: float_ratio_def)
  qed
qed

lemma ceil_thousandth_large:
  assumes "1000 * 2 ^ 44 \<le> t" "t < 2 ^ 63"
  shows "\<exists>c. py_ceil (round_ratio False t 1000) = Inr c \<and> 2 ^ 44 \<le> c"
proof -
  define e where "e = max (- 1074) (ratio_log2 t 1000 - 52)"
  have t: "0 < t" using assms(1) by simp
  have "t < 1000 * 2 ^ 1000"
    using assms(2) power_increasing [of 63 1000 "2::nat"] by simp
  then have c: "py_ceil (round_ratio False t 1000) = Inr (ceil_pos (scaled_round t 1000 e) e)"
    using py_ceil_round_ratio [of t 1000] t by (simp add: e_def)
  have "2 ^ 44 \<le> ceil_pos (scaled_round t 1000 e) e"
  proof (cases "0 \<le> e")
    case True
    have "ratio_ge_pow2 t 1000 (e + 52)" using ratio_log2_ge [of t 1000] t True by (simp add: e_def)
    then have "2 ^ 52 * (1000 * 2 ^ nat e) \<le> t"
      using True by (simp add: ratio_ge_pow2_def nat_add_distrib power_add)
    then have "2 ^ 52 \<le> scaled_round t 1000 e" using True round_half_even_ge [of "1000 * 2 ^ nat e" "2 ^ 52"]
      by (simp add: scaled_round_def)
    then have "2 ^ 52 * 1 \<le> int (scaled_round t 1000 e) * 2 ^ nat e" by (intro mult_mono) auto
    then show ?thesis using True by (simp add: ceil_pos_def)
  next
    case False
    define k where "k = nat (- e)"
    have k: "e = - int k" "0 < k" using False by (auto simp: k_def)
    have "2 ^ 44 * 2 ^ k * 1000 \<le> t * 2 ^ k" using mult_right_mono [OF assms(1), of "2 ^ k"] by (simp add: ac_simps)
    then have "2 ^ 44 * 2 ^ k \<le> scaled_round t 1000 e"
      using k round_half_even_ge [of 1000 "2 ^ 44 * 2 ^ k"] by (simp add: scaled_round_def)
    moreover have "(2 ^ 44 - 1) * 2 ^ k < (2 ^ 44 * 2 ^ k :: nat)" by simp
    ultimately have "\<not> ceil_pos (scaled_round t 1000 e) (- int k) \<le> int (2 ^ 44 - 1)"
      unfolding ceil_pos_neg_le [OF k(2)] by linarith
    then show ?thesis using k(1) by simp
  qed
  then show ?thesis using c by blast
qed

end
