(* ===== verification/Py_Value.thy ===== *)
theory Py_Value
  imports Py_Float
begin

text \<open>
  The Python values that cross the program's interfaces. Scalars are what can be a dictionary key
  or a set member; \<open>pyval\<close> adds the containers that bins and configuration documents hold.
\<close>

datatype pyscalar =
    SNone
  | SBool bool
  | SInt int
  | SFloat pyfloat
  | SStr pystr
  | SBytes bytes

text \<open>\<open>PKeyOrdered\<close> is the client's \<^verbatim>\<open>KeyOrderedDict\<close>, a subclass of \<^verbatim>\<open>dict\<close>.\<close>

datatype pyval =
    PS pyscalar
  | PList "pyval list"
  | PTuple "pyval list"
  | PSet "pyscalar list"
  | PDict "(pyscalar \<times> pyval) list"
  | PKeyOrdered "(pyscalar \<times> pyval) list"

text \<open>
  Python equality identifies numbers across types (\<^verbatim>\<open>True == 1 == 1.0\<close>). \<open>scalar_key\<close> is a normal
  form: two scalars are the same dictionary key when their normal forms are equal.
\<close>

fun float_as_int :: "pyfloat \<Rightarrow> int option" where
  "float_as_int (FFin neg m e) =
     (let s = (if neg then - 1 else 1)
      in if 0 \<le> e then Some (s * int m * 2 ^ nat e)
         else if m mod 2 ^ nat (- e) = 0 then Some (s * int (m div 2 ^ nat (- e)))
         else None)"
| "float_as_int _ = None"

fun scalar_key :: "pyscalar \<Rightarrow> pyscalar" where
  "scalar_key (SBool b) = SInt (if b then 1 else 0)"
| "scalar_key (SFloat x) =
     (case float_as_int x of Some i \<Rightarrow> SInt i | None \<Rightarrow> SFloat (float_key x))"
| "scalar_key v = v"

text \<open>\<^verbatim>\<open>bool(v)\<close>\<close>

fun scalar_true :: "pyscalar \<Rightarrow> bool" where
  "scalar_true SNone = False"
| "scalar_true (SBool b) = b"
| "scalar_true (SInt i) = (i \<noteq> 0)"
| "scalar_true (SFloat x) = (case x of FFin neg m e \<Rightarrow> m \<noteq> 0 | _ \<Rightarrow> True)"
| "scalar_true (SStr s) = (s \<noteq> [])"
| "scalar_true (SBytes b) = (b \<noteq> [])"

fun py_true :: "pyval \<Rightarrow> bool" where
  "py_true (PS v) = scalar_true v"
| "py_true (PList xs) = (xs \<noteq> [])"
| "py_true (PTuple xs) = (xs \<noteq> [])"
| "py_true (PSet xs) = (xs \<noteq> [])"
| "py_true (PDict d) = (d \<noteq> [])"
| "py_true (PKeyOrdered d) = (d \<noteq> [])"

text \<open>\<^verbatim>\<open>isinstance(v, str)\<close>\<close>

fun is_str :: "pyval \<Rightarrow> bool" where
  "is_str (PS (SStr s)) = True"
| "is_str v = False"

text \<open>\<^verbatim>\<open>type(v).__name__\<close> and \<^verbatim>\<open>str(v)\<close> of a scalar\<close>

fun scalar_type_name :: "pyscalar \<Rightarrow> pystr" where
  "scalar_type_name SNone = L ''NoneType''"
| "scalar_type_name (SBool b) = L ''bool''"
| "scalar_type_name (SInt i) = L ''int''"
| "scalar_type_name (SFloat x) = L ''float''"
| "scalar_type_name (SStr s) = L ''str''"
| "scalar_type_name (SBytes b) = L ''bytes''"

fun scalar_str :: "pyscalar \<Rightarrow> pystr" where
  "scalar_str SNone = L ''None''"
| "scalar_str (SBool b) = (if b then L ''True'' else L ''False'')"
| "scalar_str (SInt i) = str_int i"
| "scalar_str (SFloat x) = float_repr x"
| "scalar_str (SStr s) = s"
| "scalar_str (SBytes b) = bytes_repr b"

text \<open>Dictionaries and sets whose keys are scalars.\<close>

abbreviation sdict_get :: "(pyscalar, 'v) dict \<Rightarrow> pyscalar \<Rightarrow> 'v option" where
  "sdict_get \<equiv> kget scalar_key"

abbreviation sdict_set :: "pyscalar \<Rightarrow> 'v \<Rightarrow> (pyscalar, 'v) dict \<Rightarrow> (pyscalar, 'v) dict" where
  "sdict_set \<equiv> kset scalar_key"

text \<open>A set comprehension: an element equal to an earlier one is dropped.\<close>

fun sset_of :: "pyscalar list \<Rightarrow> pyscalar list" where
  "sset_of [] = []"
| "sset_of (x # xs) = x # filter (\<lambda>y. scalar_key y \<noteq> scalar_key x) (sset_of xs)"

text \<open>Text and byte strings are equal only to themselves.\<close>

fun is_textual :: "pyscalar \<Rightarrow> bool" where
  "is_textual (SStr s) = True"
| "is_textual (SBytes b) = True"
| "is_textual v = False"

lemma scalar_key_textual [simp]: "is_textual v \<Longrightarrow> scalar_key v = v"
  by (cases v) auto

lemma scalar_key_inj_textual:
  "is_textual v \<Longrightarrow> is_textual w \<Longrightarrow> scalar_key v = scalar_key w \<longleftrightarrow> v = w"
  by simp

lemma sset_of_subset: "set (sset_of xs) \<subseteq> set xs"
  by (induction xs) auto

lemma sset_of_distinct: "distinct (map scalar_key (sset_of xs))"
proof (induction xs)
  case (Cons x xs)
  have "distinct (map scalar_key (filter P (sset_of xs)))" for P
    using Cons by (rule distinct_map_filter)
  then show ?case by auto
qed simp

lemma sset_of_keys: "scalar_key ` set (sset_of xs) = scalar_key ` set xs"
proof (induction xs)
  case (Cons x xs)
  have "insert a (f ` {y \<in> A. f y \<noteq> a}) = insert a (f ` A)" for a and f :: "pyscalar \<Rightarrow> pyscalar" and A
    by auto
  with Cons show ?case by simp
qed simp

lemma sset_of_textual:
  assumes "\<And>x. x \<in> set xs \<Longrightarrow> is_textual x"
  shows "set (sset_of xs) = set xs"
proof -
  have "scalar_key ` set ys = set ys" if "set ys \<subseteq> set xs" for ys
    using assms that by (force simp: image_iff)
  then show ?thesis using sset_of_keys [of xs] sset_of_subset [of xs] by (metis order_refl)
qed

end
