(* ===== verification/Config.thy ===== *)
theory Config
  imports Py_Value
begin

text \<open>
  Configuration (\<^verbatim>\<open>config.py\<close>): the enumerations with their textual values, the set routes and the
  configuration objects with their defaults, and the validation of names and routes. Numbers that
  the program reads as \<^verbatim>\<open>float\<close> (rates, intervals, timeouts) are rationals here.
\<close>

section \<open>Enumerations\<close>

datatype HashStrategy = MAP_BIN | FIELD_BINS

datatype TtlOverflowPolicy = REJECT | CLAMP | NEVER_EXPIRE

datatype RecordExistsPolicy = UPDATE | REPLACE | CREATE_ONLY

fun HashStrategy_value :: "HashStrategy \<Rightarrow> pystr" where
  "HashStrategy_value MAP_BIN = L ''map_bin''"
| "HashStrategy_value FIELD_BINS = L ''field_bins''"

fun TtlOverflowPolicy_value :: "TtlOverflowPolicy \<Rightarrow> pystr" where
  "TtlOverflowPolicy_value REJECT = L ''reject''"
| "TtlOverflowPolicy_value CLAMP = L ''clamp''"
| "TtlOverflowPolicy_value NEVER_EXPIRE = L ''never_expire''"

fun RecordExistsPolicy_value :: "RecordExistsPolicy \<Rightarrow> pystr" where
  "RecordExistsPolicy_value UPDATE = L ''update''"
| "RecordExistsPolicy_value REPLACE = L ''replace''"
| "RecordExistsPolicy_value CREATE_ONLY = L ''create_only''"

text \<open>Calling an enumeration on a value: the member with that value, or ValueError.\<close>

definition enum_of :: "('e \<Rightarrow> pystr) \<Rightarrow> 'e list \<Rightarrow> pyval \<Rightarrow> 'e res" where
  "enum_of val members v =
     (case v of
        PS (SStr s) \<Rightarrow> (case find (\<lambda>m. val m = s) members of Some m \<Rightarrow> Inr m | None \<Rightarrow> Inl ValueError)
      | _ \<Rightarrow> Inl ValueError)"

definition HashStrategy_of :: "pyval \<Rightarrow> HashStrategy res" where
  "HashStrategy_of = enum_of HashStrategy_value [MAP_BIN, FIELD_BINS]"

definition TtlOverflowPolicy_of :: "pyval \<Rightarrow> TtlOverflowPolicy res" where
  "TtlOverflowPolicy_of = enum_of TtlOverflowPolicy_value [REJECT, CLAMP, NEVER_EXPIRE]"

definition RecordExistsPolicy_of :: "pyval \<Rightarrow> RecordExistsPolicy res" where
  "RecordExistsPolicy_of = enum_of RecordExistsPolicy_value [UPDATE, REPLACE, CREATE_ONLY]"

section \<open>Set routes\<close>

definition DEFAULT_MAX_TTL_S :: int where
  "DEFAULT_MAX_TTL_S = 315360000"

definition MAX_AEROSPIKE_SET_NAME_LEN :: nat where
  "MAX_AEROSPIKE_SET_NAME_LEN = 128"

record AerospikeSetRoute =
  pattern :: pystr
  destination :: pystr
  route_hash_strategy :: "HashStrategy option"
  route_value_bin :: "pystr option"

definition validate_aerospike_set_label :: "pyval \<Rightarrow> pystr res" where
  "validate_aerospike_set_label name =
     (case name of
        PS (SStr n) \<Rightarrow>
          (let s = py_strip n
           in if s = [] then Inl ValueError
              else if 0 \<in> set s then Inl ValueError
              else if MAX_AEROSPIKE_SET_NAME_LEN < length s then Inl ValueError
              else Inr s)
      | _ \<Rightarrow> Inl TypeError)"

text \<open>\<^verbatim>\<open>item.get(name)\<close> on a mapping of a document; a missing key and a null are both \<^verbatim>\<open>None\<close>.\<close>

definition doc_get :: "(pyscalar \<times> pyval) list \<Rightarrow> string \<Rightarrow> pyval" where
  "doc_get d name = (case sdict_get d (SStr (L name)) of Some v \<Rightarrow> v | None \<Rightarrow> PS SNone)"

definition parse_set_route :: "pyval \<Rightarrow> AerospikeSetRoute res" where
  "parse_set_route item =
     (case item of
        PDict d \<Rightarrow>
          (let pat = doc_get d ''pattern''; dest = doc_get d ''destination'';
               raw_hs = doc_get d ''hash_strategy''; raw_vb = doc_get d ''value_bin''
           in if pat = PS SNone \<or> dest = PS SNone then Inl ValueError
              else if \<not> is_str pat \<or> \<not> is_str dest then Inl TypeError
              else
                rbind (if raw_hs = PS SNone \<or> raw_hs = PS (SStr []) then Inr None
                       else rmap Some (HashStrategy_of raw_hs)) (\<lambda>route_hash.
                rbind (case raw_vb of
                         PS SNone \<Rightarrow> Inr None
                       | PS (SStr v) \<Rightarrow>
                           Inr (if v = [] \<or> py_strip v = [] then None else Some (py_strip v))
                       | _ \<Rightarrow> Inl TypeError) (\<lambda>route_vb.
                rbind (validate_aerospike_set_label pat) (\<lambda>p.
                rbind (validate_aerospike_set_label dest) (\<lambda>q.
                Inr \<lparr>pattern = p, destination = q, route_hash_strategy = route_hash,
                     route_value_bin = route_vb\<rparr>)))))
      | _ \<Rightarrow> Inl ValueError)"

definition parse_set_routes :: "pyval \<Rightarrow> AerospikeSetRoute list res" where
  "parse_set_routes raw =
     (case raw of
        PS SNone \<Rightarrow> Inr []
      | PList items \<Rightarrow> mapr parse_set_route items
      | PTuple items \<Rightarrow> mapr parse_set_route items
      | _ \<Rightarrow> Inl ValueError)"

section \<open>Configuration objects\<close>

record RedisConfig =
  rc_host :: pystr
  rc_port :: int
  rc_db :: int
  rc_url :: "pystr option"
  rc_cluster :: bool
  rc_username :: "pystr option"
  rc_password :: "pystr option"
  rc_ssl :: bool
  rc_ssl_ca_certs :: "pystr option"
  rc_ssl_certfile :: "pystr option"
  rc_ssl_keyfile :: "pystr option"
  rc_ssl_cert_reqs :: "pystr option"
  rc_socket_timeout :: "rat option"
  rc_socket_connect_timeout :: "rat option"
  rc_scan_match :: pystr

definition RedisConfig_default :: RedisConfig where
  "RedisConfig_default =
     \<lparr>rc_host = L ''localhost'', rc_port = 6379, rc_db = 0, rc_url = None, rc_cluster = False,
      rc_username = None, rc_password = None, rc_ssl = False, rc_ssl_ca_certs = None,
      rc_ssl_certfile = None, rc_ssl_keyfile = None, rc_ssl_cert_reqs = None,
      rc_socket_timeout = None, rc_socket_connect_timeout = None, rc_scan_match = L ''*''\<rparr>"

record AerospikeConfig =
  ac_hosts :: "(pystr \<times> int) list"
  ac_use_services_alternate :: bool
  ac_username :: "pystr option"
  ac_password :: "pystr option"
  ac_auth_mode :: "pystr option"
  ac_tls_enable :: bool
  ac_tls_name :: "pystr option"
  ac_tls_cafile :: "pystr option"
  ac_tls_certfile :: "pystr option"
  ac_tls_keyfile :: "pystr option"
  ac_tls_keyfile_pw :: "pystr option"
  ac_socket_timeout_ms :: int
  ac_total_timeout_ms :: int
  ac_connect_timeout_ms :: int
  ac_login_timeout_ms :: int
  ac_namespace :: pystr
  ac_set_name :: pystr
  ac_set_routes :: "AerospikeSetRoute list"
  ac_value_bin :: pystr
  ac_send_key :: bool
  ac_record_exists_policy :: RecordExistsPolicy
  ac_max_record_size :: int
  ac_max_ttl :: int

definition AerospikeConfig_default :: AerospikeConfig where
  "AerospikeConfig_default =
     \<lparr>ac_hosts = [(L ''localhost'', 3000)], ac_use_services_alternate = False,
      ac_username = None, ac_password = None, ac_auth_mode = None,
      ac_tls_enable = False, ac_tls_name = None, ac_tls_cafile = None, ac_tls_certfile = None,
      ac_tls_keyfile = None, ac_tls_keyfile_pw = None,
      ac_socket_timeout_ms = 0, ac_total_timeout_ms = 0, ac_connect_timeout_ms = 1000,
      ac_login_timeout_ms = 5000, ac_namespace = L ''test'', ac_set_name = L ''redis'',
      ac_set_routes = [], ac_value_bin = L ''value'', ac_send_key = False,
      ac_record_exists_policy = UPDATE, ac_max_record_size = 8 * 1024 * 1024,
      ac_max_ttl = DEFAULT_MAX_TTL_S\<rparr>"

record MigrationConfig =
  mc_redis :: RedisConfig
  mc_aerospike :: AerospikeConfig
  mc_workers :: int
  mc_scan_batch :: int
  mc_queue_size :: int
  mc_scan_rate_limit :: rat
  mc_write_rate_limit :: rat
  mc_write_batch_size :: int
  mc_hash_strategy :: HashStrategy
  mc_ttl_overflow_policy :: TtlOverflowPolicy
  mc_progress_interval :: rat

definition MigrationConfig_default :: MigrationConfig where
  "MigrationConfig_default =
     \<lparr>mc_redis = RedisConfig_default, mc_aerospike = AerospikeConfig_default, mc_workers = 8,
      mc_scan_batch = 500, mc_queue_size = 10000, mc_scan_rate_limit = 0, mc_write_rate_limit = 0,
      mc_write_batch_size = 1, mc_hash_strategy = MAP_BIN, mc_ttl_overflow_policy = REJECT,
      mc_progress_interval = 10\<rparr>"

text \<open>An optional text counts as set when it is present and not empty.\<close>

definition opt_text :: "pystr option \<Rightarrow> pystr option" where
  "opt_text t = (if t = Some [] then None else t)"

section \<open>Facts\<close>

lemma validate_label_Inr:
  "validate_aerospike_set_label v = Inr s \<Longrightarrow>
     s \<noteq> [] \<and> 0 \<notin> set s \<and> length s \<le> MAX_AEROSPIKE_SET_NAME_LEN"
  by (auto simp: validate_aerospike_set_label_def Let_def split: pyval.splits pyscalar.splits if_splits)

definition valid_route :: "AerospikeSetRoute \<Rightarrow> bool" where
  "valid_route r \<longleftrightarrow>
     pattern r \<noteq> [] \<and> 0 \<notin> set (pattern r) \<and> length (pattern r) \<le> MAX_AEROSPIKE_SET_NAME_LEN \<and>
     destination r \<noteq> [] \<and> 0 \<notin> set (destination r) \<and>
     length (destination r) \<le> MAX_AEROSPIKE_SET_NAME_LEN \<and> route_value_bin r \<noteq> Some []"

lemma parse_set_route_valid: "parse_set_route item = Inr r \<Longrightarrow> valid_route r"
  by (auto simp: parse_set_route_def valid_route_def Let_def rbind_eq_Inr
      split: pyval.splits pyscalar.splits if_splits dest!: validate_label_Inr)

end
