(* ===== verification/Config_Load.thy ===== *)
theory Config_Load
  imports Config "HOL-Library.Monad_Syntax"
begin

text \<open>
  Loading of the configuration (\<^verbatim>\<open>config.py\<close>): the constructors from the environment, from a mapping
  and from a YAML file. A configuration file can put any value in any attribute, so the objects that
  these constructors build are dictionaries of attributes; the typed records of \<^verbatim>\<open>Config\<close> are the view
  of an object whose attributes have the types the dataclasses declare.

  The values of a document are those of \<open>pyval\<close> (a YAML timestamp is not among them). The names that
  every Python object has, such as \<^verbatim>\<open>__class__\<close>, are not configuration keys and are not modelled.
\<close>

section \<open>Python values as the loader uses them\<close>

text \<open>\<^verbatim>\<open>for x in v\<close>: the elements, or TypeError\<close>

fun py_iter :: "pyval \<Rightarrow> pyval list res" where
  "py_iter (PList xs) = Inr xs"
| "py_iter (PTuple xs) = Inr xs"
| "py_iter (PSet xs) = Inr (map PS xs)"
| "py_iter (PDict d) = Inr (map (\<lambda>p. PS (fst p)) d)"
| "py_iter (PKeyOrdered d) = Inr (map (\<lambda>p. PS (fst p)) d)"
| "py_iter (PS (SStr s)) = Inr (map (\<lambda>c. PS (SStr [c])) s)"
| "py_iter (PS (SBytes b)) = Inr (map (\<lambda>w. PS (SInt (uint w))) b)"
| "py_iter (PS v) = Inl TypeError"

text \<open>\<^verbatim>\<open>a, b = v\<close>\<close>

definition py_unpack2 :: "pyval \<Rightarrow> (pyval \<times> pyval) res" where
  "py_unpack2 v =
     rbind (py_iter v) (\<lambda>xs. case xs of [a, b] \<Rightarrow> Inr (a, b) | _ \<Rightarrow> Inl ValueError)"

text \<open>
  \<^verbatim>\<open>dict(v)\<close>: a copy of a mapping, or the pairs of an iterable. A key has to be hashable; the only
  hashable values of a document are its scalars.
\<close>

definition py_dict :: "pyval \<Rightarrow> (pyscalar, pyval) dict res" where
  "py_dict v =
     (case v of
        PDict d \<Rightarrow> Inr d
      | PKeyOrdered d \<Rightarrow> Inr d
      | _ \<Rightarrow>
          rbind (py_iter v) (\<lambda>items.
            foldr_res (\<lambda>item d. rbind (py_unpack2 item) (\<lambda>(k, x).
              case k of PS key \<Rightarrow> Inr (sdict_set key x d) | _ \<Rightarrow> Inl TypeError)) items []))"

text \<open>\<^verbatim>\<open>int(x)\<close> of a float truncates; it raises on infinities and on NaN.\<close>

fun float_trunc :: "pyfloat \<Rightarrow> int res" where
  "float_trunc (FFin neg m e) =
     (let n = (if 0 \<le> e then int m * 2 ^ nat e else int m div 2 ^ nat (- e))
      in Inr (if neg then - n else n))"
| "float_trunc (FInf neg) = Inl OverflowError"
| "float_trunc FNan = Inl ValueError"

text \<open>\<^verbatim>\<open>int(v)\<close>; a byte string is read as ASCII, with ASCII white space around it.\<close>

fun py_int_of :: "pyval \<Rightarrow> int res" where
  "py_int_of (PS (SInt i)) = Inr i"
| "py_int_of (PS (SBool b)) = Inr (if b then 1 else 0)"
| "py_int_of (PS (SFloat x)) = float_trunc x"
| "py_int_of (PS (SStr s)) = py_int s"
| "py_int_of (PS (SBytes b)) =
     (let t = map unat b
      in if list_all (\<lambda>c. c < 128 \<and> \<not> (28 \<le> c \<and> c \<le> 31)) t then py_int t else Inl ValueError)"
| "py_int_of v = Inl TypeError"

section \<open>Helpers of the module\<close>

text \<open>
  \<^verbatim>\<open>_as_bool\<close>. Its callers pass a text or nothing; a container is none of the words below, and an
  integer too long to be printed, for which \<^verbatim>\<open>str\<close> raises, is not passed.
\<close>

definition as_bool :: "pyval \<Rightarrow> bool \<Rightarrow> bool" where
  "as_bool value dflt =
     (case value of
        PS SNone \<Rightarrow> dflt
      | PS (SBool b) \<Rightarrow> b
      | PS v \<Rightarrow>
          (let text = py_lower (py_strip (scalar_str v))
           in if text = [] then dflt
              else if text \<in> set [L ''1'', L ''true'', L ''yes'', L ''on''] then True
              else if text \<in> set [L ''0'', L ''false'', L ''no'', L ''off''] then False
              else dflt)
      | _ \<Rightarrow> dflt)"

text \<open>One entry of the \<^verbatim>\<open>hosts\<close> list: a mapping, or a pair.\<close>

definition host_of_mapping :: "(pyscalar, pyval) dict \<Rightarrow> pyval res" where
  "host_of_mapping d =
     (case sdict_get d (SStr (L ''host'')) of
        None \<Rightarrow> Inl KeyError
      | Some h \<Rightarrow>
          rmap (\<lambda>p. PTuple [h, PS (SInt p)])
            (case sdict_get d (SStr (L ''port'')) of None \<Rightarrow> Inr 3000 | Some v \<Rightarrow> py_int_of v))"

definition normalize_host :: "pyval \<Rightarrow> pyval res" where
  "normalize_host entry =
     (case entry of
        PDict d \<Rightarrow> host_of_mapping d
      | PKeyOrdered d \<Rightarrow> host_of_mapping d
      | _ \<Rightarrow> rbind (py_unpack2 entry) (\<lambda>(addr, p). rmap (\<lambda>n. PTuple [addr, PS (SInt n)]) (py_int_of p)))"

definition normalize_hosts :: "pyval \<Rightarrow> pyval \<Rightarrow> pyval \<Rightarrow> pyval list option res" where
  "normalize_hosts hosts host port =
     (if py_true hosts then rbind (py_iter hosts) (\<lambda>entries. rmap Some (mapr normalize_host entries))
      else if host \<noteq> PS SNone then
        rmap (\<lambda>n. Some [PTuple [host, PS (SInt n)]]) (if port \<noteq> PS SNone then py_int_of port else Inr 3000)
      else Inr None)"

section \<open>Configuration objects as dictionaries of attributes\<close>

text \<open>An attribute: a plain value, or one of the objects that the loader itself makes.\<close>

datatype cfg_attr =
    AVal pyval
  | ARoutes "AerospikeSetRoute list"
  | AExists RecordExistsPolicy
  | AHash HashStrategy
  | ATtl TtlOverflowPolicy

type_synonym cfg_obj = "(pystr, cfg_attr) dict"

abbreviation AStr :: "pystr \<Rightarrow> cfg_attr" where "AStr s \<equiv> AVal (PS (SStr s))"
abbreviation AInt :: "int \<Rightarrow> cfg_attr" where "AInt i \<equiv> AVal (PS (SInt i))"
abbreviation ABool :: "bool \<Rightarrow> cfg_attr" where "ABool b \<equiv> AVal (PS (SBool b))"
abbreviation AFloat :: "pyfloat \<Rightarrow> cfg_attr" where "AFloat x \<equiv> AVal (PS (SFloat x))"
abbreviation ANone :: cfg_attr where "ANone \<equiv> AVal (PS SNone)"

definition AOptStr :: "pystr option \<Rightarrow> cfg_attr" where
  "AOptStr t = (case t of Some s \<Rightarrow> AStr s | None \<Rightarrow> ANone)"

definition attr_get :: "cfg_obj \<Rightarrow> string \<Rightarrow> cfg_attr option" where
  "attr_get obj name = dict_get obj (L name)"

text \<open>The objects with the defaults of the dataclasses.\<close>

definition RedisConfig_obj :: cfg_obj where
  "RedisConfig_obj =
     [(L ''host'', AStr (L ''localhost'')), (L ''port'', AInt 6379), (L ''db'', AInt 0), (L ''url'', ANone),
      (L ''cluster'', ABool False), (L ''username'', ANone), (L ''password'', ANone), (L ''ssl'', ABool False),
      (L ''ssl_ca_certs'', ANone), (L ''ssl_certfile'', ANone), (L ''ssl_keyfile'', ANone),
      (L ''ssl_cert_reqs'', ANone), (L ''socket_timeout'', ANone), (L ''socket_connect_timeout'', ANone),
      (L ''scan_match'', AStr (L ''*''))]"

definition AerospikeConfig_obj :: cfg_obj where
  "AerospikeConfig_obj =
     [(L ''hosts'', AVal (PList [PTuple [PS (SStr (L ''localhost'')), PS (SInt 3000)]])),
      (L ''use_services_alternate'', ABool False), (L ''username'', ANone), (L ''password'', ANone),
      (L ''auth_mode'', ANone), (L ''tls_enable'', ABool False), (L ''tls_name'', ANone),
      (L ''tls_cafile'', ANone), (L ''tls_certfile'', ANone), (L ''tls_keyfile'', ANone),
      (L ''tls_keyfile_pw'', ANone), (L ''socket_timeout_ms'', AInt 0), (L ''total_timeout_ms'', AInt 0),
      (L ''connect_timeout_ms'', AInt 1000), (L ''login_timeout_ms'', AInt 5000),
      (L ''namespace'', AStr (L ''test'')), (L ''set_name'', AStr (L ''redis'')), (L ''set_routes'', ARoutes []),
      (L ''value_bin'', AStr (L ''value'')), (L ''send_key'', ABool False),
      (L ''record_exists_policy'', AExists UPDATE), (L ''max_record_size'', AInt (8 * 1024 * 1024)),
      (L ''max_ttl'', AInt DEFAULT_MAX_TTL_S)]"

text \<open>The floats \<^verbatim>\<open>10.0\<close> and \<^verbatim>\<open>0.0\<close>\<close>

definition ten_float :: pyfloat where
  "ten_float = FFin False (5 * 2 ^ 50) (- 49)"

definition zero_float :: pyfloat where
  "zero_float = FFin False 0 (- 1074)"

text \<open>The two sections of a migration configuration and its other attributes.\<close>

record MigrationConfig_obj =
  mo_redis :: cfg_obj
  mo_aerospike :: cfg_obj
  mo_top :: cfg_obj

definition MigrationConfig_obj_default :: MigrationConfig_obj where
  "MigrationConfig_obj_default =
     \<lparr>mo_redis = RedisConfig_obj, mo_aerospike = AerospikeConfig_obj,
      mo_top =
        [(L ''workers'', AInt 8), (L ''scan_batch'', AInt 500), (L ''queue_size'', AInt 10000),
         (L ''scan_rate_limit'', AInt 0), (L ''write_rate_limit'', AInt 0), (L ''write_batch_size'', AInt 1),
         (L ''hash_strategy'', AHash MAP_BIN), (L ''ttl_overflow_policy'', ATtl REJECT),
         (L ''progress_interval'', AFloat ten_float)]\<rparr>"

section \<open>From a mapping\<close>

text \<open>
  The loop \<^verbatim>\<open>if hasattr(cfg, key): setattr(cfg, key, value)\<close>: an object has its fields and the
  methods of its class, and a name that is not a text raises TypeError.
\<close>

fun set_known :: "pystr list \<Rightarrow> pyscalar \<times> pyval \<Rightarrow> cfg_obj \<Rightarrow> cfg_obj res" where
  "set_known methods (SStr key, value) cfg =
     Inr (if dict_get cfg key \<noteq> None \<or> key \<in> set methods then dict_set key (AVal value) cfg else cfg)"
| "set_known methods (key, value) cfg = Inl TypeError"

definition overlay :: "pystr list \<Rightarrow> (pyscalar, pyval) dict \<Rightarrow> cfg_obj \<Rightarrow> cfg_obj res" where
  "overlay methods data cfg = foldr_res (set_known methods) data cfg"

definition section_methods :: "pystr list" where
  "section_methods = [L ''from_env'', L ''from_dict'']"

definition doc_has :: "(pyscalar, pyval) dict \<Rightarrow> string \<Rightarrow> bool" where
  "doc_has d name \<longleftrightarrow> sdict_get d (SStr (L name)) \<noteq> None"

definition doc_del :: "string \<Rightarrow> (pyscalar, pyval) dict \<Rightarrow> (pyscalar, pyval) dict" where
  "doc_del name d = dict_del (SStr (L name)) d"

text \<open>The alias \<^verbatim>\<open>key_pattern\<close> of \<^verbatim>\<open>scan_match\<close>.\<close>

definition resolve_key_pattern :: "(pyscalar, pyval) dict \<Rightarrow> (pyscalar, pyval) dict" where
  "resolve_key_pattern d =
     (if doc_has d ''key_pattern'' \<and> \<not> doc_has d ''scan_match''
      then sdict_set (SStr (L ''scan_match'')) (doc_get d ''key_pattern'') (doc_del ''key_pattern'' d)
      else if doc_has d ''key_pattern'' then doc_del ''key_pattern'' d
      else d)"

definition RedisConfig_from_dict :: "pyval \<Rightarrow> cfg_obj res" where
  "RedisConfig_from_dict data =
     (if \<not> py_true data then Inr RedisConfig_obj
      else rbind (py_dict data) (\<lambda>d. overlay section_methods (resolve_key_pattern d) RedisConfig_obj))"

definition AerospikeConfig_from_dict :: "pyval \<Rightarrow> cfg_obj res" where
  "AerospikeConfig_from_dict data =
     (if \<not> py_true data then Inr AerospikeConfig_obj
      else
        rbind (py_dict data) (\<lambda>d.
        rbind (normalize_hosts (doc_get d ''hosts'') (doc_get d ''host'') (doc_get d ''port'')) (\<lambda>hosts.
        let d1 = doc_del ''port'' (doc_del ''host'' (doc_del ''hosts'' d));
            cfg1 = (case hosts of
                      Some hs \<Rightarrow> dict_set (L ''hosts'') (AVal (PList hs)) AerospikeConfig_obj
                    | None \<Rightarrow> AerospikeConfig_obj)
        in
        rbind (if doc_has d1 ''set_routes''
               then rmap (\<lambda>rs. dict_set (L ''set_routes'') (ARoutes rs) cfg1)
                      (parse_set_routes (doc_get d1 ''set_routes''))
               else Inr cfg1) (\<lambda>cfg2.
        let d2 = doc_del ''set_routes'' d1
        in
        rbind (if doc_has d2 ''record_exists_policy''
               then rmap (\<lambda>p. dict_set (L ''record_exists_policy'') (AExists p) cfg2)
                      (RecordExistsPolicy_of (doc_get d2 ''record_exists_policy''))
               else Inr cfg2) (\<lambda>cfg3.
        overlay section_methods (doc_del ''record_exists_policy'' d2) cfg3)))))"

definition MigrationConfig_from_dict :: "pyval \<Rightarrow> MigrationConfig_obj res" where
  "MigrationConfig_from_dict data =
     (if \<not> py_true data then Inr MigrationConfig_obj_default
      else
        rbind (py_dict data) (\<lambda>d.
        rbind (RedisConfig_from_dict (doc_get d ''redis'')) (\<lambda>redis.
        rbind (AerospikeConfig_from_dict (doc_get d ''aerospike'')) (\<lambda>aerospike.
        let d1 = doc_del ''aerospike'' (doc_del ''redis'' d); top0 = mo_top MigrationConfig_obj_default
        in
        rbind (if doc_has d1 ''hash_strategy''
               then rmap (\<lambda>h. dict_set (L ''hash_strategy'') (AHash h) top0)
                      (HashStrategy_of (doc_get d1 ''hash_strategy''))
               else Inr top0) (\<lambda>top1.
        let d2 = doc_del ''hash_strategy'' d1
        in
        rbind (if doc_has d2 ''ttl_overflow_policy''
               then rmap (\<lambda>p. dict_set (L ''ttl_overflow_policy'') (ATtl p) top1)
                      (TtlOverflowPolicy_of (doc_get d2 ''ttl_overflow_policy''))
               else Inr top1) (\<lambda>top2.
        rmap (\<lambda>top3. \<lparr>mo_redis = redis, mo_aerospike = aerospike, mo_top = top3\<rparr>)
          (overlay (L ''from_yaml'' # section_methods) (doc_del ''ttl_overflow_policy'' d2) top2)))))))"

text \<open>
  \<^verbatim>\<open>from_yaml\<close>: \<open>load\<close> opens the file and parses it, or raises (also when PyYAML is not installed).
\<close>

definition MigrationConfig_from_yaml :: "(pystr \<Rightarrow> pyval res) \<Rightarrow> pystr \<Rightarrow> MigrationConfig_obj res" where
  "MigrationConfig_from_yaml load path =
     rbind (load path) (\<lambda>data.
       case data of
         PS SNone \<Rightarrow> MigrationConfig_from_dict data
       | PDict d \<Rightarrow> MigrationConfig_from_dict data
       | PKeyOrdered d \<Rightarrow> MigrationConfig_from_dict data
       | _ \<Rightarrow> Inl ValueError)"

section \<open>From the environment\<close>

type_synonym env = "(pystr, pystr) dict"

text \<open>\<^verbatim>\<open>lookup.get(name)\<close>, \<^verbatim>\<open>lookup.get(name) or None\<close>, and \<^verbatim>\<open>lookup.get(name, default)\<close> as it is, as an integer and as a float\<close>

definition env_get :: "env \<Rightarrow> string \<Rightarrow> pyval" where
  "env_get env name = (case dict_get env (L name) of Some v \<Rightarrow> PS (SStr v) | None \<Rightarrow> PS SNone)"

definition env_opt :: "env \<Rightarrow> string \<Rightarrow> cfg_attr" where
  "env_opt env name = AOptStr (opt_text (dict_get env (L name)))"

definition env_str :: "env \<Rightarrow> string \<Rightarrow> pystr \<Rightarrow> pystr" where
  "env_str env name dflt = (case dict_get env (L name) of Some v \<Rightarrow> v | None \<Rightarrow> dflt)"

definition env_int :: "env \<Rightarrow> string \<Rightarrow> int \<Rightarrow> int res" where
  "env_int env name dflt = (case dict_get env (L name) of Some v \<Rightarrow> py_int v | None \<Rightarrow> Inr dflt)"

definition env_float :: "env \<Rightarrow> string \<Rightarrow> pyfloat \<Rightarrow> pyfloat res" where
  "env_float env name dflt = (case dict_get env (L name) of Some v \<Rightarrow> py_float v | None \<Rightarrow> Inr dflt)"

text \<open>The local function \<^verbatim>\<open>as_float\<close> of \<^verbatim>\<open>RedisConfig.from_env\<close>\<close>

definition env_opt_float :: "env \<Rightarrow> string \<Rightarrow> cfg_attr res" where
  "env_opt_float env name =
     (case opt_text (dict_get env (L name)) of Some v \<Rightarrow> rmap AFloat (py_float v) | None \<Rightarrow> Inr ANone)"

definition RedisConfig_from_env :: "env \<Rightarrow> cfg_obj res" where
  "RedisConfig_from_env env =
     (let cls = RedisConfig_default
      in
      rbind (env_int env ''REDIS_PORT'' (rc_port cls)) (\<lambda>port.
      rbind (env_int env ''REDIS_DB'' (rc_db cls)) (\<lambda>db.
      rbind (env_opt_float env ''REDIS_SOCKET_TIMEOUT'') (\<lambda>socket_timeout.
      rbind (env_opt_float env ''REDIS_SOCKET_CONNECT_TIMEOUT'') (\<lambda>socket_connect_timeout.
      Inr
        [(L ''host'', AStr (env_str env ''REDIS_HOST'' (rc_host cls))),
         (L ''port'', AInt port),
         (L ''db'', AInt db),
         (L ''url'', env_opt env ''REDIS_URL''),
         (L ''cluster'', ABool (as_bool (env_get env ''REDIS_CLUSTER'') (rc_cluster cls))),
         (L ''username'', env_opt env ''REDIS_USERNAME''),
         (L ''password'', env_opt env ''REDIS_PASSWORD''),
         (L ''ssl'', ABool (as_bool (env_get env ''REDIS_SSL'') (rc_ssl cls))),
         (L ''ssl_ca_certs'', env_opt env ''REDIS_SSL_CA_CERTS''),
         (L ''ssl_certfile'', env_opt env ''REDIS_SSL_CERTFILE''),
         (L ''ssl_keyfile'', env_opt env ''REDIS_SSL_KEYFILE''),
         (L ''ssl_cert_reqs'', env_opt env ''REDIS_SSL_CERT_REQS''),
         (L ''socket_timeout'', socket_timeout),
         (L ''socket_connect_timeout'', socket_connect_timeout),
         (L ''scan_match'', AStr (env_str env ''REDIS_SCAN_MATCH'' (rc_scan_match cls)))])))))"

definition AerospikeConfig_from_env :: "env \<Rightarrow> cfg_obj res" where
  "AerospikeConfig_from_env env =
     (let cls = AerospikeConfig_default; host = env_str env ''AEROSPIKE_HOST'' (L ''localhost'')
      in
      rbind (env_int env ''AEROSPIKE_PORT'' 3000) (\<lambda>port.
      rbind (env_int env ''AEROSPIKE_SOCKET_TIMEOUT_MS'' (ac_socket_timeout_ms cls)) (\<lambda>socket_timeout_ms.
      rbind (env_int env ''AEROSPIKE_TOTAL_TIMEOUT_MS'' (ac_total_timeout_ms cls)) (\<lambda>total_timeout_ms.
      rbind (env_int env ''AEROSPIKE_CONNECT_TIMEOUT_MS'' (ac_connect_timeout_ms cls)) (\<lambda>connect_timeout_ms.
      rbind (env_int env ''AEROSPIKE_LOGIN_TIMEOUT_MS'' (ac_login_timeout_ms cls)) (\<lambda>login_timeout_ms.
      rbind (RecordExistsPolicy_of (PS (SStr (env_str env ''AEROSPIKE_RECORD_EXISTS_POLICY''
               (RecordExistsPolicy_value (ac_record_exists_policy cls)))))) (\<lambda>record_exists_policy.
      rbind (env_int env ''AEROSPIKE_MAX_RECORD_SIZE'' (ac_max_record_size cls)) (\<lambda>max_record_size.
      rbind (env_int env ''AEROSPIKE_MAX_TTL'' (ac_max_ttl cls)) (\<lambda>max_ttl.
      Inr
        [(L ''hosts'', AVal (PList [PTuple [PS (SStr host), PS (SInt port)]])),
         (L ''use_services_alternate'',
            ABool (as_bool (env_get env ''AEROSPIKE_USE_SERVICES_ALTERNATE'') (ac_use_services_alternate cls))),
         (L ''username'', env_opt env ''AEROSPIKE_USERNAME''),
         (L ''password'', env_opt env ''AEROSPIKE_PASSWORD''),
         (L ''auth_mode'', env_opt env ''AEROSPIKE_AUTH_MODE''),
         (L ''tls_enable'', ABool (as_bool (env_get env ''AEROSPIKE_TLS_ENABLE'') (ac_tls_enable cls))),
         (L ''tls_name'', env_opt env ''AEROSPIKE_TLS_NAME''),
         (L ''tls_cafile'', env_opt env ''AEROSPIKE_TLS_CAFILE''),
         (L ''tls_certfile'', env_opt env ''AEROSPIKE_TLS_CERTFILE''),
         (L ''tls_keyfile'', env_opt env ''AEROSPIKE_TLS_KEYFILE''),
         (L ''tls_keyfile_pw'', env_opt env ''AEROSPIKE_TLS_KEYFILE_PW''),
         (L ''socket_timeout_ms'', AInt socket_timeout_ms),
         (L ''total_timeout_ms'', AInt total_timeout_ms),
         (L ''connect_timeout_ms'', AInt connect_timeout_ms),
         (L ''login_timeout_ms'', AInt login_timeout_ms),
         (L ''namespace'', AStr (env_str env ''AEROSPIKE_NAMESPACE'' (ac_namespace cls))),
         (L ''set_name'', AStr (env_str env ''AEROSPIKE_SET'' (ac_set_name cls))),
         (L ''set_routes'', ARoutes []),
         (L ''value_bin'', AStr (env_str env ''AEROSPIKE_VALUE_BIN'' (ac_value_bin cls))),
         (L ''send_key'', ABool (as_bool (env_get env ''AEROSPIKE_SEND_KEY'') (ac_send_key cls))),
         (L ''record_exists_policy'', AExists record_exists_policy),
         (L ''max_record_size'', AInt max_record_size),
         (L ''max_ttl'', AInt max_ttl)])))))))))"

definition MigrationConfig_from_env :: "env \<Rightarrow> MigrationConfig_obj res" where
  "MigrationConfig_from_env env =
     (let cls = MigrationConfig_default
      in
      rbind (RedisConfig_from_env env) (\<lambda>redis.
      rbind (AerospikeConfig_from_env env) (\<lambda>aerospike.
      rbind (env_int env ''MIGRATION_WORKERS'' (mc_workers cls)) (\<lambda>workers.
      rbind (env_int env ''MIGRATION_SCAN_BATCH'' (mc_scan_batch cls)) (\<lambda>scan_batch.
      rbind (env_int env ''MIGRATION_QUEUE_SIZE'' (mc_queue_size cls)) (\<lambda>queue_size.
      rbind (env_float env ''MIGRATION_SCAN_RATE_LIMIT'' zero_float) (\<lambda>scan_rate_limit.
      rbind (env_float env ''MIGRATION_WRITE_RATE_LIMIT'' zero_float) (\<lambda>write_rate_limit.
      rbind (env_int env ''MIGRATION_WRITE_BATCH_SIZE'' (mc_write_batch_size cls)) (\<lambda>write_batch_size.
      rbind (HashStrategy_of (PS (SStr (env_str env ''MIGRATION_HASH_STRATEGY''
               (HashStrategy_value (mc_hash_strategy cls)))))) (\<lambda>hash_strategy.
      rbind (TtlOverflowPolicy_of (PS (SStr (env_str env ''MIGRATION_TTL_OVERFLOW_POLICY''
               (TtlOverflowPolicy_value (mc_ttl_overflow_policy cls)))))) (\<lambda>ttl_overflow_policy.
      rbind (env_float env ''MIGRATION_PROGRESS_INTERVAL'' ten_float) (\<lambda>progress_interval.
      Inr
        \<lparr>mo_redis = redis, mo_aerospike = aerospike,
         mo_top =
           [(L ''workers'', AInt workers), (L ''scan_batch'', AInt scan_batch), (L ''queue_size'', AInt queue_size),
            (L ''scan_rate_limit'', AFloat scan_rate_limit), (L ''write_rate_limit'', AFloat write_rate_limit),
            (L ''write_batch_size'', AInt write_batch_size), (L ''hash_strategy'', AHash hash_strategy),
            (L ''ttl_overflow_policy'', ATtl ttl_overflow_policy),
            (L ''progress_interval'', AFloat progress_interval)]\<rparr>))))))))))))"

section \<open>The typed view\<close>

text \<open>An attribute at the type its dataclass declares; a float is a rational.\<close>

fun as_text :: "cfg_attr \<Rightarrow> pystr option" where
  "as_text (AVal (PS (SStr s))) = Some s"
| "as_text a = None"

fun as_opt_text :: "cfg_attr \<Rightarrow> pystr option option" where
  "as_opt_text (AVal (PS SNone)) = Some None"
| "as_opt_text a = map_option Some (as_text a)"

fun as_integer :: "cfg_attr \<Rightarrow> int option" where
  "as_integer (AVal (PS (SInt i))) = Some i"
| "as_integer a = None"

fun as_flag :: "cfg_attr \<Rightarrow> bool option" where
  "as_flag (AVal (PS (SBool b))) = Some b"
| "as_flag a = None"

definition float_rat :: "bool \<Rightarrow> nat \<Rightarrow> int \<Rightarrow> rat" where
  "float_rat neg m e =
     (let v = (if 0 \<le> e then of_nat m * 2 ^ nat e else of_nat m / 2 ^ nat (- e)) in if neg then - v else v)"

fun as_number :: "cfg_attr \<Rightarrow> rat option" where
  "as_number (AVal (PS (SInt i))) = Some (of_int i)"
| "as_number (AVal (PS (SFloat (FFin neg m e)))) = Some (float_rat neg m e)"
| "as_number a = None"

fun as_opt_number :: "cfg_attr \<Rightarrow> rat option option" where
  "as_opt_number (AVal (PS SNone)) = Some None"
| "as_opt_number a = map_option Some (as_number a)"

fun as_host :: "pyval \<Rightarrow> (pystr \<times> int) option" where
  "as_host (PTuple [PS (SStr h), PS (SInt p)]) = Some (h, p)"
| "as_host v = None"

fun as_hosts :: "cfg_attr \<Rightarrow> (pystr \<times> int) list option" where
  "as_hosts (AVal (PList hs)) = those (map as_host hs)"
| "as_hosts a = None"

fun as_routes :: "cfg_attr \<Rightarrow> AerospikeSetRoute list option" where
  "as_routes (ARoutes rs) = Some rs"
| "as_routes a = None"

fun as_exists :: "cfg_attr \<Rightarrow> RecordExistsPolicy option" where
  "as_exists (AExists p) = Some p"
| "as_exists a = None"

fun as_hash :: "cfg_attr \<Rightarrow> HashStrategy option" where
  "as_hash (AHash h) = Some h"
| "as_hash a = None"

fun as_ttl :: "cfg_attr \<Rightarrow> TtlOverflowPolicy option" where
  "as_ttl (ATtl p) = Some p"
| "as_ttl a = None"

definition view :: "(cfg_attr \<Rightarrow> 'a option) \<Rightarrow> cfg_obj \<Rightarrow> string \<Rightarrow> 'a option" where
  "view as obj name = Option.bind (attr_get obj name) as"

definition RedisConfig_view :: "cfg_obj \<Rightarrow> RedisConfig option" where
  "RedisConfig_view o1 = do {
     host \<leftarrow> view as_text o1 ''host'';
     port \<leftarrow> view as_integer o1 ''port'';
     db \<leftarrow> view as_integer o1 ''db'';
     url \<leftarrow> view as_opt_text o1 ''url'';
     cluster \<leftarrow> view as_flag o1 ''cluster'';
     username \<leftarrow> view as_opt_text o1 ''username'';
     password \<leftarrow> view as_opt_text o1 ''password'';
     ssl \<leftarrow> view as_flag o1 ''ssl'';
     ssl_ca_certs \<leftarrow> view as_opt_text o1 ''ssl_ca_certs'';
     ssl_certfile \<leftarrow> view as_opt_text o1 ''ssl_certfile'';
     ssl_keyfile \<leftarrow> view as_opt_text o1 ''ssl_keyfile'';
     ssl_cert_reqs \<leftarrow> view as_opt_text o1 ''ssl_cert_reqs'';
     socket_timeout \<leftarrow> view as_opt_number o1 ''socket_timeout'';
     socket_connect_timeout \<leftarrow> view as_opt_number o1 ''socket_connect_timeout'';
     scan_match \<leftarrow> view as_text o1 ''scan_match'';
     Some \<lparr>rc_host = host, rc_port = port, rc_db = db, rc_url = url, rc_cluster = cluster,
       rc_username = username, rc_password = password, rc_ssl = ssl, rc_ssl_ca_certs = ssl_ca_certs,
       rc_ssl_certfile = ssl_certfile, rc_ssl_keyfile = ssl_keyfile, rc_ssl_cert_reqs = ssl_cert_reqs,
       rc_socket_timeout = socket_timeout, rc_socket_connect_timeout = socket_connect_timeout,
       rc_scan_match = scan_match\<rparr> }"

definition AerospikeConfig_view :: "cfg_obj \<Rightarrow> AerospikeConfig option" where
  "AerospikeConfig_view o1 = do {
     hosts \<leftarrow> view as_hosts o1 ''hosts'';
     use_services_alternate \<leftarrow> view as_flag o1 ''use_services_alternate'';
     username \<leftarrow> view as_opt_text o1 ''username'';
     password \<leftarrow> view as_opt_text o1 ''password'';
     auth_mode \<leftarrow> view as_opt_text o1 ''auth_mode'';
     tls_enable \<leftarrow> view as_flag o1 ''tls_enable'';
     tls_name \<leftarrow> view as_opt_text o1 ''tls_name'';
     tls_cafile \<leftarrow> view as_opt_text o1 ''tls_cafile'';
     tls_certfile \<leftarrow> view as_opt_text o1 ''tls_certfile'';
     tls_keyfile \<leftarrow> view as_opt_text o1 ''tls_keyfile'';
     tls_keyfile_pw \<leftarrow> view as_opt_text o1 ''tls_keyfile_pw'';
     socket_timeout_ms \<leftarrow> view as_integer o1 ''socket_timeout_ms'';
     total_timeout_ms \<leftarrow> view as_integer o1 ''total_timeout_ms'';
     connect_timeout_ms \<leftarrow> view as_integer o1 ''connect_timeout_ms'';
     login_timeout_ms \<leftarrow> view as_integer o1 ''login_timeout_ms'';
     namespace \<leftarrow> view as_text o1 ''namespace'';
     set_name \<leftarrow> view as_text o1 ''set_name'';
     set_routes \<leftarrow> view as_routes o1 ''set_routes'';
     value_bin \<leftarrow> view as_text o1 ''value_bin'';
     send_key \<leftarrow> view as_flag o1 ''send_key'';
     record_exists_policy \<leftarrow> view as_exists o1 ''record_exists_policy'';
     max_record_size \<leftarrow> view as_integer o1 ''max_record_size'';
     max_ttl \<leftarrow> view as_integer o1 ''max_ttl'';
     Some \<lparr>ac_hosts = hosts, ac_use_services_alternate = use_services_alternate, ac_username = username,
       ac_password = password, ac_auth_mode = auth_mode, ac_tls_enable = tls_enable, ac_tls_name = tls_name,
       ac_tls_cafile = tls_cafile, ac_tls_certfile = tls_certfile, ac_tls_keyfile = tls_keyfile,
       ac_tls_keyfile_pw = tls_keyfile_pw, ac_socket_timeout_ms = socket_timeout_ms,
       ac_total_timeout_ms = total_timeout_ms, ac_connect_timeout_ms = connect_timeout_ms,
       ac_login_timeout_ms = login_timeout_ms, ac_namespace = namespace, ac_set_name = set_name,
       ac_set_routes = set_routes, ac_value_bin = value_bin, ac_send_key = send_key,
       ac_record_exists_policy = record_exists_policy, ac_max_record_size = max_record_size,
       ac_max_ttl = max_ttl\<rparr> }"

definition MigrationConfig_view :: "MigrationConfig_obj \<Rightarrow> MigrationConfig option" where
  "MigrationConfig_view c = do {
     redis \<leftarrow> RedisConfig_view (mo_redis c);
     aerospike \<leftarrow> AerospikeConfig_view (mo_aerospike c);
     workers \<leftarrow> view as_integer (mo_top c) ''workers'';
     scan_batch \<leftarrow> view as_integer (mo_top c) ''scan_batch'';
     queue_size \<leftarrow> view as_integer (mo_top c) ''queue_size'';
     scan_rate_limit \<leftarrow> view as_number (mo_top c) ''scan_rate_limit'';
     write_rate_limit \<leftarrow> view as_number (mo_top c) ''write_rate_limit'';
     write_batch_size \<leftarrow> view as_integer (mo_top c) ''write_batch_size'';
     hash_strategy \<leftarrow> view as_hash (mo_top c) ''hash_strategy'';
     ttl_overflow_policy \<leftarrow> view as_ttl (mo_top c) ''ttl_overflow_policy'';
     progress_interval \<leftarrow> view as_number (mo_top c) ''progress_interval'';
     Some \<lparr>mc_redis = redis, mc_aerospike = aerospike, mc_workers = workers, mc_scan_batch = scan_batch,
       mc_queue_size = queue_size, mc_scan_rate_limit = scan_rate_limit,
       mc_write_rate_limit = write_rate_limit, mc_write_batch_size = write_batch_size,
       mc_hash_strategy = hash_strategy, mc_ttl_overflow_policy = ttl_overflow_policy,
       mc_progress_interval = progress_interval\<rparr> }"

end
