(* ===== verification/Models.thy ===== *)
theory Models
  imports Py_Value
begin

text \<open>
  The data carried through the pipeline (\<^verbatim>\<open>models.py\<close>): the record read from Redis, the record to be
  written to Aerospike and the write policy of its bins.
\<close>

definition TTL_NEVER_EXPIRE :: int where
  "TTL_NEVER_EXPIRE = 0xFFFFFFFF"

datatype BinWritePolicy = PUT | UNIQUE_LIST

text \<open>A key is text when it is valid UTF-8 and a byte string otherwise.\<close>

datatype pykey = KStr pystr | KBytes bytes

text \<open>
  The value of a Redis record, shaped by its type: a scalar for strings (and for the reply to the
  placeholder command of unsupported types), the fields of a hash, the items of a list, the
  members of a set in the order of an iteration, the pairs of member and score of a sorted set.
\<close>

datatype redis_value =
    RScalar pyscalar
  | RHash "(pyscalar \<times> pyscalar) list"
  | RList "pyscalar list"
  | RSet "pyscalar list"
  | RZset "(pyscalar \<times> pyscalar) list"

record RedisRecord =
  rr_key :: pykey
  rr_type :: pystr
  rr_value :: redis_value
  rr_ttl_ms :: "int option"

record AerospikeRecord =
  ar_key :: pykey
  ar_bins :: "(pystr, pyval) dict"
  ar_ttl_s :: "int option"
  ar_bin_policies :: "(pystr, BinWritePolicy) dict"
  ar_set_name :: "pystr option"

definition policy_for :: "AerospikeRecord \<Rightarrow> pystr \<Rightarrow> BinWritePolicy" where
  "policy_for r bin_name = (case dict_get (ar_bin_policies r) bin_name of Some p \<Rightarrow> p | None \<Rightarrow> PUT)"

text \<open>\<^verbatim>\<open>bool(record.value)\<close>\<close>

fun redis_value_true :: "redis_value \<Rightarrow> bool" where
  "redis_value_true (RScalar v) = scalar_true v"
| "redis_value_true (RHash d) = (d \<noteq> [])"
| "redis_value_true (RList xs) = (xs \<noteq> [])"
| "redis_value_true (RSet xs) = (xs \<noteq> [])"
| "redis_value_true (RZset ps) = (ps \<noteq> [])"

text \<open>The shape that belongs to each of the five supported types.\<close>

definition well_shaped :: "RedisRecord \<Rightarrow> bool" where
  "well_shaped r \<longleftrightarrow>
     (rr_type r = L ''string'' \<longrightarrow> (\<exists>b. rr_value r = RScalar (SBytes b))) \<and>
     (rr_type r = L ''hash'' \<longrightarrow>
        (\<exists>d. rr_value r = RHash (map (\<lambda>(f, v). (SBytes f, SBytes v)) d) \<and> distinct (map fst d))) \<and>
     (rr_type r = L ''list'' \<longrightarrow> (\<exists>xs. rr_value r = RList (map SBytes xs))) \<and>
     (rr_type r = L ''set'' \<longrightarrow> (\<exists>xs. rr_value r = RSet (map SBytes xs) \<and> distinct xs)) \<and>
     (rr_type r = L ''zset'' \<longrightarrow>
        (\<exists>ps. rr_value r = RZset (map (\<lambda>(m, s). (SBytes m, SFloat s)) ps) \<and> distinct (map fst ps)))"

end
