(* ===== verification/Sink.thy ===== *)
theory Sink
  imports Models Config
begin

text \<open>
  The write side (\<^verbatim>\<open>aerospike_sink.py\<close>): the server information, the client configuration, the
  policies and operations built for a record, and the single and batched writes.

  The \<^verbatim>\<open>aerospike\<close> module and its client are not part of the program. The module is a parameter that
  says which constants it defines; the client is a record of its methods over the state of the
  server behind it, each of which may raise.
\<close>

section \<open>The client library\<close>

record aerospike_module =
  am_const :: "pystr \<Rightarrow> int option"
  am_has_kod :: bool
  am_exists_exn_code :: "int option"

text \<open>\<^verbatim>\<open>aerospike.NAME\<close>\<close>

definition am_attr :: "aerospike_module \<Rightarrow> string \<Rightarrow> int res" where
  "am_attr m name = (case am_const m (L name) of Some v \<Rightarrow> Inr v | None \<Rightarrow> Inl AttributeError)"

type_synonym AerospikeKeyTuple = "pystr \<times> pystr \<times> pykey"

type_synonym policy = "(pystr, int) dict"

datatype operation =
    OpWrite pystr pyval
  | OpListAppendItems pystr "pyval list" policy

record batch_item =
  bw_key :: AerospikeKeyTuple
  bw_ops :: "operation list"
  bw_policy :: policy

text \<open>A reply of a batch; an attribute may be missing.\<close>

record batch_reply =
  rp_result :: "int option"
  rp_in_doubt :: "bool option"

record 'c aclient =
  cl_put :: "'c \<Rightarrow> AerospikeKeyTuple \<Rightarrow> (pystr, pyval) dict \<Rightarrow> policy \<Rightarrow> unit res \<times> 'c"
  cl_operate :: "'c \<Rightarrow> AerospikeKeyTuple \<Rightarrow> operation list \<Rightarrow> policy \<Rightarrow> unit res \<times> 'c"
  cl_batch_write :: "'c \<Rightarrow> batch_item list \<Rightarrow> batch_reply list res \<times> 'c"
  cl_info_all :: "'c \<Rightarrow> pystr \<Rightarrow> pyval res \<times> 'c"
  cl_close :: "'c \<Rightarrow> unit res \<times> 'c"

section \<open>Server information\<close>

record AerospikeServerInfo =
  si_namespace :: pystr
  si_nsup_period :: "int option"
  si_max_record_size :: "int option"
  si_stop_writes_pct :: "int option"
  si_memory_size :: "int option"
  si_device_total_bytes :: "int option"
  si_raw :: "(pystr, pystr) dict"

fun str_of :: "pyval \<Rightarrow> pystr option" where
  "str_of (PS (SStr s)) = Some s"
| "str_of v = None"

definition response_of :: "pyval \<Rightarrow> pystr option" where
  "response_of value =
     (case value of
        PTuple items \<Rightarrow> Option.bind (find (\<lambda>i. str_of i \<noteq> None) items) str_of
      | PList items \<Rightarrow> Option.bind (find (\<lambda>i. str_of i \<noteq> None) items) str_of
      | v \<Rightarrow> str_of v)"

fun first_response :: "pyval list \<Rightarrow> pystr option" where
  "first_response [] = None"
| "first_response (value # vs) =
     (case response_of value of
        Some response \<Rightarrow> if response \<noteq> [] then Some response else first_response vs
      | None \<Rightarrow> first_response vs)"

definition extract_response :: "pyval \<Rightarrow> pystr option" where
  "extract_response info_result =
     (case info_result of
        PS SNone \<Rightarrow> None
      | PS (SStr s) \<Rightarrow> Some s
      | PDict d \<Rightarrow> first_response (map snd d)
      | PKeyOrdered d \<Rightarrow> first_response (map snd d)
      | v \<Rightarrow> first_response [v])"

definition parse_pairs :: "pystr \<Rightarrow> (pystr, pystr) dict" where
  "parse_pairs text =
     fold (\<lambda>pair raw.
         case py_partition [61] pair of
           Some (name, value) \<Rightarrow> dict_set (py_strip name) (py_strip value) raw
         | None \<Rightarrow> raw)
       (py_split 59 text) []"

fun as_int :: "(pystr, pystr) dict \<Rightarrow> pystr list \<Rightarrow> int option" where
  "as_int raw [] = None"
| "as_int raw (name # names) =
     (case dict_get raw name of
        Some text \<Rightarrow> (case py_int text of Inr i \<Rightarrow> Some i | Inl e \<Rightarrow> None)
      | None \<Rightarrow> as_int raw names)"

definition ServerInfo_parse :: "pyval \<Rightarrow> pystr \<Rightarrow> AerospikeServerInfo" where
  "ServerInfo_parse info_result namespace =
     (let text = (case extract_response info_result of Some t \<Rightarrow> t | None \<Rightarrow> []);
          raw = parse_pairs text
      in \<lparr>si_namespace = namespace,
          si_nsup_period = as_int raw [L ''nsup-period''],
          si_max_record_size = as_int raw [L ''max-record-size'', L ''write-block-size''],
          si_stop_writes_pct = as_int raw [L ''stop-writes-pct''],
          si_memory_size = as_int raw [L ''memory-size''],
          si_device_total_bytes = as_int raw [L ''device_total_bytes''],
          si_raw = raw\<rparr>)"

section \<open>Client configuration\<close>

definition AUTH_MODE_ATTRS :: "(pystr, pystr) dict" where
  "AUTH_MODE_ATTRS =
     [(L ''internal'', L ''AUTH_INTERNAL''), (L ''external'', L ''AUTH_EXTERNAL''),
      (L ''external_insecure'', L ''AUTH_EXTERNAL_INSECURE''), (L ''pki'', L ''AUTH_PKI'')]"

type_synonym settings = "(pystr, pyval) dict"

definition as_pdict :: "settings \<Rightarrow> pyval" where
  "as_pdict d = PDict (map (\<lambda>(k, v). (SStr k, v)) d)"

definition build_client_config :: "AerospikeConfig \<Rightarrow> aerospike_module \<Rightarrow> settings" where
  "build_client_config cfg aerospike =
     (let put_int = (\<lambda>name (v :: int) d. if v \<noteq> 0 then dict_set (L name) (PS (SInt v)) d else d);
          hosts = (case opt_text (ac_tls_name cfg) of
                     Some n \<Rightarrow> map (\<lambda>(h, p). PTuple [PS (SStr h), PS (SInt p), PS (SStr n)]) (ac_hosts cfg)
                   | None \<Rightarrow> map (\<lambda>(h, p). PTuple [PS (SStr h), PS (SInt p)]) (ac_hosts cfg));
          c0 = [(L ''hosts'', PList hosts)];
          c1 = (case opt_text (ac_username cfg) of
                  Some u \<Rightarrow>
                    dict_set (L ''password'') (PS (SStr (case ac_password cfg of Some p \<Rightarrow> p | None \<Rightarrow> [])))
                      (dict_set (L ''user'') (PS (SStr u)) c0)
                | None \<Rightarrow> c0);
          p0 = (case opt_text (ac_auth_mode cfg) of
                  Some mode \<Rightarrow>
                    (case dict_get AUTH_MODE_ATTRS (py_lower mode) of
                       Some attr \<Rightarrow>
                         (case am_const aerospike attr of
                            Some v \<Rightarrow> [(L ''auth_mode'', PS (SInt v))]
                          | None \<Rightarrow> [])
                     | None \<Rightarrow> [])
                | None \<Rightarrow> []);
          p1 = put_int ''login_timeout'' (ac_login_timeout_ms cfg) p0;
          o1 = put_int ''socket_timeout'' (ac_socket_timeout_ms cfg) [];
          o2 = put_int ''total_timeout'' (ac_total_timeout_ms cfg) o1;
          o3 = (if ac_send_key cfg then
                  (case am_const aerospike (L ''POLICY_KEY_SEND'') of
                     Some v \<Rightarrow> dict_set (L ''key'') (PS (SInt v)) o2
                   | None \<Rightarrow> o2)
                else o2);
          p2 = (if o3 \<noteq> [] then
                  fold (\<lambda>op. dict_set (L op) (as_pdict o3)) [''read'', ''write'', ''operate''] p1
                else p1);
          c2 = (if p2 \<noteq> [] then dict_set (L ''policies'') (as_pdict p2) c1 else c1);
          c3 = put_int ''connect_timeout'' (ac_connect_timeout_ms cfg) c2;
          c4 = (if ac_use_services_alternate cfg
                then dict_set (L ''use_services_alternate'') (PS (SBool True)) c3 else c3)
      in if ac_tls_enable cfg then
           (let tls = fold (\<lambda>(k, v) d. case v of Some t \<Rightarrow> dict_set (L k) (PS (SStr t)) d | None \<Rightarrow> d)
                        [(''cafile'', ac_tls_cafile cfg), (''certfile'', ac_tls_certfile cfg),
                         (''keyfile'', ac_tls_keyfile cfg), (''keyfile_pw'', ac_tls_keyfile_pw cfg)]
                        [(L ''enable'', PS (SBool True))]
            in dict_set (L ''tls'') (as_pdict tls) c4)
         else c4)"

section \<open>The sink\<close>

record 'c AerospikeSink =
  sk_config :: AerospikeConfig
  sk_client :: "'c aclient option"
  sk_module :: aerospike_module

text \<open>
  \<^verbatim>\<open>connect\<close>: an existing client is kept; otherwise the library's factory makes one from the
  configuration, or raises.
\<close>

definition sink_connect :: "(settings \<Rightarrow> 'c aclient res) \<Rightarrow> 'c AerospikeSink \<Rightarrow> 'c AerospikeSink res" where
  "sink_connect aerospike_client self =
     (case sk_client self of
        Some c \<Rightarrow> Inr self
      | None \<Rightarrow>
          rmap (\<lambda>c. self\<lparr>sk_client := Some c\<rparr>)
            (aerospike_client (build_client_config (sk_config self) (sk_module self))))"

definition sink_server_info :: "'c AerospikeSink \<Rightarrow> 'c \<Rightarrow> AerospikeServerInfo option res \<times> 'c" where
  "sink_server_info self w =
     (case sk_client self of
        None \<Rightarrow> (Inl RuntimeError, w)
      | Some c \<Rightarrow>
          (let namespace = ac_namespace (sk_config self)
           in case cl_info_all c w (L ''namespace/'' @ namespace) of
                (Inl e, w') \<Rightarrow> (Inr None, w')
              | (Inr result, w') \<Rightarrow> (Inr (Some (ServerInfo_parse result namespace)), w')))"

definition sink_close :: "'c AerospikeSink \<Rightarrow> 'c \<Rightarrow> 'c" where
  "sink_close self w = (case sk_client self of None \<Rightarrow> w | Some c \<Rightarrow> snd (cl_close c w))"

definition sink_key :: "'c AerospikeSink \<Rightarrow> AerospikeRecord \<Rightarrow> AerospikeKeyTuple" where
  "sink_key self record =
     (let set_name = (case opt_text (ar_set_name record) of Some s \<Rightarrow> s | None \<Rightarrow> ac_set_name (sk_config self))
      in (ac_namespace (sk_config self), set_name, ar_key record))"

fun encode_bin_value_for_write :: "aerospike_module \<Rightarrow> pyval \<Rightarrow> pyval" where
  "encode_bin_value_for_write m (PDict d) = (if am_has_kod m then PKeyOrdered d else PDict d)"
| "encode_bin_value_for_write m v = v"

definition encode_bins_for_write :: "aerospike_module \<Rightarrow> settings \<Rightarrow> settings" where
  "encode_bins_for_write m bins = map (\<lambda>(name, v). (name, encode_bin_value_for_write m v)) bins"

definition write_policy :: "'c AerospikeSink \<Rightarrow> AerospikeRecord \<Rightarrow> policy res" where
  "write_policy self record =
     rmap (\<lambda>v. [(L ''ttl'', case ar_ttl_s record of Some t \<Rightarrow> t | None \<Rightarrow> 0), (L ''exists'', v)])
       (am_attr (sk_module self)
          (case ac_record_exists_policy (sk_config self) of
             UPDATE \<Rightarrow> ''POLICY_EXISTS_IGNORE''
           | REPLACE \<Rightarrow> ''POLICY_EXISTS_CREATE_OR_REPLACE''
           | CREATE_ONLY \<Rightarrow> ''POLICY_EXISTS_CREATE''))"

definition record_exists_error_codes :: "aerospike_module \<Rightarrow> int list" where
  "record_exists_error_codes m =
     List.map_filter (\<lambda>c. c)
       [am_const m (L ''AEROSPIKE_ERR_RECORD_EXISTS''),
        am_const m (L ''AS_PROTO_RESULT_FAIL_RECORD_EXISTS''), am_exists_exn_code m]"

definition is_record_exists_error :: "aerospike_module \<Rightarrow> py_exn \<Rightarrow> bool" where
  "is_record_exists_error m exc =
     (case exc of
        ClientError x \<Rightarrow>
          (cx_name x = L ''RecordExistsError'' \<and> cx_module x = L ''aerospike.exception'') \<or>
          (case cx_code x of Some ec \<Rightarrow> ec \<in> set (record_exists_error_codes m) | None \<Rightarrow> False)
      | _ \<Rightarrow> False)"

fun estimate_scalar :: "pyscalar \<Rightarrow> nat" where
  "estimate_scalar SNone = 1"
| "estimate_scalar (SBool b) = 1"
| "estimate_scalar (SInt i) = 8"
| "estimate_scalar (SFloat x) = 8"
| "estimate_scalar (SBytes b) = length b"
| "estimate_scalar (SStr s) = length (utf8_encode s)"

fun estimate_size :: "pyval \<Rightarrow> nat" where
  "estimate_size (PS v) = estimate_scalar v"
| "estimate_size (PList xs) = sum_list (map estimate_size xs)"
| "estimate_size (PTuple xs) = sum_list (map estimate_size xs)"
| "estimate_size (PDict d) = sum_list (map (\<lambda>p. estimate_scalar (fst p) + estimate_size (snd p)) d)"
| "estimate_size (PKeyOrdered d) = sum_list (map (\<lambda>p. estimate_scalar (fst p) + estimate_size (snd p)) d)"
| "estimate_size (PSet xs) = 0"

definition record_size :: "AerospikeRecord \<Rightarrow> nat" where
  "record_size record =
     sum_list (map (\<lambda>(name, value). estimate_scalar (SStr name) + estimate_size value) (ar_bins record))"

definition pykey_str :: "pykey \<Rightarrow> pystr" where
  "pykey_str k = (case k of KStr s \<Rightarrow> s | KBytes b \<Rightarrow> bytes_repr b)"

definition too_large_reason :: "'c AerospikeSink \<Rightarrow> AerospikeRecord \<Rightarrow> pystr option" where
  "too_large_reason self record =
     (let limit = ac_max_record_size (sk_config self); size = record_size record
      in if limit < int size then
           Some (L ''record '' @ [39] @ pykey_str (ar_key record) @ [39] @ L '' is ~'' @ str_nat size
             @ L '' bytes, exceeding the '' @ str_int limit @ L '' byte (''
             @ str_int (limit div (1024 * 1024)) @ L '' MiB) Aerospike limit; skipping'')
         else None)"

definition unique_bins :: "AerospikeRecord \<Rightarrow> settings" where
  "unique_bins record = filter (\<lambda>(name, value). policy_for record name = UNIQUE_LIST) (ar_bins record)"

text \<open>\<^verbatim>\<open>list(value)\<close>\<close>

fun py_list :: "pyval \<Rightarrow> pyval list res" where
  "py_list (PList xs) = Inr xs"
| "py_list (PTuple xs) = Inr xs"
| "py_list (PSet xs) = Inr (map PS xs)"
| "py_list (PDict d) = Inr (map (\<lambda>p. PS (fst p)) d)"
| "py_list (PKeyOrdered d) = Inr (map (\<lambda>p. PS (fst p)) d)"
| "py_list (PS (SStr s)) = Inr (map (\<lambda>c. PS (SStr [c])) s)"
| "py_list (PS (SBytes b)) = Inr (map (\<lambda>w. PS (SInt (uint w))) b)"
| "py_list (PS v) = Inl TypeError"

text \<open>\<^verbatim>\<open>a | b\<close> on the library's flags, which are not negative.\<close>

definition flag_or :: "int \<Rightarrow> int \<Rightarrow> int" where
  "flag_or a b = or a b"

definition build_ops :: "aerospike_module \<Rightarrow> AerospikeRecord \<Rightarrow> settings \<Rightarrow> operation list res" where
  "build_ops m record ubins =
     rbind (am_attr m ''LIST_ORDERED'') (\<lambda>order.
     rbind (am_attr m ''LIST_WRITE_ADD_UNIQUE'') (\<lambda>uniq.
     rbind (am_attr m ''LIST_WRITE_NO_FAIL'') (\<lambda>no_fail.
     rbind (am_attr m ''LIST_WRITE_PARTIAL'') (\<lambda>part.
       let list_policy = [(L ''list_order'', order), (L ''write_flags'', flag_or (flag_or uniq no_fail) part)]
       in rmap concat
            (mapr (\<lambda>(name, value).
                if dict_get ubins name \<noteq> None then
                  rmap (\<lambda>items. [OpWrite name (PList []), OpListAppendItems name items list_policy])
                    (py_list value)
                else Inr [OpWrite name (encode_bin_value_for_write m value)])
              (ar_bins record))))))"

definition ops_for :: "aerospike_module \<Rightarrow> AerospikeRecord \<Rightarrow> operation list res" where
  "ops_for m record =
     (if unique_bins record = []
      then Inr (map (\<lambda>(name, value). OpWrite name (encode_bin_value_for_write m value)) (ar_bins record))
      else build_ops m record (unique_bins record))"

definition sink_write :: "'c AerospikeSink \<Rightarrow> 'c \<Rightarrow> AerospikeRecord \<Rightarrow> unit res \<times> 'c" where
  "sink_write self w record =
     (case sk_client self of
        None \<Rightarrow> (Inl RuntimeError, w)
      | Some c \<Rightarrow>
          if too_large_reason self record \<noteq> None then (Inl RecordTooLargeError, w)
          else
            let attempt =
                  (if unique_bins record = [] then
                     (case write_policy self record of
                        Inl e \<Rightarrow> (Inl e, w)
                      | Inr pol \<Rightarrow>
                          cl_put c w (sink_key self record)
                            (encode_bins_for_write (sk_module self) (ar_bins record)) pol)
                   else
                     (case build_ops (sk_module self) record (unique_bins record) of
                        Inl e \<Rightarrow> (Inl e, w)
                      | Inr ops \<Rightarrow>
                          (case write_policy self record of
                             Inl e \<Rightarrow> (Inl e, w)
                           | Inr pol \<Rightarrow> cl_operate c w (sink_key self record) ops pol)))
            in case attempt of
                 (Inr u, w') \<Rightarrow> (Inr (), w')
               | (Inl exc, w') \<Rightarrow>
                   if ac_record_exists_policy (sk_config self) = CREATE_ONLY \<and>
                      is_record_exists_error (sk_module self) exc
                   then (Inl RecordAlreadyExists, w') else (Inl exc, w'))"

definition batch_policy :: "'c AerospikeSink \<Rightarrow> AerospikeRecord \<Rightarrow> policy res" where
  "batch_policy self record =
     rmap (\<lambda>pol.
         if ac_send_key (sk_config self) then
           (case am_const (sk_module self) (L ''POLICY_KEY_SEND'') of
              Some v \<Rightarrow> dict_set (L ''key'') v pol
            | None \<Rightarrow> pol)
         else pol)
       (write_policy self record)"

definition BATCH_RECORD_EXISTS_OUTCOME :: pystr where
  "BATCH_RECORD_EXISTS_OUTCOME = L ''RecordExists''"

definition batch_reason :: "'c AerospikeSink \<Rightarrow> batch_reply \<Rightarrow> pystr option" where
  "batch_reason self reply =
     (let result = (case rp_result reply of Some r \<Rightarrow> r | None \<Rightarrow> 0)
      in if result = 0 then None
         else if ac_record_exists_policy (sk_config self) = CREATE_ONLY \<and>
                 result \<in> set (record_exists_error_codes (sk_module self))
         then Some BATCH_RECORD_EXISTS_OUTCOME
         else
           (let reason = L ''BatchError:'' @ str_int result
            in Some (if rp_in_doubt reply = Some True then reason @ L '':in_doubt'' else reason)))"

text \<open>
  The first loop of \<^verbatim>\<open>write_many\<close>: the outcome already known of each record, the key of each record
  that is to be sent, and for each key the last position that carries it.
\<close>

fun plan_batch ::
    "'c AerospikeSink \<Rightarrow> nat \<Rightarrow> AerospikeRecord list \<Rightarrow> (AerospikeKeyTuple, nat) dict \<Rightarrow>
     pystr option list \<times> AerospikeKeyTuple option list \<times> (AerospikeKeyTuple, nat) dict"
where
  "plan_batch self i [] last_slot = ([], [], last_slot)"
| "plan_batch self i (record # records) last_slot =
     (if too_large_reason self record \<noteq> None then
        (let (results, key_of, last_slot') = plan_batch self (i + 1) records last_slot
         in (Some (L ''RecordTooLargeError'') # results, None # key_of, last_slot'))
      else
        (let key = sink_key self record;
             (results, key_of, last_slot') = plan_batch self (i + 1) records (dict_set key i last_slot)
         in (None # results, Some key # key_of, last_slot')))"

definition batch_item_for :: "'c AerospikeSink \<Rightarrow> AerospikeRecord \<Rightarrow> AerospikeKeyTuple \<Rightarrow> batch_item res" where
  "batch_item_for self record key =
     rbind (ops_for (sk_module self) record) (\<lambda>ops.
     rmap (\<lambda>pol. \<lparr>bw_key = key, bw_ops = ops, bw_policy = pol\<rparr>) (batch_policy self record))"

text \<open>One write per key, from the last record that carries it, in the order the keys first appear.\<close>

definition batch_writes ::
    "'c AerospikeSink \<Rightarrow> AerospikeRecord list \<Rightarrow> (AerospikeKeyTuple, nat) dict \<Rightarrow> batch_item list res"
where
  "batch_writes self records last_slot =
     mapr (\<lambda>(key, slot). batch_item_for self (records ! slot) key) last_slot"

definition write_many ::
    "'c AerospikeSink \<Rightarrow> 'c \<Rightarrow> AerospikeRecord list \<Rightarrow> pystr option list res \<times> 'c"
where
  "write_many self w records =
     (case sk_client self of
        None \<Rightarrow> (Inl RuntimeError, w)
      | Some c \<Rightarrow>
          let (results, key_of, last_slot) = plan_batch self 0 records []
          in if last_slot = [] then (Inr results, w)
             else
               (case batch_writes self records last_slot of
                  Inl e \<Rightarrow> (Inl e, w)
                | Inr writes \<Rightarrow>
                    (case cl_batch_write c w writes of
                       (Inl e, w') \<Rightarrow> (Inl e, w')
                     | (Inr replies, w') \<Rightarrow>
                         let reason_for_key =
                               kset_all (\<lambda>k. k)
                                 (map (\<lambda>(key, reply). (key, batch_reason self reply))
                                    (zip (map fst last_slot) replies)) []
                         in (Inr (map2 (\<lambda>res key. case key of
                                          None \<Rightarrow> res
                                        | Some k \<Rightarrow> (case dict_get reason_for_key k of Some r \<Rightarrow> r | None \<Rightarrow> None))
                                    results key_of), w'))))"

end
