(* ===== verification/Preview.thy ===== *)
theory Preview
  imports Config Sink
begin

text \<open>
  The preview that the command line logs before a run (\<^verbatim>\<open>cli.py\<close>): the one-line summaries and the
  whole block, and that it does not depend on the passwords.

  The configuration is the typed record, so a number that the dataclass declares as a float is
  printed as a float. \<open>printable\<close> is \<^verbatim>\<open>str.isprintable\<close> on characters outside ASCII, a table of the
  Unicode database.
\<close>

section \<open>Printing\<close>

definition hex_fixed :: "nat \<Rightarrow> nat \<Rightarrow> pystr" where
  "hex_fixed k n = map (\<lambda>i. hex_digit (n div 16 ^ i mod 16)) (rev [0..<k])"

definition str_repr1 :: "(code_point \<Rightarrow> bool) \<Rightarrow> code_point \<Rightarrow> code_point \<Rightarrow> pystr" where
  "str_repr1 printable quote c =
     (if c = quote \<or> c = 92 then [92, c]
      else if c = 9 then [92, 116]
      else if c = 10 then [92, 110]
      else if c = 13 then [92, 114]
      else if 32 \<le> c \<and> c < 127 \<or> 127 < c \<and> printable c then [c]
      else if c < 0x100 then [92, 120] @ hex_fixed 2 c
      else if c < 0x10000 then [92, 117] @ hex_fixed 4 c
      else [92, 85] @ hex_fixed 8 c)"

text \<open>\<^verbatim>\<open>repr(s)\<close> of a text\<close>

definition str_repr :: "(code_point \<Rightarrow> bool) \<Rightarrow> pystr \<Rightarrow> pystr" where
  "str_repr printable s =
     (let quote = (if 39 \<in> set s \<and> 34 \<notin> set s then 34 else 39)
      in [quote] @ concat (map (str_repr1 printable quote) s) @ [quote])"

fun scalar_repr :: "(code_point \<Rightarrow> bool) \<Rightarrow> pyscalar \<Rightarrow> pystr" where
  "scalar_repr printable (SStr s) = str_repr printable s"
| "scalar_repr printable v = scalar_str v"

text \<open>\<^verbatim>\<open>repr(v)\<close> and \<^verbatim>\<open>str(v)\<close>; the elements of a set come in the order of its list.\<close>

fun val_repr :: "(code_point \<Rightarrow> bool) \<Rightarrow> pyval \<Rightarrow> pystr" where
  "val_repr printable (PS v) = scalar_repr printable v"
| "val_repr printable (PList xs) = L ''['' @ py_join (L '', '') (map (val_repr printable) xs) @ L '']''"
| "val_repr printable (PTuple xs) =
     L ''('' @ py_join (L '', '') (map (val_repr printable) xs) @ (if length xs = 1 then L '',)'' else L '')'')"
| "val_repr printable (PSet xs) =
     (if xs = [] then L ''set()'' else L ''{'' @ py_join (L '', '') (map (scalar_repr printable) xs) @ L ''}'')"
| "val_repr printable (PDict d) =
     L ''{'' @ py_join (L '', '') (map (\<lambda>(k, v). scalar_repr printable k @ L '': '' @ val_repr printable v) d) @ L ''}''"
| "val_repr printable (PKeyOrdered d) =
     L ''{'' @ py_join (L '', '') (map (\<lambda>(k, v). scalar_repr printable k @ L '': '' @ val_repr printable v) d) @ L ''}''"

fun val_str :: "(code_point \<Rightarrow> bool) \<Rightarrow> pyval \<Rightarrow> pystr" where
  "val_str printable (PS v) = scalar_str v"
| "val_str printable v = val_repr printable v"

definition bool_str :: "bool \<Rightarrow> pystr" where
  "bool_str b = (if b then L ''True'' else L ''False'')"

text \<open>\<^verbatim>\<open>str(x)\<close> of a float with the value of a rational\<close>

definition rat_str :: "rat \<Rightarrow> pystr" where
  "rat_str x = (case quotient_of x of (p, q) \<Rightarrow> float_repr (round_ratio (p < 0) (nat \<bar>p\<bar>) (nat q)))"

definition strip_zeros :: "pystr \<Rightarrow> pystr" where
  "strip_zeros ds = rev (dropWhile ((=) 48) (rev ds))"

definition with_point :: "pystr \<Rightarrow> pystr" where
  "with_point fp = (if fp = [] then [] else 46 # fp)"

text \<open>
  \<^verbatim>\<open>f"{x:g}"\<close> of a positive number: six significant digits, rounded half to even, without trailing
  zeros, with an exponent when the decimal exponent is below -4 or above 5.
\<close>

definition fmt_g :: "rat \<Rightarrow> pystr" where
  "fmt_g x =
     (case quotient_of x of (p, q) \<Rightarrow>
        let e0 = ten_exp 700 (nat p) (nat q) (- 330) - 1;
            (a, b) = scale10 (nat p) (nat q) (5 - e0);
            n = Py_Float.round_half_even a b;
            (n', e) = (if n = 10 ^ 6 then (10 ^ 5, e0 + 1) else (n, e0));
            ds = str_nat n'
        in if - 4 \<le> e \<and> e < 6 then
             (if 0 \<le> e then take (nat e + 1) ds @ with_point (strip_zeros (drop (nat e + 1) ds))
              else [48] @ with_point (replicate (nat (- e) - 1) 48 @ strip_zeros ds))
           else
             (let xs = str_nat (nat \<bar>e\<bar>)
              in take 1 ds @ with_point (strip_zeros (drop 1 ds)) @ [101, if e < 0 then 45 else 43]
                 @ (if length xs = 1 then [48] else []) @ xs))"

section \<open>Summaries\<close>

definition or_text :: "pystr option \<Rightarrow> string \<Rightarrow> pystr" where
  "or_text t fallback = (case opt_text t of Some s \<Rightarrow> s | None \<Rightarrow> L fallback)"

definition auth_summary :: "AerospikeConfig \<Rightarrow> pystr" where
  "auth_summary aero =
     (case opt_text (ac_username aero) of
        None \<Rightarrow> L ''none''
      | Some username \<Rightarrow>
          let mode = or_text (ac_auth_mode aero) ''internal'';
              secret = (if opt_text (ac_password aero) \<noteq> None then L ''***'' else L ''(empty)'')
          in L ''username='' @ username @ L '' password='' @ secret @ L '' mode='' @ mode)"

definition tls_summary :: "AerospikeConfig \<Rightarrow> pystr" where
  "tls_summary aero =
     (if \<not> ac_tls_enable aero then L ''disabled''
      else
        let mutual = (if opt_text (ac_tls_certfile aero) \<noteq> None then L ''yes'' else L ''no'');
            name = or_text (ac_tls_name aero) ''(none)''
        in L ''enabled (name='' @ name @ L '', mutual='' @ mutual @ L '')'')"

text \<open>\<^verbatim>\<open>s.partition(sep)\<close> without the separator: all of \<^verbatim>\<open>s\<close> and nothing when it does not occur\<close>

definition partition2 :: "pystr \<Rightarrow> pystr \<Rightarrow> pystr \<times> pystr" where
  "partition2 sep s = (case py_partition sep s of Some p \<Rightarrow> p | None \<Rightarrow> (s, []))"

definition mask_url :: "pystr \<Rightarrow> pystr" where
  "mask_url url =
     (if \<not> py_contains (L ''@'') url \<or> \<not> py_contains (L ''://'') url then url
      else
        let (scheme, rest) = partition2 (L ''://'') url;
            (creds, host) = partition2 (L ''@'') rest;
            creds' = (if py_contains (L '':'') creds then fst (partition2 (L '':'') creds) @ L '':***'' else creds)
        in scheme @ L ''://'' @ creds' @ L ''@'' @ host)"

definition redis_auth_summary :: "RedisConfig \<Rightarrow> pystr" where
  "redis_auth_summary redis =
     (if opt_text (rc_username redis) = None \<and> opt_text (rc_password redis) = None then L ''none''
      else
        let user = or_text (rc_username redis) ''(default)'';
            secret = (if opt_text (rc_password redis) \<noteq> None then L ''***'' else L ''(none)'')
        in L ''username='' @ user @ L '' password='' @ secret)"

definition redis_tls_summary :: "RedisConfig \<Rightarrow> pystr" where
  "redis_tls_summary redis =
     (if \<not> rc_ssl redis then L ''disabled''
      else
        let mutual = (if opt_text (rc_ssl_certfile redis) \<noteq> None then L ''yes'' else L ''no'')
        in L ''enabled (mutual='' @ mutual @ L '')'')"

definition rate_summary :: "rat \<Rightarrow> pystr" where
  "rate_summary rate = (if rate \<noteq> 0 \<and> 0 < rate then fmt_g rate @ L ''/s'' else L ''unlimited'')"

definition batch_summary :: "int \<Rightarrow> pystr" where
  "batch_summary batch_size =
     (if batch_size \<noteq> 0 \<and> 1 < batch_size then str_int batch_size @ L '' records'' else L ''single'')"

section \<open>The preview\<close>

text \<open>The local function \<^verbatim>\<open>fmt\<close> on \<^verbatim>\<open>redis_info.get(name)\<close> and on a number of the server\<close>

definition info_get :: "(pystr, pyval) dict \<Rightarrow> string \<Rightarrow> pyval" where
  "info_get info name = (case dict_get info (L name) of Some v \<Rightarrow> v | None \<Rightarrow> PS SNone)"

definition fmt_value :: "(code_point \<Rightarrow> bool) \<Rightarrow> pyval \<Rightarrow> pystr" where
  "fmt_value printable value = (if value = PS SNone then L ''unknown'' else val_str printable value)"

definition fmt_int :: "int option \<Rightarrow> pystr" where
  "fmt_int value = (case value of None \<Rightarrow> L ''unknown'' | Some i \<Rightarrow> str_int i)"

definition estimate_line :: "(code_point \<Rightarrow> bool) \<Rightarrow> RedisConfig \<Rightarrow> (pystr, pyval) dict \<Rightarrow> pystr" where
  "estimate_line printable redis redis_info =
     (let estimated = info_get redis_info ''keys''
      in if estimated = PS SNone then L ''  estimated keys : unknown''
         else if rc_scan_match redis = L ''*'' then L ''  estimated keys : '' @ val_str printable estimated
         else L ''  estimated keys : <= '' @ val_str printable estimated @ L '' (whole-db count; match '' @ [39]
              @ rc_scan_match redis @ [39] @ L '' filters further)'')"

definition endpoint_line :: "RedisConfig \<Rightarrow> pystr" where
  "endpoint_line redis =
     (case opt_text (rc_url redis) of
        Some url \<Rightarrow> L ''    endpoint    : '' @ mask_url url
      | None \<Rightarrow>
          let db_part = (if rc_cluster redis then [] else L '' db='' @ str_int (rc_db redis))
          in L ''    endpoint    : '' @ rc_host redis @ L '':'' @ str_int (rc_port redis) @ db_part)"

definition route_line :: "(code_point \<Rightarrow> bool) \<Rightarrow> nat \<times> AerospikeSetRoute \<Rightarrow> pystr" where
  "route_line printable ir =
     (case ir of (i, route) \<Rightarrow>
        let bits = (case route_hash_strategy route of
                      Some h \<Rightarrow> [L ''hash_strategy='' @ HashStrategy_value h] | None \<Rightarrow> [])
                   @ (case route_value_bin route of
                        Some b \<Rightarrow> [L ''value_bin='' @ str_repr printable b] | None \<Rightarrow> []);
            suffix = (if bits \<noteq> [] then L '' ('' @ py_join (L '', '') bits @ L '')'' else [])
        in L ''    set route '' @ str_nat i @ L ''   : '' @ pattern route @ L '' -> '' @ destination route @ suffix)"

definition set_lines :: "(code_point \<Rightarrow> bool) \<Rightarrow> AerospikeConfig \<Rightarrow> pystr list" where
  "set_lines printable aero =
     (if ac_set_routes aero \<noteq> [] then
        (L ''    set (default) : '' @ ac_set_name aero)
        # map (route_line printable) (zip [1..<Suc (length (ac_set_routes aero))] (ac_set_routes aero))
      else [L ''    set         : '' @ ac_set_name aero])"

definition hosts_val :: "AerospikeConfig \<Rightarrow> pyval" where
  "hosts_val aero = PList (map (\<lambda>(h, p). PTuple [PS (SStr h), PS (SInt p)]) (ac_hosts aero))"

definition server_lines :: "AerospikeServerInfo option \<Rightarrow> pystr list" where
  "server_lines aerospike_info =
     (case aerospike_info of
        None \<Rightarrow> []
      | Some info \<Rightarrow>
          [L ''    nsup-period : '' @ fmt_int (si_nsup_period info),
           L ''    max-record-size : '' @ fmt_int (si_max_record_size info),
           L ''    stop-writes-pct : '' @ fmt_int (si_stop_writes_pct info)])"

definition source_lines :: "(code_point \<Rightarrow> bool) \<Rightarrow> RedisConfig \<Rightarrow> (pystr, pyval) dict \<Rightarrow> pystr list" where
  "source_lines printable redis redis_info =
     (let fmt = (\<lambda>name. fmt_value printable (info_get redis_info name))
      in [L ''  source (Redis):'',
          L ''    mode        : '' @ (if rc_cluster redis then L ''cluster'' else L ''standalone''),
          endpoint_line redis,
          L ''    auth        : '' @ redis_auth_summary redis,
          L ''    tls         : '' @ redis_tls_summary redis,
          L ''    SCAN filter : '' @ rc_scan_match redis,
          L ''    keys        : '' @ fmt ''keys'',
          L ''    with TTL     : '' @ fmt ''expires'',
          L ''    used memory : '' @ fmt ''used_memory_human'',
          L ''    version     : '' @ fmt ''redis_version''])"

definition target_lines :: "(code_point \<Rightarrow> bool) \<Rightarrow> AerospikeConfig \<Rightarrow> pystr list" where
  "target_lines printable aero =
     [L ''  target (Aerospike):'',
      L ''    hosts       : '' @ val_str printable (hosts_val aero),
      L ''    namespace   : '' @ ac_namespace aero]
     @ set_lines printable aero
     @ [L ''    value bin   : '' @ ac_value_bin aero,
        L ''    auth        : '' @ auth_summary aero,
        L ''    tls         : '' @ tls_summary aero,
        L ''    timeouts(ms): socket='' @ str_int (ac_socket_timeout_ms aero)
          @ L '' total='' @ str_int (ac_total_timeout_ms aero)
          @ L '' connect='' @ str_int (ac_connect_timeout_ms aero)
          @ L '' login='' @ str_int (ac_login_timeout_ms aero),
        L ''    send key    : '' @ bool_str (ac_send_key aero),
        L ''    record exists : '' @ RecordExistsPolicy_value (ac_record_exists_policy aero),
        L ''    services-alt: '' @ bool_str (ac_use_services_alternate aero)]"

definition pipeline_lines :: "MigrationConfig \<Rightarrow> pystr list" where
  "pipeline_lines config =
     [L ''  pipeline:'',
      L ''    workers     : '' @ str_int (mc_workers config),
      L ''    scan batch  : '' @ str_int (mc_scan_batch config),
      L ''    queue size  : '' @ str_int (mc_queue_size config),
      L ''    scan rate   : '' @ rate_summary (mc_scan_rate_limit config),
      L ''    write rate  : '' @ rate_summary (mc_write_rate_limit config),
      L ''    write batch : '' @ batch_summary (mc_write_batch_size config),
      L ''    hash strategy : '' @ HashStrategy_value (mc_hash_strategy config),
      L ''    ttl overflow  : '' @ TtlOverflowPolicy_value (mc_ttl_overflow_policy config),
      L ''    max ttl     : '' @ str_int (ac_max_ttl (mc_aerospike config)),
      L ''    max record size : '' @ str_int (ac_max_record_size (mc_aerospike config)),
      L ''    progress interval : '' @ rat_str (mc_progress_interval config) @ L ''s'']"

definition render_preview ::
    "(code_point \<Rightarrow> bool) \<Rightarrow> MigrationConfig \<Rightarrow> (pystr, pyval) dict \<Rightarrow> AerospikeServerInfo option \<Rightarrow> pystr"
where
  "render_preview printable config redis_info aerospike_info =
     py_join [10]
       ([L ''migration preview'']
        @ source_lines printable (mc_redis config) redis_info
        @ target_lines printable (mc_aerospike config)
        @ server_lines aerospike_info
        @ pipeline_lines config
        @ [estimate_line printable (mc_redis config) redis_info])"

section \<open>Passwords\<close>

lemma py_partition_first:
  "sep \<noteq> [] \<Longrightarrow> hd sep \<notin> set a \<Longrightarrow> py_partition sep (a @ sep @ b) = Some (a, b)"
proof (induction a)
  case Nil
  then show ?case by (cases sep) (auto simp: startswith_def)
next
  case (Cons c a)
  then have "\<not> startswith (c # a @ sep @ b) sep" by (cases sep) (auto simp: startswith_def)
  with Cons show ?case by simp
qed

lemma partition2_first: "sep \<noteq> [] \<Longrightarrow> hd sep \<notin> set a \<Longrightarrow> partition2 sep (a @ sep @ b) = (a, b)"
  by (simp add: partition2_def py_partition_first)

lemma py_partition_found: "sep \<noteq> [] \<Longrightarrow> py_partition sep (a @ sep @ b) \<noteq> None"
proof (induction a)
  case Nil
  then show ?case by (cases sep) (auto simp: startswith_def)
qed auto

lemma py_contains_mid: "sep \<noteq> [] \<Longrightarrow> py_contains sep (a @ sep @ b)"
  using py_partition_found by (simp add: py_contains_def)

text \<open>A connection URL with a user and a password.\<close>

definition secret_url :: "pystr \<Rightarrow> pystr \<Rightarrow> pystr \<Rightarrow> pystr \<Rightarrow> pystr" where
  "secret_url scheme user secret host = scheme @ L ''://'' @ user @ L '':'' @ secret @ L ''@'' @ host"

lemma hd_L [simp]: "s \<noteq> [] \<Longrightarrow> hd (L s) = of_char (hd s)"
  by (simp add: L_def hd_map)

lemma mask_url_secret:
  assumes "58 \<notin> set scheme" "58 \<notin> set user" "64 \<notin> set user" "64 \<notin> set secret"
  shows "mask_url (secret_url scheme user secret host) = secret_url scheme user (L ''***'') host"
proof -
  have at: "L ''@'' = [64]" and colon: "L '':'' = [58]" and sep: "L ''://'' = [58, 47, 47]" by (simp_all add: L_def)
  have c1: "py_contains (L ''@'') (secret_url scheme user secret host)"
    using py_contains_mid [of "L ''@''" "scheme @ L ''://'' @ user @ L '':'' @ secret" host] by (simp add: secret_url_def)
  have c2: "py_contains (L ''://'') (secret_url scheme user secret host)"
    using py_contains_mid [of "L ''://''" scheme] by (simp add: secret_url_def)
  have p1: "partition2 (L ''://'') (secret_url scheme user secret host) = (scheme, user @ L '':'' @ secret @ L ''@'' @ host)"
    using partition2_first [of "L ''://''" scheme] assms(1) by (simp add: secret_url_def)
  have p2: "partition2 (L ''@'') (user @ L '':'' @ secret @ L ''@'' @ host) = (user @ L '':'' @ secret, host)"
    using partition2_first [of "L ''@''" "user @ L '':'' @ secret"] assms(3,4) by (simp add: colon)
  have p3: "partition2 (L '':'') (user @ L '':'' @ secret) = (user, secret)"
    using partition2_first [of "L '':''" user] assms(2) by simp
  have c3: "py_contains (L '':'') (user @ L '':'' @ secret)" by (simp add: py_contains_mid)
  have "L '':***'' = L '':'' @ L ''***''" by (simp add: L_append)
  then show ?thesis
    by (simp add: mask_url_def c1 c2 p1 p2 p3 c3) (simp add: secret_url_def)
qed

text \<open>The masking stops at the first at-sign, so the rest of a password that contains one is printed.\<close>

lemma mask_url_leaks:
  assumes "58 \<notin> set scheme" "58 \<notin> set user" "64 \<notin> set user" "64 \<notin> set secret"
  shows "mask_url (secret_url scheme user (secret @ L ''@'' @ leaked) host) =
    secret_url scheme user (L ''***'') (leaked @ L ''@'' @ host)"
  using mask_url_secret [OF assms, of "leaked @ L ''@'' @ host"] by (simp add: secret_url_def)

text \<open>The same configuration with other secrets.\<close>

definition with_secrets :: "pystr option \<Rightarrow> pystr option \<Rightarrow> pystr option \<Rightarrow> pystr option \<Rightarrow> MigrationConfig \<Rightarrow> MigrationConfig" where
  "with_secrets url redis_pw aerospike_pw key_pw config =
     config\<lparr>mc_redis := (mc_redis config)\<lparr>rc_url := url, rc_password := redis_pw\<rparr>,
            mc_aerospike := (mc_aerospike config)\<lparr>ac_password := aerospike_pw, ac_tls_keyfile_pw := key_pw\<rparr>\<rparr>"

lemma target_lines_secrets:
  assumes "a \<noteq> []" "a' \<noteq> []"
  shows "target_lines printable (aero\<lparr>ac_password := Some a, ac_tls_keyfile_pw := k\<rparr>) =
    target_lines printable (aero\<lparr>ac_password := Some a', ac_tls_keyfile_pw := k'\<rparr>)"
  using assms
  by (simp add: target_lines_def auth_summary_def tls_summary_def set_lines_def hosts_val_def or_text_def opt_text_def
      Let_def split: option.splits)

lemma source_lines_secrets:
  assumes "r \<noteq> []" "r' \<noteq> []" "map_option mask_url (opt_text v) = map_option mask_url (opt_text v')"
  shows "source_lines printable (redis\<lparr>rc_url := v, rc_password := Some r\<rparr>) ri =
    source_lines printable (redis\<lparr>rc_url := v', rc_password := Some r'\<rparr>) ri"
proof -
  have "endpoint_line (redis\<lparr>rc_url := v, rc_password := Some r\<rparr>) = endpoint_line (redis\<lparr>rc_url := v', rc_password := Some r'\<rparr>)"
    using assms(3) by (auto simp: endpoint_line_def Let_def split: option.splits)
  then show ?thesis using assms(1,2)
    by (simp add: source_lines_def redis_auth_summary_def redis_tls_summary_def or_text_def opt_text_def Let_def)
qed

lemma render_preview_secrets:
  assumes "a \<noteq> []" "a' \<noteq> []" "r \<noteq> []" "r' \<noteq> []"
    and "map_option mask_url (opt_text v) = map_option mask_url (opt_text v')"
  shows "render_preview printable (with_secrets v (Some r) (Some a) k config) ri ai =
    render_preview printable (with_secrets v' (Some r') (Some a') k' config) ri ai"
proof -
  have "pipeline_lines (with_secrets x y z w config) = pipeline_lines config"
    "estimate_line printable (mc_redis (with_secrets x y z w config)) ri = estimate_line printable (mc_redis config) ri" for x y z w
    by (simp_all add: pipeline_lines_def estimate_line_def with_secrets_def Let_def)
  then show ?thesis
    using source_lines_secrets [OF assms(3-5), of printable "mc_redis config" ri]
      target_lines_secrets [OF assms(1,2), where aero = "mc_aerospike config" and printable = printable and k = k and k' = k']
    by (simp add: render_preview_def) (simp add: with_secrets_def)
qed

text \<open>
  C32 The preview shows no password: two configurations that differ only in their Redis and Aerospike
  passwords, in the password of the TLS key and in the password inside a connection URL produce the
  same text, as long as the password of the URL contains no at-sign.
\<close>

theorem preview_hides_passwords:
  assumes "a \<noteq> []" "a' \<noteq> []" "r \<noteq> []" "r' \<noteq> []"
    and "58 \<notin> set scheme" "58 \<notin> set user" "64 \<notin> set user" "64 \<notin> set u" "64 \<notin> set u'"
  shows "render_preview printable (with_secrets (Some (secret_url scheme user u host)) (Some r) (Some a) k config) ri ai =
    render_preview printable (with_secrets (Some (secret_url scheme user u' host)) (Some r') (Some a') k' config) ri ai \<and>
    render_preview printable (with_secrets None (Some r) (Some a) k config) ri ai =
    render_preview printable (with_secrets None (Some r') (Some a') k' config) ri ai"
proof -
  have mask: "map_option mask_url (opt_text (Some (secret_url scheme user x host))) = Some (secret_url scheme user (L ''***'') host)"
    if "64 \<notin> set x" for x
    using mask_url_secret [OF assms(5-7) that, of host] by (simp add: opt_text_def secret_url_def)
  show ?thesis
    using assms(8,9) by (intro conjI render_preview_secrets [OF assms(1-4)]) (simp_all only: mask not_False_eq_True)
qed

theorem preview_hides_passwords_witness:
  "\<exists>t. \<forall>pw \<in> {L ''hunter2'', L ''swordfish''}.
     render_preview (\<lambda>c. True) (with_secrets (Some (secret_url (L ''redis'') (L ''app'') pw (L ''db:6379''))) (Some pw) (Some pw) (Some pw)
       MigrationConfig_default) [] None = t"
proof -
  have sets: "58 \<notin> set (L ''redis'')" "58 \<notin> set (L ''app'')" "64 \<notin> set (L ''app'')" "64 \<notin> set (L ''hunter2'')"
    "64 \<notin> set (L ''swordfish'')" by (simp_all add: L_def)
  have "L ''hunter2'' \<noteq> []" "L ''swordfish'' \<noteq> []" by simp_all
  from preview_hides_passwords [OF this this sets, of "\<lambda>c. True" "L ''db:6379''" "Some (L ''hunter2'')" MigrationConfig_default "[]" None "Some (L ''swordfish'')"]
  show ?thesis by auto
qed

end
