(* ===== verification/Converters.thy ===== *)
theory Converters
  imports Models Config
begin

text \<open>
  The converters (\<^verbatim>\<open>converters/\<close>): scalar coercion, member decoding, the TTL policy with its
  once-per-run warning, the five type converters and the registry that selects among them.
  Definitions come first, in the order of the source files, then the facts about them.
\<close>

section \<open>Scalar coercion\<close>

text \<open>
  The pattern \<^verbatim>\<open>$\<close> matches at the end of the text and also before a final newline, and \<^verbatim>\<open>\d\<close>
  matches every decimal digit of Unicode.
\<close>

definition dollar :: "(pystr \<Rightarrow> bool) \<Rightarrow> pystr \<Rightarrow> bool" where
  "dollar body t \<longleftrightarrow> body t \<or> (t \<noteq> [] \<and> last t = 10 \<and> body (butlast t))"

definition strip_minus :: "pystr \<Rightarrow> pystr" where
  "strip_minus t = (if take 1 t = [45] then drop 1 t else t)"

definition INT_RE :: "pystr \<Rightarrow> bool" where
  "INT_RE = dollar (\<lambda>t. let u = strip_minus t
     in u = [48] \<or> (u \<noteq> [] \<and> 49 \<le> hd u \<and> hd u \<le> 57 \<and> list_all is_digit (tl u)))"

definition FLOAT_RE :: "pystr \<Rightarrow> bool" where
  "FLOAT_RE = dollar (\<lambda>t. scan_decimal (strip_minus t) \<noteq> None)"

definition INT64_MIN :: int where
  "INT64_MIN = - (2 ^ 63)"

definition INT64_MAX :: int where
  "INT64_MAX = 2 ^ 63 - 1"

definition coerce_text :: "pystr \<Rightarrow> pyscalar res" where
  "coerce_text text =
     (if INT_RE text then
        rbind (py_int text) (\<lambda>number.
          if INT64_MIN \<le> number \<and> number \<le> INT64_MAX then Inr (SInt number) else Inr (SStr text))
      else if FLOAT_RE text \<and> (46 \<in> set text \<or> 101 \<in> set text \<or> 69 \<in> set text) then
        rbind (py_float text) (\<lambda>number.
          if isfinite number then Inr (SFloat number) else Inr (SStr text))
      else Inr (SStr text))"

fun coerce_scalar :: "pyscalar \<Rightarrow> pyscalar res" where
  "coerce_scalar (SBool b) = Inr (SBool b)"
| "coerce_scalar (SInt i) = Inr (SInt i)"
| "coerce_scalar (SFloat x) = Inr (SFloat x)"
| "coerce_scalar (SBytes b) =
     (case utf8_decode b of None \<Rightarrow> Inr (SBytes b) | Some text \<Rightarrow> coerce_text text)"
| "coerce_scalar (SStr text) = coerce_text text"
| "coerce_scalar SNone = Inr SNone"

fun decode_member :: "pyscalar \<Rightarrow> pyscalar" where
  "decode_member (SBytes b) = (case utf8_decode b of Some s \<Rightarrow> SStr s | None \<Rightarrow> SBytes b)"
| "decode_member v = v"

section \<open>TTL policy\<close>

definition MAX_REAL_TTL_S :: int where
  "MAX_REAL_TTL_S = 0xFFFFFFFC"

text \<open>\<^verbatim>\<open>math.ceil(ttl_ms / 1000)\<close>\<close>

definition ceil_seconds :: "int \<Rightarrow> int res" where
  "ceil_seconds ttl_ms = rbind (int_truediv ttl_ms 1000) py_ceil"

fun to_aerospike_ttl :: "int option \<Rightarrow> int res" where
  "to_aerospike_ttl None = Inr TTL_NEVER_EXPIRE"
| "to_aerospike_ttl (Some ttl_ms) =
     rmap (\<lambda>c. min MAX_REAL_TTL_S (max 1 c)) (ceil_seconds ttl_ms)"

text \<open>\<open>tp_log\<close> is what the policy has written to the log: the mode and the limit of each warning.\<close>

record TtlPolicy =
  tp_mode :: TtlOverflowPolicy
  tp_max_ttl_s :: int
  tp_warned :: bool
  tp_log :: "(TtlOverflowPolicy \<times> int) list"

definition TtlPolicy_init :: "TtlOverflowPolicy \<Rightarrow> int \<Rightarrow> TtlPolicy" where
  "TtlPolicy_init mode max_ttl_s =
     \<lparr>tp_mode = mode, tp_max_ttl_s = max_ttl_s, tp_warned = False, tp_log = []\<rparr>"

definition warn_once :: "TtlPolicy \<Rightarrow> TtlPolicy" where
  "warn_once p =
     (if tp_warned p then p
      else p\<lparr>tp_warned := True, tp_log := tp_log p @ [(tp_mode p, tp_max_ttl_s p)]\<rparr>)"

definition handle_overflow :: "TtlPolicy \<Rightarrow> int \<Rightarrow> int res \<times> TtlPolicy" where
  "handle_overflow p seconds =
     (case tp_mode p of
        REJECT \<Rightarrow> (Inl TtlTooLongError, warn_once p)
      | NEVER_EXPIRE \<Rightarrow> (Inr TTL_NEVER_EXPIRE, warn_once p)
      | CLAMP \<Rightarrow> (Inr (tp_max_ttl_s p), warn_once p))"

fun to_ttl :: "TtlPolicy \<Rightarrow> int option \<Rightarrow> int res \<times> TtlPolicy" where
  "to_ttl p None = (Inr TTL_NEVER_EXPIRE, p)"
| "to_ttl p (Some ttl_ms) =
     (case ceil_seconds ttl_ms of
        Inl e \<Rightarrow> (Inl e, p)
      | Inr c \<Rightarrow>
          let seconds = max 1 c
          in if tp_max_ttl_s p \<noteq> 0 \<and> tp_max_ttl_s p < seconds then handle_overflow p seconds
             else (Inr (min MAX_REAL_TTL_S seconds), p))"

section \<open>The converters\<close>

text \<open>
  A converter and its attributes. \<open>CustomConverter\<close> is one registered by a user of the library: the
  Redis type it declares and its \<^verbatim>\<open>convert\<close> method, with a TTL policy of its own.
\<close>

datatype Converter =
    StringConverter pystr
  | HashConverter pystr HashStrategy
  | ListConverter pystr
  | SetConverter pystr
  | ZSetConverter pystr
  | CustomConverter pystr "RedisRecord \<Rightarrow> AerospikeRecord res"

fun redis_type :: "Converter \<Rightarrow> pystr" where
  "redis_type (StringConverter vb) = L ''string''"
| "redis_type (HashConverter vb st) = L ''hash''"
| "redis_type (ListConverter vb) = L ''list''"
| "redis_type (SetConverter vb) = L ''set''"
| "redis_type (ZSetConverter vb) = L ''zset''"
| "redis_type (CustomConverter t f) = t"

text \<open>
  A conversion first computes the bins, which may raise, and then resolves the TTL with the policy
  shared by all converters, which may raise as well and may log its warning.
\<close>

type_synonym bins = "(pystr, pyval) dict"
type_synonym conversion = "AerospikeRecord res \<times> TtlPolicy"

definition build ::
    "TtlPolicy \<Rightarrow> RedisRecord \<Rightarrow> bins res \<Rightarrow> (pystr, BinWritePolicy) dict \<Rightarrow> conversion"
where
  "build tp record bins bin_policies =
     (case bins of
        Inl e \<Rightarrow> (Inl e, tp)
      | Inr bs \<Rightarrow>
          (case to_ttl tp (rr_ttl_ms record) of
             (Inl e, tp') \<Rightarrow> (Inl e, tp')
           | (Inr ttl, tp') \<Rightarrow>
               (Inr \<lparr>ar_key = rr_key record, ar_bins = bs, ar_ttl_s = Some ttl,
                     ar_bin_policies = bin_policies, ar_set_name = None\<rparr>, tp')))"

text \<open>
  Iterating over the items of a list or set value. Byte strings iterate as integers and text as
  characters. The pairs of a sorted set are not scalars; a reader that takes type and value of the
  same key never hands them to these converters.
\<close>

fun iter_scalars :: "redis_value \<Rightarrow> pyscalar list res" where
  "iter_scalars (RList xs) = Inr xs"
| "iter_scalars (RSet xs) = Inr xs"
| "iter_scalars (RHash d) = Inr (map fst d)"
| "iter_scalars (RZset ps) = (if ps = [] then Inr [] else Inl TypeError)"
| "iter_scalars (RScalar (SBytes b)) = Inr (map (\<lambda>w. SInt (uint w)) b)"
| "iter_scalars (RScalar (SStr s)) = Inr (map (\<lambda>c. SStr [c]) s)"
| "iter_scalars (RScalar v) = (if scalar_true v then Inl TypeError else Inr [])"

fun hash_items :: "redis_value \<Rightarrow> (pyscalar \<times> pyscalar) list res" where
  "hash_items (RHash d) = Inr d"
| "hash_items v = (if redis_value_true v then Inl AttributeError else Inr [])"

fun zset_pairs :: "redis_value \<Rightarrow> (pyscalar \<times> pyscalar) list res" where
  "zset_pairs (RZset ps) = Inr ps"
| "zset_pairs v = (if redis_value_true v then Inl TypeError else Inr [])"

text \<open>Strings and lists\<close>

fun convert_string_value :: "redis_value \<Rightarrow> pyval res" where
  "convert_string_value (RScalar v) = rmap PS (coerce_scalar v)"
| "convert_string_value (RHash d) = Inr (PDict (map (\<lambda>(k, v). (k, PS v)) d))"
| "convert_string_value (RList xs) = Inr (PList (map PS xs))"
| "convert_string_value (RSet xs) = Inr (PSet xs)"
| "convert_string_value (RZset ps) = Inr (PList (map (\<lambda>(m, s). PTuple [PS m, PS s]) ps))"

definition StringConverter_convert :: "pystr \<Rightarrow> TtlPolicy \<Rightarrow> RedisRecord \<Rightarrow> conversion" where
  "StringConverter_convert value_bin tp record =
     build tp record (rmap (\<lambda>v. [(value_bin, v)]) (convert_string_value (rr_value record))) []"

definition ListConverter_convert :: "pystr \<Rightarrow> TtlPolicy \<Rightarrow> RedisRecord \<Rightarrow> conversion" where
  "ListConverter_convert value_bin tp record =
     build tp record
       (rbind (iter_scalars (rr_value record)) (\<lambda>items.
          rmap (\<lambda>vs. [(value_bin, PList (map PS vs))]) (mapr coerce_scalar items))) []"

text \<open>Sets\<close>

definition sort_key_of :: "pyscalar \<Rightarrow> pystr \<times> pystr" where
  "sort_key_of value = (scalar_type_name value, scalar_str value)"

definition set_members :: "pyscalar list \<Rightarrow> pyscalar list" where
  "set_members items = sort_key sort_key_of (sset_of (map decode_member items))"

definition SetConverter_convert :: "pystr \<Rightarrow> TtlPolicy \<Rightarrow> RedisRecord \<Rightarrow> conversion" where
  "SetConverter_convert value_bin tp record =
     build tp record
       (rmap (\<lambda>items. [(value_bin, PList (map PS (set_members items)))]) (iter_scalars (rr_value record)))
       [(value_bin, UNIQUE_LIST)]"

text \<open>Sorted sets\<close>

fun encode_score :: "pyscalar \<Rightarrow> pyscalar" where
  "encode_score (SFloat x) = (if isfinite x then SFloat x else SStr (float_repr x))"
| "encode_score v = SStr (scalar_str v)"

definition zset_scores :: "(pyscalar \<times> pyscalar) list \<Rightarrow> (pyscalar, pyval) dict" where
  "zset_scores ps =
     kset_all scalar_key (map (\<lambda>(member, score). (decode_member member, PS (encode_score score))) ps) []"

definition ZSetConverter_convert :: "pystr \<Rightarrow> TtlPolicy \<Rightarrow> RedisRecord \<Rightarrow> conversion" where
  "ZSetConverter_convert value_bin tp record =
     build tp record
       (rmap (\<lambda>ps. [(value_bin, PDict (zset_scores ps))]) (zset_pairs (rr_value record))) []"

text \<open>Hashes\<close>

definition MAX_BIN_NAME_BYTES :: nat where
  "MAX_BIN_NAME_BYTES = 15"

fun decode_field :: "pyscalar \<Rightarrow> pystr" where
  "decode_field (SBytes b) = utf8_decode_replace b"
| "decode_field v = scalar_str v"

text \<open>The dictionary comprehension of \<^verbatim>\<open>_to_map\<close>: the keys are text.\<close>

definition to_map :: "(pyscalar \<times> pyscalar) list \<Rightarrow> (pyscalar, pyval) dict res" where
  "to_map raw =
     rmap (\<lambda>items. kset_all scalar_key items [])
       (mapr (\<lambda>(field, value). rmap (\<lambda>v. (SStr (decode_field field), PS v)) (coerce_scalar value)) raw)"

definition to_field_bins :: "(pyscalar \<times> pyscalar) list \<Rightarrow> bins res" where
  "to_field_bins raw =
     foldr_res (\<lambda>(field, value) bins.
       let name = decode_field field
       in if MAX_BIN_NAME_BYTES < length (utf8_encode name) then Inl ValueError
          else rmap (\<lambda>v. dict_set name (PS v) bins) (coerce_scalar value)) raw []"

definition HashConverter_convert ::
    "pystr \<Rightarrow> HashStrategy \<Rightarrow> TtlPolicy \<Rightarrow> RedisRecord \<Rightarrow> HashStrategy option \<Rightarrow> pystr option \<Rightarrow> conversion"
where
  "HashConverter_convert self_value_bin self_strategy tp record strategy value_bin =
     (let use_strategy = (case strategy of None \<Rightarrow> self_strategy | Some s \<Rightarrow> s)
      in if use_strategy = FIELD_BINS
         then build tp record (rbind (hash_items (rr_value record)) to_field_bins) []
         else
           let bin_name = (case value_bin of None \<Rightarrow> self_value_bin | Some b \<Rightarrow> b)
           in build tp record
                (rbind (hash_items (rr_value record)) (\<lambda>raw.
                   rmap (\<lambda>m. [(bin_name, PDict m)]) (to_map raw))) [])"

text \<open>\<^verbatim>\<open>converter.convert(record)\<close>, dispatched on the class\<close>

fun Converter_convert :: "Converter \<Rightarrow> TtlPolicy \<Rightarrow> RedisRecord \<Rightarrow> conversion" where
  "Converter_convert (StringConverter vb) tp r = StringConverter_convert vb tp r"
| "Converter_convert (HashConverter vb st) tp r = HashConverter_convert vb st tp r None None"
| "Converter_convert (ListConverter vb) tp r = ListConverter_convert vb tp r"
| "Converter_convert (SetConverter vb) tp r = SetConverter_convert vb tp r"
| "Converter_convert (ZSetConverter vb) tp r = ZSetConverter_convert vb tp r"
| "Converter_convert (CustomConverter t f) tp r = (f r, tp)"

section \<open>The registry\<close>

text \<open>The converters by type, and the TTL policy object they share.\<close>

record ConverterRegistry =
  reg_converters :: "(pystr, Converter) dict"
  reg_ttl_policy :: TtlPolicy

definition registry_register :: "ConverterRegistry \<Rightarrow> Converter \<Rightarrow> ConverterRegistry res" where
  "registry_register reg converter =
     (if redis_type converter = [] then Inl ValueError
      else Inr (reg\<lparr>reg_converters := dict_set (redis_type converter) converter (reg_converters reg)\<rparr>))"

definition registry_init :: "pystr \<Rightarrow> HashStrategy \<Rightarrow> TtlPolicy \<Rightarrow> ConverterRegistry res" where
  "registry_init value_bin hash_strategy ttl_policy =
     foldr_res (\<lambda>c reg. registry_register reg c)
       [StringConverter value_bin, HashConverter value_bin hash_strategy, ListConverter value_bin,
        SetConverter value_bin, ZSetConverter value_bin]
       \<lparr>reg_converters = [], reg_ttl_policy = ttl_policy\<rparr>"

definition registry_from_config :: "MigrationConfig \<Rightarrow> ConverterRegistry res" where
  "registry_from_config config =
     registry_init (ac_value_bin (mc_aerospike config)) (mc_hash_strategy config)
       (TtlPolicy_init (mc_ttl_overflow_policy config) (ac_max_ttl (mc_aerospike config)))"

definition registry_get :: "ConverterRegistry \<Rightarrow> pystr \<Rightarrow> Converter res" where
  "registry_get reg t =
     (case dict_get (reg_converters reg) t of Some c \<Rightarrow> Inr c | None \<Rightarrow> Inl UnsupportedTypeError)"

definition registry_supports :: "ConverterRegistry \<Rightarrow> pystr \<Rightarrow> bool" where
  "registry_supports reg t \<longleftrightarrow> dict_get (reg_converters reg) t \<noteq> None"

text \<open>
  \<^verbatim>\<open>ConverterRegistry.convert\<close>: hashes pass the route's strategy and bin on, and assert that the
  registered converter is a hash converter. The policy's state is returned in the registry.
\<close>

definition registry_convert ::
    "ConverterRegistry \<Rightarrow> RedisRecord \<Rightarrow> HashStrategy option \<Rightarrow> pystr option \<Rightarrow>
     AerospikeRecord res \<times> ConverterRegistry"
where
  "registry_convert reg record hash_strategy value_bin =
     (case registry_get reg (rr_type record) of
        Inl e \<Rightarrow> (Inl e, reg)
      | Inr c \<Rightarrow>
          let tp = reg_ttl_policy reg;
              (out, tp') =
                (if rr_type record = L ''hash'' then
                   (case c of
                      HashConverter vb st \<Rightarrow> HashConverter_convert vb st tp record hash_strategy value_bin
                    | _ \<Rightarrow> (Inl AssertionError, tp))
                 else Converter_convert c tp record)
          in (out, reg\<lparr>reg_ttl_policy := tp'\<rparr>))"

end
