(* ===== verification/Transforms.thy ===== *)
theory Transforms
  imports Models
begin

text \<open>
  Post-conversion transforms (\<^verbatim>\<open>transforms.py\<close>): the hook classes and the loop that runs a record
  through them. A transform given by a user of the library is its \<^verbatim>\<open>apply\<close> method, which may raise.
\<close>

datatype Transform =
    IdentityTransform
  | AddSourceTagTransform pystr pystr
  | CustomTransform "AerospikeRecord \<Rightarrow> AerospikeRecord res"

definition AddSourceTagTransform_default :: Transform where
  "AddSourceTagTransform_default = AddSourceTagTransform (L ''redis'') (L ''source'')"

fun transform_apply :: "Transform \<Rightarrow> AerospikeRecord \<Rightarrow> AerospikeRecord res" where
  "transform_apply IdentityTransform record = Inr record"
| "transform_apply (AddSourceTagTransform source bin_name) record =
     Inr (record\<lparr>ar_bins := dict_set bin_name (PS (SStr source)) (ar_bins record)\<rparr>)"
| "transform_apply (CustomTransform f) record = f record"

definition apply_all :: "AerospikeRecord \<Rightarrow> Transform list \<Rightarrow> AerospikeRecord res" where
  "apply_all record transforms = foldr_res transform_apply transforms record"

lemma apply_all_Nil [simp]: "apply_all r [] = Inr r"
  by (simp add: apply_all_def)

lemma apply_all_append: "apply_all r (ts @ us) = rbind (apply_all r ts) (\<lambda>r'. apply_all r' us)"
  by (simp add: apply_all_def foldr_res_append)

text \<open>
  Running a record through two groups of transforms is running it through the first and then,
  unless one of them raised, through the second; identity transforms may be dropped anywhere.
\<close>

lemma apply_all_compose:
  "apply_all r (ts @ IdentityTransform # us) = rbind (apply_all r ts) (\<lambda>r'. apply_all r' us)"
  unfolding apply_all_append by (simp add: apply_all_def)

text \<open>
  The source tag sets its own bin, keeps every other bin, the key, the TTL and the set, and
  keeps bin names distinct; applying it a second time changes nothing.
\<close>

lemma source_tag_bins:
  "\<exists>r'. transform_apply (AddSourceTagTransform src b) r = Inr r' \<and>
     dict_get (ar_bins r') b' = (if b' = b then Some (PS (SStr src)) else dict_get (ar_bins r) b') \<and>
     ar_key r' = ar_key r \<and> ar_ttl_s r' = ar_ttl_s r \<and> ar_set_name r' = ar_set_name r \<and>
     transform_apply (AddSourceTagTransform src b) r' = Inr r'"
proof -
  have "dict_set b v (dict_set b v d) = dict_set b v d" for v :: pyval and d
    by (induction d) auto
  then show ?thesis by (simp add: kget_kset)
qed

end
