(* ===== verification/Glob.thy ===== *)
theory Glob
  imports Py_Str
begin

text \<open>
  \<^verbatim>\<open>fnmatch.fnmatch\<close> of the standard library on a POSIX system (no case folding): a pattern is
  translated to a sequence of tokens the way \<^verbatim>\<open>fnmatch.translate\<close> builds its regular expression,
  and the tokens are matched against the whole name. The last section characterises patterns with
  a single star, on which the routing of keys rests.
\<close>

section \<open>Translation of patterns\<close>

datatype glob =
    GStar
  | GAny
  | GLit code_point
  | GClass bool "(code_point \<times> code_point) list"
  | GNever

text \<open>
  The text between \<^verbatim>\<open>[\<close> and its closing bracket, and the rest. A \<^verbatim>\<open>]\<close> right after the opening
  bracket (or after \<^verbatim>\<open>[!\<close>) does not close it. Without a closing bracket \<^verbatim>\<open>[\<close> is a literal.
\<close>

definition class_split :: "pystr \<Rightarrow> (pystr \<times> pystr) option" where
  "class_split s =
     (let (p1, r1) = (if take 1 s = [33] then ([33], drop 1 s) else ([], s));
          (p2, r2) = (if take 1 r1 = [93] then (p1 @ [93], drop 1 r1) else (p1, r1));
          body = takeWhile ((\<noteq>) 93) r2;
          after = dropWhile ((\<noteq>) 93) r2
      in if after = [] then None else Some (p2 @ body, drop 1 after))"

text \<open>The pieces between the hyphens that form ranges, searched from offset \<open>off\<close>.\<close>

definition find_hyphen :: "nat \<Rightarrow> pystr \<Rightarrow> nat option" where
  "find_hyphen off s =
     (let r = drop off s; m = length (takeWhile ((\<noteq>) 45) r)
      in if m < length r then Some (off + m) else None)"

lemma find_hyphen_less: "find_hyphen off s = Some n \<Longrightarrow> n < length s"
  by (auto simp: find_hyphen_def Let_def split: if_splits)

function chunks_from :: "nat \<Rightarrow> pystr \<Rightarrow> pystr list" where
  "chunks_from off s =
     (case find_hyphen off s of
        None \<Rightarrow> [s]
      | Some n \<Rightarrow> take n s # chunks_from 2 (drop (Suc n) s))"
  by pat_completeness auto
termination
  by (relation "measure (\<lambda>(off, s). length s)") (auto dest!: find_hyphen_less)

declare chunks_from.simps [simp del]

definition class_chunks :: "pystr \<Rightarrow> pystr list" where
  "class_chunks stuff =
     (let cs = chunks_from (if take 1 stuff = [33] then 2 else 1) stuff
      in if last cs = [] \<and> 1 < length cs
         then butlast (butlast cs) @ [last (butlast cs) @ [45]]
         else cs)"

text \<open>A range whose ends are in the wrong order is removed, from the last one on.\<close>

fun merge_empty :: "pystr list \<Rightarrow> pystr list" where
  "merge_empty [] = []"
| "merge_empty (c # cs) =
     (case merge_empty cs of
        [] \<Rightarrow> [c]
      | d # ds \<Rightarrow> if last c > hd d then (butlast c @ tl d) # ds else c # d # ds)"

text \<open>The contents of a class: escaped characters and the hyphens that form ranges.\<close>

datatype class_char = CChar code_point | CHyphen

fun join_chunks :: "pystr list \<Rightarrow> class_char list" where
  "join_chunks [] = []"
| "join_chunks [c] = map CChar c"
| "join_chunks (c # d # cs) = map CChar c @ CHyphen # join_chunks (d # cs)"

fun class_ranges :: "class_char list \<Rightarrow> (code_point \<times> code_point) list" where
  "class_ranges [] = []"
| "class_ranges (CChar a # CHyphen # CChar b # r) = (a, b) # class_ranges r"
| "class_ranges (CChar a # r) = (a, a) # class_ranges r"
| "class_ranges (CHyphen # r) = (45, 45) # class_ranges r"

definition class_token :: "pystr \<Rightarrow> glob" where
  "class_token stuff =
     (let cs = (if 45 \<in> set stuff then join_chunks (merge_empty (class_chunks stuff))
                else map CChar stuff)
      in if cs = [] then GNever
         else if cs = [CChar 33] then GAny
         else if hd cs = CChar 33 then GClass True (class_ranges (tl cs))
         else GClass False (class_ranges cs))"

lemma class_split_shorter:
  assumes "class_split s = Some (stuff, r)"
  shows "length r < length s"
proof -
  have "\<exists>n \<in> {0, 1, 2}. dropWhile ((\<noteq>) 93) (drop n s) \<noteq> [] \<and>
      r = drop 1 (dropWhile ((\<noteq>) 93) (drop n s))"
    using assms unfolding class_split_def Let_def
    by (auto split: if_splits simp: numeral_2_eq_2)
  then obtain r2 where "length r2 \<le> length s" and after: "dropWhile ((\<noteq>) 93) r2 \<noteq> []"
    and r: "r = drop 1 (dropWhile ((\<noteq>) 93) r2)"
    by (metis diff_le_self length_drop)
  moreover have "length (dropWhile ((\<noteq>) 93) r2) \<le> length r2" by (rule length_dropWhile_le)
  moreover have "length r < length (dropWhile ((\<noteq>) 93) r2)" using after by (simp add: r)
  ultimately show ?thesis by linarith
qed

function glob_parse :: "pystr \<Rightarrow> glob list" where
  "glob_parse [] = []"
| "glob_parse (c # s) =
     (if c = 42 then GStar # glob_parse s
      else if c = 63 then GAny # glob_parse s
      else if c = 91 then
        (case class_split s of
           None \<Rightarrow> GLit 91 # glob_parse s
         | Some (stuff, r) \<Rightarrow> class_token stuff # glob_parse r)
      else GLit c # glob_parse s)"
  by pat_completeness auto
termination
  by (relation "measure length") (auto dest!: class_split_shorter)

section \<open>Matching\<close>

fun token_match :: "glob \<Rightarrow> code_point \<Rightarrow> bool" where
  "token_match GStar c = True"
| "token_match GAny c = True"
| "token_match (GLit d) c = (c = d)"
| "token_match (GClass neg rs) c = (list_ex (\<lambda>(a, b). a \<le> c \<and> c \<le> b) rs \<noteq> neg)"
| "token_match GNever c = False"

fun glob_match :: "glob list \<Rightarrow> pystr \<Rightarrow> bool" where
  "glob_match [] s = (s = [])"
| "glob_match (GStar # g) [] = glob_match g []"
| "glob_match (GStar # g) (c # s) = (glob_match g (c # s) \<or> glob_match (GStar # g) s)"
| "glob_match (t # g) [] = False"
| "glob_match (t # g) (c # s) = (token_match t c \<and> glob_match g s)"

definition fnmatch :: "pystr \<Rightarrow> pystr \<Rightarrow> bool" where
  "fnmatch name pat = glob_match (glob_parse pat) name"

section \<open>Patterns with one star\<close>

text \<open>Text without \<^verbatim>\<open>*\<close>, \<^verbatim>\<open>?\<close> and \<^verbatim>\<open>[\<close> matches itself only.\<close>

definition literal :: "pystr \<Rightarrow> bool" where
  "literal s \<longleftrightarrow> 42 \<notin> set s \<and> 63 \<notin> set s \<and> 91 \<notin> set s"

lemma glob_parse_literal: "literal l \<Longrightarrow> glob_parse (l @ p) = map GLit l @ glob_parse p"
  by (induction l) (auto simp: literal_def)

lemma glob_match_literal:
  "glob_match (map GLit l @ g) s \<longleftrightarrow> (\<exists>s'. s = l @ s' \<and> glob_match g s')"
proof (induction l arbitrary: s)
  case Nil
  then show ?case by simp
next
  case (Cons c l)
  then show ?case by (cases s) auto
qed

lemma glob_match_star: "glob_match (GStar # g) s \<longleftrightarrow> (\<exists>b r. s = b @ r \<and> glob_match g r)"
proof (induction s)
  case Nil
  then show ?case by simp
next
  case (Cons c s)
  show ?case
  proof
    assume "glob_match (GStar # g) (c # s)"
    then have "glob_match g (c # s) \<or> (\<exists>b r. s = b @ r \<and> glob_match g r)"
      using Cons by simp
    then show "\<exists>b r. c # s = b @ r \<and> glob_match g r"
      by (metis append_Cons append_Nil)
  next
    assume "\<exists>b r. c # s = b @ r \<and> glob_match g r"
    then show "glob_match (GStar # g) (c # s)"
      using Cons by (auto simp: Cons_eq_append_conv)
  qed
qed

theorem fnmatch_single_star:
  assumes "literal l" "literal r"
  shows "fnmatch s (l @ 42 # r) \<longleftrightarrow> (\<exists>b. s = l @ b @ r)"
proof -
  have "glob_parse (l @ 42 # r) = map GLit l @ GStar # map GLit r"
    using assms glob_parse_literal [of r "[]"] by (simp add: glob_parse_literal)
  moreover have "glob_match (map GLit r) t \<longleftrightarrow> t = r" for t
    using glob_match_literal [of r "[]" t] by simp
  ultimately show ?thesis by (auto simp: fnmatch_def glob_match_literal glob_match_star)
qed

lemma fnmatch_star_all: "fnmatch s [42]"
  using fnmatch_single_star [of "[]" "[]" s] by (simp add: literal_def)

lemma fnmatch_literal: "literal p \<Longrightarrow> fnmatch s p \<longleftrightarrow> s = p"
  using glob_parse_literal [of p "[]"] glob_match_literal [of p "[]" s] by (simp add: fnmatch_def)

end
