(* ===== verification/Set_Routing.thy ===== *)
theory Set_Routing
  imports Glob Config Models
begin

text \<open>
  Routing of Redis keys to Aerospike sets (\<^verbatim>\<open>set_routing.py\<close>): glob patterns choose a set, and a
  pattern with a single star also shortens the key to the part the star matched.
\<close>

record RouteResolution =
  rs_set_name :: pystr
  rs_key :: pykey
  rs_hash_strategy :: "HashStrategy option"
  rs_value_bin :: "pystr option"

definition aerospike_key_from_route :: "pystr \<Rightarrow> pystr \<Rightarrow> pystr" where
  "aerospike_key_from_route redis_key pat =
     (if count_list pat 42 \<noteq> 1 then redis_key
      else if 63 \<in> set pat \<or> 91 \<in> set pat then redis_key
      else
        let parts = py_split_max 42 1 pat; left = parts ! 0; right = parts ! 1
        in if \<not> fnmatch redis_key pat then redis_key
           else if right = [] then
             (let body = drop (length left) redis_key in if body \<noteq> [] then body else redis_key)
           else if left = [] then
             (if \<not> endswith redis_key right then redis_key
              else let body = take (length redis_key - length right) redis_key
                   in if body \<noteq> [] then body else redis_key)
           else if \<not> (startswith redis_key left \<and> endswith redis_key right) then redis_key
           else
             (let body = drop (length left) (take (length redis_key - length right) redis_key)
              in if body \<noteq> [] then body else redis_key))"

record SetRouter =
  sr_routes :: "AerospikeSetRoute list"
  sr_default :: pystr

definition SetRouter_init :: "AerospikeSetRoute list \<Rightarrow> pystr \<Rightarrow> SetRouter" where
  "SetRouter_init routes default_set_name = \<lparr>sr_routes = routes, sr_default = default_set_name\<rparr>"

fun resolve_text :: "AerospikeSetRoute list \<Rightarrow> pystr \<Rightarrow> pystr \<Rightarrow> RouteResolution" where
  "resolve_text [] dflt key =
     \<lparr>rs_set_name = dflt, rs_key = KStr key, rs_hash_strategy = None, rs_value_bin = None\<rparr>"
| "resolve_text (route # routes) dflt key =
     (if fnmatch key (pattern route) then
        \<lparr>rs_set_name = destination route, rs_key = KStr (aerospike_key_from_route key (pattern route)),
         rs_hash_strategy = route_hash_strategy route, rs_value_bin = route_value_bin route\<rparr>
      else resolve_text routes dflt key)"

definition SetRouter_resolve :: "SetRouter \<Rightarrow> pykey \<Rightarrow> RouteResolution" where
  "SetRouter_resolve router key =
     (case key of
        KBytes b \<Rightarrow>
          \<lparr>rs_set_name = sr_default router, rs_key = key, rs_hash_strategy = None, rs_value_bin = None\<rparr>
      | KStr k \<Rightarrow> resolve_text (sr_routes router) (sr_default router) k)"

section \<open>Single-star patterns\<close>

text \<open>Exactly the patterns that are rewritten: literal text around one star.\<close>

definition single_star :: "pystr \<Rightarrow> bool" where
  "single_star pat \<longleftrightarrow> count_list pat 42 = 1 \<and> 63 \<notin> set pat \<and> 91 \<notin> set pat"

lemma split_single_star: "42 \<notin> set l \<Longrightarrow> py_split_max 42 1 (l @ 42 # r) = [l, r]"
  by (induction l) auto

lemma single_star_iff: "single_star pat \<longleftrightarrow> (\<exists>l r. pat = l @ 42 # r \<and> literal l \<and> literal r)"
proof
  assume s: "single_star pat"
  then have "42 \<in> set pat" using count_list_0_iff [of pat 42] by (auto simp: single_star_def)
  then obtain l r where "pat = l @ 42 # r" "42 \<notin> set l" by (auto dest: split_list_first)
  then show "\<exists>l r. pat = l @ 42 # r \<and> literal l \<and> literal r"
    using s by (intro exI [of _ l] exI [of _ r]) (auto simp: single_star_def literal_def count_list_0_iff)
qed (auto simp: single_star_def literal_def count_list_0_iff)

lemma key_from_route_full: "\<not> single_star pat \<or> \<not> fnmatch k pat \<Longrightarrow> aerospike_key_from_route k pat = k"
  by (auto simp: aerospike_key_from_route_def single_star_def Let_def)

lemma key_from_route_star:
  assumes "literal l" "literal r"
  shows "aerospike_key_from_route (l @ b @ r) (l @ 42 # r) = (if b = [] then l @ r else b)"
proof -
  have m: "fnmatch (l @ b @ r) (l @ 42 # r)" using fnmatch_single_star [OF assms] by blast
  have c: "count_list (l @ 42 # r) 42 = 1" "63 \<notin> set (l @ 42 # r)" "91 \<notin> set (l @ 42 # r)"
    using assms by (auto simp: literal_def count_list_0_iff)
  have s: "py_split_max 42 1 (l @ 42 # r) = [l, r]"
    using assms by (intro split_single_star) (simp add: literal_def)
  show ?thesis
    unfolding aerospike_key_from_route_def s using m c
    by (auto simp: Let_def startswith_iff endswith_iff)
qed

section \<open>Resolution\<close>

lemma resolve_text_none:
  "list_all (\<lambda>route. \<not> fnmatch k (pattern route)) routes \<Longrightarrow>
   resolve_text routes dflt k = \<lparr>rs_set_name = dflt, rs_key = KStr k, rs_hash_strategy = None, rs_value_bin = None\<rparr>"
  by (induction routes) auto

lemma resolve_text_append:
  "list_all (\<lambda>route. \<not> fnmatch k (pattern route)) pre \<Longrightarrow>
   resolve_text (pre @ routes) dflt k = resolve_text routes dflt k"
  by (induction pre) auto

lemma key_from_route_nonempty:
  assumes "k \<noteq> []"
  shows "aerospike_key_from_route k pat \<noteq> []"
  using assms by (auto simp: aerospike_key_from_route_def Let_def)

lemma resolve_set_nonempty:
  assumes "list_all valid_route routes" "dflt \<noteq> []"
  shows "rs_set_name (SetRouter_resolve (SetRouter_init routes dflt) key) \<noteq> []"
proof -
  have "rs_set_name (resolve_text routes dflt k) \<noteq> []" for k
    using assms by (induction routes) (auto simp: valid_route_def)
  then show ?thesis using assms(2) by (simp add: SetRouter_resolve_def SetRouter_init_def split: pykey.splits)
qed

section \<open>Properties\<close>

text \<open>
  C22 The first route whose pattern matches the key decides: the set is its destination, the hash
  strategy and the value bin are its overrides, and the key is the text its single star matched or
  else the whole key.
\<close>

theorem resolve_first_match:
  assumes "sr_routes router = pre @ route # post"
    and "list_all (\<lambda>q. \<not> fnmatch k (pattern q)) pre" "fnmatch k (pattern route)"
  shows "SetRouter_resolve router (KStr k) =
     \<lparr>rs_set_name = destination route, rs_key = KStr (aerospike_key_from_route k (pattern route)),
      rs_hash_strategy = route_hash_strategy route, rs_value_bin = route_value_bin route\<rparr>"
  using assms by (simp add: SetRouter_resolve_def resolve_text_append)

theorem resolve_first_match_witness:
  "SetRouter_resolve (SetRouter_init
      [\<lparr>pattern = [97, 42], destination = L ''a'', route_hash_strategy = None, route_value_bin = None\<rparr>,
       \<lparr>pattern = [42], destination = L ''b'', route_hash_strategy = None, route_value_bin = None\<rparr>] (L ''d''))
     (KStr [98]) =
   \<lparr>rs_set_name = L ''b'', rs_key = KStr (aerospike_key_from_route [98] [42]), rs_hash_strategy = None, rs_value_bin = None\<rparr>"
proof -
  let ?a = "\<lparr>pattern = [97, 42], destination = L ''a'', route_hash_strategy = None, route_value_bin = None\<rparr>"
  let ?b = "\<lparr>pattern = [42], destination = L ''b'', route_hash_strategy = None, route_value_bin = None\<rparr>"
  have "\<not> fnmatch [98] [97, 42]"
    using fnmatch_single_star [of "[97]" "[]" "[98]"] by (simp add: literal_def)
  then show ?thesis
    using resolve_first_match [of "SetRouter_init [?a, ?b] (L ''d'')" "[?a]" ?b "[]" "[98]"] fnmatch_star_all
    by (simp add: SetRouter_init_def)
qed

text \<open>
  A key that no pattern matches, and every key that is not valid UTF-8, goes to the default set
  under its full name and without overrides.
\<close>

lemma resolve_default:
  assumes "case key of KStr k \<Rightarrow> list_all (\<lambda>q. \<not> fnmatch k (pattern q)) (sr_routes router) | KBytes b \<Rightarrow> True"
  shows "SetRouter_resolve router key =
     \<lparr>rs_set_name = sr_default router, rs_key = key, rs_hash_strategy = None, rs_value_bin = None\<rparr>"
  using assms by (simp add: SetRouter_resolve_def resolve_text_none split: pykey.splits)

text \<open>
  C21 Shortening a key: a pattern made of literal text around one star yields exactly the text the
  star matched, or the full key when that text is empty; every other pattern keeps the full key,
  and a key that is not empty never becomes empty.
\<close>

theorem route_key_spec:
  "aerospike_key_from_route k pat =
     (if single_star pat \<and> fnmatch k pat then
        (let l = takeWhile ((\<noteq>) 42) pat; r = drop (length l + 1) pat;
             b = drop (length l) (take (length k - length r) k)
         in if b = [] then k else b)
      else k) \<and>
   (aerospike_key_from_route k pat = [] \<longleftrightarrow> k = [])"
proof (cases "single_star pat \<and> fnmatch k pat")
  case True
  then obtain l r where pat: "pat = l @ 42 # r" and lit: "literal l" "literal r"
    by (auto simp: single_star_iff)
  obtain b where k: "k = l @ b @ r" using True fnmatch_single_star [OF lit] pat by blast
  have "takeWhile ((\<noteq>) 42) pat = l" using lit by (auto simp: pat literal_def takeWhile_append)
  then have "aerospike_key_from_route k pat =
      (let l = takeWhile ((\<noteq>) 42) pat; r = drop (length l + 1) pat;
             b = drop (length l) (take (length k - length r) k)
         in if b = [] then k else b)"
    unfolding pat k key_from_route_star [OF lit] by (simp add: Let_def)
  then show ?thesis using True key_from_route_nonempty [of k pat] by (auto simp: Let_def)
next
  case False
  then show ?thesis using key_from_route_full by auto
qed

text \<open>
  C20 Two different keys that match one single-star pattern are shortened to the same key in exactly
  one situation: one of them is the pattern with nothing for the star, and the other is the pattern
  with that whole text for the star. So with \<^verbatim>\<open>foo*\<close> the keys \<^verbatim>\<open>foo\<close> and \<^verbatim>\<open>foofoo\<close> share one record.
\<close>

theorem route_key_collision:
  assumes "literal l" "literal r" "fnmatch k1 (l @ 42 # r)" "fnmatch k2 (l @ 42 # r)" "k1 \<noteq> k2"
  shows "aerospike_key_from_route k1 (l @ 42 # r) = aerospike_key_from_route k2 (l @ 42 # r) \<longleftrightarrow>
    {k1, k2} = {l @ r, l @ (l @ r) @ r}"
proof -
  obtain b1 b2 where k: "k1 = l @ b1 @ r" "k2 = l @ b2 @ r"
    using assms(3,4) fnmatch_single_star [OF assms(1,2)] by blast
  have "b1 \<noteq> b2" using assms(5) k by auto
  then show ?thesis unfolding k key_from_route_star [OF assms(1,2)]
    by (auto simp: doubleton_eq_iff)
qed

theorem route_key_collision_witness:
  "aerospike_key_from_route (L ''foo'') (L ''foo*'') = aerospike_key_from_route (L ''foofoo'') (L ''foo*'')"
proof -
  have foo: "L ''foo'' = [102, 111, 111]" "L ''foofoo'' = [102, 111, 111, 102, 111, 111]"
    "L ''foo*'' = [102, 111, 111, 42]" by (simp_all add: L_def)
  have lit: "literal [102, 111, 111]" "literal []" by (simp_all add: literal_def)
  from fnmatch_single_star [OF lit]
  have "fnmatch [102, 111, 111] ([102, 111, 111] @ [42])" "fnmatch [102, 111, 111, 102, 111, 111] ([102, 111, 111] @ [42])"
    by simp_all
  then show ?thesis using route_key_collision [OF lit, of "[102, 111, 111]" "[102, 111, 111, 102, 111, 111]"]
    by (simp add: foo)
qed

end
