(* ===== verification/Stats.thy ===== *)
theory Stats
  imports Py_Str "HOL-Library.Multiset"
begin

text \<open>
  Progress counters (\<^verbatim>\<open>stats.py\<close>). Each method holds the lock while it updates or copies the
  counters, so it is one step. The clock is read by the caller of the model: \<open>now\<close> is what
  \<^verbatim>\<open>time.monotonic()\<close> returns. Floating-point numbers are rationals and \<open>fl\<close> is the rounding of the
  result of an arithmetic operation.
\<close>

record MigrationStats =
  st_scanned :: int
  st_migrated :: int
  st_skipped :: int
  st_errors :: int
  st_skipped_by_type :: "(pystr, int) dict"
  st_errors_by_type :: "(pystr, int) dict"
  st_started_at :: "rat option"
  st_finished_at :: "rat option"

definition MigrationStats_init :: MigrationStats where
  "MigrationStats_init =
     \<lparr>st_scanned = 0, st_migrated = 0, st_skipped = 0, st_errors = 0, st_skipped_by_type = [],
      st_errors_by_type = [], st_started_at = None, st_finished_at = None\<rparr>"

definition stats_start :: "rat \<Rightarrow> MigrationStats \<Rightarrow> MigrationStats" where
  "stats_start now s = s\<lparr>st_started_at := Some now\<rparr>"

definition stats_finish :: "rat \<Rightarrow> MigrationStats \<Rightarrow> MigrationStats" where
  "stats_finish now s = s\<lparr>st_finished_at := Some now\<rparr>"

definition record_scanned :: "int \<Rightarrow> MigrationStats \<Rightarrow> MigrationStats" where
  "record_scanned n s = s\<lparr>st_scanned := st_scanned s + n\<rparr>"

definition record_migrated :: "int \<Rightarrow> MigrationStats \<Rightarrow> MigrationStats" where
  "record_migrated n s = s\<lparr>st_migrated := st_migrated s + n\<rparr>"

text \<open>\<^verbatim>\<open>d[reason] = d.get(reason, 0) + 1\<close>\<close>

definition count_in :: "pystr \<Rightarrow> (pystr, int) dict \<Rightarrow> (pystr, int) dict" where
  "count_in reason d = dict_set reason ((case dict_get d reason of Some n \<Rightarrow> n | None \<Rightarrow> 0) + 1) d"

definition record_skipped :: "pystr \<Rightarrow> MigrationStats \<Rightarrow> MigrationStats" where
  "record_skipped reason s =
     s\<lparr>st_skipped := st_skipped s + 1, st_skipped_by_type := count_in reason (st_skipped_by_type s)\<rparr>"

definition record_error :: "pystr \<Rightarrow> MigrationStats \<Rightarrow> MigrationStats" where
  "record_error reason s =
     s\<lparr>st_errors := st_errors s + 1, st_errors_by_type := count_in reason (st_errors_by_type s)\<rparr>"

definition elapsed_s :: "(rat \<Rightarrow> rat) \<Rightarrow> rat \<Rightarrow> MigrationStats \<Rightarrow> rat" where
  "elapsed_s fl now s =
     (case st_started_at s of
        None \<Rightarrow> 0
      | Some start \<Rightarrow>
          let end_t = (case st_finished_at s of Some t \<Rightarrow> t | None \<Rightarrow> now)
          in max 0 (fl (end_t - start)))"

definition throughput :: "(rat \<Rightarrow> rat) \<Rightarrow> rat \<Rightarrow> MigrationStats \<Rightarrow> rat" where
  "throughput fl now s =
     (let elapsed = elapsed_s fl now s
      in if 0 < elapsed then fl (of_int (st_migrated s) / elapsed) else 0)"

text \<open>\<^verbatim>\<open>f"{x:.df}"\<close>: the exact value rounded half to even at the last digit.\<close>

definition round_half_even :: "rat \<Rightarrow> int" where
  "round_half_even x =
     (let f = floor x; r = x - of_int f
      in if r < 1 / 2 then f else if 1 / 2 < r then f + 1 else if even f then f else f + 1)"

definition fmt_fixed :: "nat \<Rightarrow> rat \<Rightarrow> pystr" where
  "fmt_fixed d x =
     (let n = nat (round_half_even (\<bar>x\<bar> * 10 ^ d)); whole = str_nat (n div 10 ^ d);
          frac = str_nat (n mod 10 ^ d)
      in (if x < 0 then [45] else []) @ whole @
         (if d = 0 then [] else [46] @ replicate (d - length frac) 48 @ frac))"

definition stats_summary :: "(rat \<Rightarrow> rat) \<Rightarrow> rat \<Rightarrow> MigrationStats \<Rightarrow> pystr" where
  "stats_summary fl now s =
     L ''scanned='' @ str_int (st_scanned s) @ L '' migrated='' @ str_int (st_migrated s) @
     L '' skipped='' @ str_int (st_skipped s) @ L '' errors='' @ str_int (st_errors s) @
     L '' elapsed='' @ fmt_fixed 2 (elapsed_s fl now s) @
     L ''s throughput='' @ fmt_fixed 0 (throughput fl now s) @ L ''/s''"

definition progress_line :: "(rat \<Rightarrow> rat) \<Rightarrow> rat \<Rightarrow> MigrationStats \<Rightarrow> pystr" where
  "progress_line fl now s =
     L ''progress: scanned='' @ str_int (st_scanned s) @ L '' migrated='' @ str_int (st_migrated s) @
     L '' skipped='' @ str_int (st_skipped s) @ L '' errors='' @ str_int (st_errors s) @
     L '' throughput='' @ fmt_fixed 0 (throughput fl now s) @ L ''/s''"

definition breakdown_lines :: "string \<Rightarrow> (pystr, int) dict \<Rightarrow> pystr list" where
  "breakdown_lines title d =
     (if d = [] then []
      else L title # map (\<lambda>(reason, count). L ''    - '' @ reason @ L '': '' @ str_int count) (sort d))"

definition report_lines :: "(rat \<Rightarrow> rat) \<Rightarrow> rat \<Rightarrow> MigrationStats \<Rightarrow> pystr list" where
  "report_lines fl now s =
     [L ''migration summary'',
      L ''  scanned    : '' @ str_int (st_scanned s),
      L ''  migrated   : '' @ str_int (st_migrated s),
      L ''  skipped    : '' @ str_int (st_skipped s),
      L ''  errors     : '' @ str_int (st_errors s),
      L ''  elapsed    : '' @ fmt_fixed 2 (elapsed_s fl now s) @ L ''s'',
      L ''  throughput : '' @ fmt_fixed 0 (throughput fl now s) @ L '' records/s'']
     @ breakdown_lines ''  skipped by type:'' (st_skipped_by_type s)
     @ breakdown_lines ''  errors by type:'' (st_errors_by_type s)"

definition format_report :: "(rat \<Rightarrow> rat) \<Rightarrow> rat \<Rightarrow> MigrationStats \<Rightarrow> pystr" where
  "format_report fl now s = py_join [10] (report_lines fl now s)"

section \<open>Interleavings\<close>

text \<open>The updates that the threads of a run make.\<close>

datatype stat_event = Scanned int | Migrated int | Skipped pystr | Errored pystr

fun stat_apply :: "stat_event \<Rightarrow> MigrationStats \<Rightarrow> MigrationStats" where
  "stat_apply (Scanned n) s = record_scanned n s"
| "stat_apply (Migrated n) s = record_migrated n s"
| "stat_apply (Skipped r) s = record_skipped r s"
| "stat_apply (Errored r) s = record_error r s"

definition stat_run :: "stat_event list \<Rightarrow> MigrationStats \<Rightarrow> MigrationStats" where
  "stat_run es s = fold stat_apply es s"

text \<open>The breakdown of a counter: reasons once, each at least once, adding up to the counter.\<close>

definition breakdown_ok :: "int \<Rightarrow> (pystr, int) dict \<Rightarrow> bool" where
  "breakdown_ok n d \<longleftrightarrow> dict_wf d \<and> list_all (\<lambda>p. 0 < snd p) d \<and> sum_list (map snd d) = n"

definition stats_wf :: "MigrationStats \<Rightarrow> bool" where
  "stats_wf s \<longleftrightarrow>
     breakdown_ok (st_skipped s) (st_skipped_by_type s) \<and> breakdown_ok (st_errors s) (st_errors_by_type s)"

definition count_of :: "(pystr, int) dict \<Rightarrow> pystr \<Rightarrow> int" where
  "count_of d r = (case dict_get d r of Some n \<Rightarrow> n | None \<Rightarrow> 0)"

lemma count_in_get: "dict_get (count_in r d) q = (if q = r then Some (count_of d r + 1) else dict_get d q)"
  by (simp add: count_in_def count_of_def kget_kset)

lemma count_of_count_in: "count_of (count_in r d) q = count_of d q + (if q = r then 1 else 0)"
  using count_in_get [of r d q] by (simp add: count_of_def split: option.splits)

lemma sum_dict_set:
  "dict_wf d \<Longrightarrow> sum_list (map snd (dict_set r n d)) = sum_list (map snd d) - count_of d r + n"
proof (induction d)
  case (Cons p d)
  then have "dict_wf d" by (simp add: kwf_def)
  then show ?case using Cons by (cases p) (auto simp: count_of_def kwf_def)
qed (simp add: count_of_def)

lemma count_in_ok:
  assumes "breakdown_ok n d"
  shows "breakdown_ok (n + 1) (count_in r d)"
proof -
  have "0 \<le> count_of d r"
    using assms by (auto simp: count_of_def breakdown_ok_def list_all_iff split: option.splits dest!: kget_SomeD)
  then show ?thesis
    using assms sum_dict_set [of d r]
    by (auto simp: breakdown_ok_def count_in_def kwf_kset list_all_kset simp flip: count_of_def)
qed

lemmas stat_ops = record_scanned_def record_migrated_def record_skipped_def record_error_def

lemma stat_apply_wf: "stats_wf s \<Longrightarrow> stats_wf (stat_apply e s)"
  by (cases e) (auto simp: stats_wf_def stat_ops count_in_ok)

lemma stat_run_wf: "stats_wf s \<Longrightarrow> stats_wf (stat_run es s)"
  unfolding stat_run_def by (induction es arbitrary: s) (auto simp: stat_apply_wf)

lemma stats_init_wf: "stats_wf MigrationStats_init" "stats_wf (stats_start t MigrationStats_init)"
  by (simp_all add: stats_wf_def breakdown_ok_def MigrationStats_init_def stats_start_def kwf_def)

text \<open>What a run adds to each counter.\<close>

fun scanned_by :: "stat_event \<Rightarrow> int" where
  "scanned_by (Scanned n) = n"
| "scanned_by e = 0"

fun migrated_by :: "stat_event \<Rightarrow> int" where
  "migrated_by (Migrated n) = n"
| "migrated_by e = 0"

lemma stat_run_counts:
  "st_scanned (stat_run es s) = st_scanned s + sum_mset (image_mset scanned_by (mset es))"
  "st_migrated (stat_run es s) = st_migrated s + sum_mset (image_mset migrated_by (mset es))"
  "count_of (st_skipped_by_type (stat_run es s)) r = count_of (st_skipped_by_type s) r + int (count (mset es) (Skipped r))"
  "count_of (st_errors_by_type (stat_run es s)) r = count_of (st_errors_by_type s) r + int (count (mset es) (Errored r))"
  "st_started_at (stat_run es s) = st_started_at s" "st_finished_at (stat_run es s) = st_finished_at s"
proof -
  have "st_scanned (stat_apply e s) = st_scanned s + scanned_by e \<and>
      st_migrated (stat_apply e s) = st_migrated s + migrated_by e \<and>
      count_of (st_skipped_by_type (stat_apply e s)) r = count_of (st_skipped_by_type s) r + (if e = Skipped r then 1 else 0) \<and>
      count_of (st_errors_by_type (stat_apply e s)) r = count_of (st_errors_by_type s) r + (if e = Errored r then 1 else 0) \<and>
      st_started_at (stat_apply e s) = st_started_at s \<and> st_finished_at (stat_apply e s) = st_finished_at s" for e s
    by (cases e) (auto simp: stat_ops count_of_count_in)
  then show "st_scanned (stat_run es s) = st_scanned s + sum_mset (image_mset scanned_by (mset es))"
    "st_migrated (stat_run es s) = st_migrated s + sum_mset (image_mset migrated_by (mset es))"
    "count_of (st_skipped_by_type (stat_run es s)) r = count_of (st_skipped_by_type s) r + int (count (mset es) (Skipped r))"
    "count_of (st_errors_by_type (stat_run es s)) r = count_of (st_errors_by_type s) r + int (count (mset es) (Errored r))"
    "st_started_at (stat_run es s) = st_started_at s" "st_finished_at (stat_run es s) = st_finished_at s"
    unfolding stat_run_def by (induction es arbitrary: s) auto
qed

lemma breakdown_determined:
  assumes "breakdown_ok m d" "breakdown_ok n e" "\<And>r. count_of d r = count_of e r"
  shows "mset d = mset e"
proof -
  have mem: "(r, k) \<in> set d \<longleftrightarrow> 0 < k \<and> count_of d r = k" if "breakdown_ok n d" for n d r k
  proof
    assume "(r, k) \<in> set d"
    then show "0 < k \<and> count_of d r = k"
      using that kget_in_set [of "\<lambda>k. k" d r k] by (auto simp: breakdown_ok_def count_of_def list_all_iff)
  next
    assume "0 < k \<and> count_of d r = k"
    then have "dict_get d r = Some k" by (auto simp: count_of_def split: option.splits)
    then show "(r, k) \<in> set d" using kget_SomeD by fastforce
  qed
  have "set d = set e" using mem [OF assms(1)] mem [OF assms(2)] assms(3) by auto
  moreover have "distinct d" "distinct e"
    using assms(1,2) by (auto simp: breakdown_ok_def kwf_def distinct_map)
  ultimately show ?thesis by (simp add: set_eq_iff_mset_eq_distinct)
qed

section \<open>Properties\<close>

text \<open>
  C27 After any sequence of updates, the breakdowns are consistent with the counters: the counts by
  reason are positive, name each reason once and add up to the skipped and failed totals, and each
  is the number of times its reason was recorded.
\<close>

theorem stats_breakdown:
  "stats_wf (stat_run es MigrationStats_init) \<and>
   count_of (st_skipped_by_type (stat_run es MigrationStats_init)) r = int (count (mset es) (Skipped r)) \<and>
   count_of (st_errors_by_type (stat_run es MigrationStats_init)) r = int (count (mset es) (Errored r))"
proof -
  have "count_of (st_skipped_by_type MigrationStats_init) r = 0" "count_of (st_errors_by_type MigrationStats_init) r = 0"
    by (simp_all add: MigrationStats_init_def count_of_def)
  then show ?thesis using stat_run_wf [OF stats_init_wf(1)] stat_run_counts by simp
qed

text \<open>
  C28 The report does not depend on how the updates of the threads interleave: two orders of the
  same updates give the same text.
\<close>

theorem report_interleaving:
  assumes "mset es = mset fs" "stats_wf s"
  shows "format_report fl now (stat_run es s) = format_report fl now (stat_run fs s)"
proof -
  let ?a = "stat_run es s" and ?b = "stat_run fs s"
  have wf: "stats_wf ?a" "stats_wf ?b" using stat_run_wf [OF assms(2)] by auto
  have m: "mset (st_skipped_by_type ?a) = mset (st_skipped_by_type ?b)"
    "mset (st_errors_by_type ?a) = mset (st_errors_by_type ?b)"
    using wf assms(1) by (auto simp: stats_wf_def stat_run_counts intro!: breakdown_determined)
  have n: "st_skipped ?a = st_skipped ?b" "st_errors ?a = st_errors ?b"
    using wf m by (auto simp: stats_wf_def breakdown_ok_def) (metis mset_map sum_mset_sum_list)+
  have lines: "breakdown_lines t d = breakdown_lines t e" if "mset d = mset e" for t d e
  proof -
    have "sort d = sort e" using that by (intro properties_for_sort) simp_all
    then show ?thesis using that by (auto simp: breakdown_lines_def)
  qed
  have c: "st_scanned ?a = st_scanned ?b" "st_migrated ?a = st_migrated ?b"
    "elapsed_s fl now ?a = elapsed_s fl now ?b"
    unfolding elapsed_s_def stat_run_counts assms(1) by (rule refl)+
  show ?thesis unfolding format_report_def report_lines_def throughput_def c n lines [OF m(1)] lines [OF m(2)] ..
qed

theorem report_interleaving_witness:
  "format_report (\<lambda>x. x) 5 (stat_run [Skipped [97], Migrated 1, Skipped [98]] (stats_start 0 MigrationStats_init)) =
   format_report (\<lambda>x. x) 5 (stat_run [Skipped [98], Skipped [97], Migrated 1] (stats_start 0 MigrationStats_init))"
  by (rule report_interleaving [OF _ stats_init_wf(2)]) simp

end
