(* ===== verification/Ratelimit.thy ===== *)
theory Ratelimit
  imports Complex_Main Prelude
begin

text \<open>
  The token bucket (\<^verbatim>\<open>ratelimit.py\<close>). A call reads the clock and updates the bucket under its lock, so
  calls are serialised; the sleep happens after the lock is released and is returned as the time to
  wait. Floating-point numbers are rationals and \<open>fl\<close> rounds the result of each arithmetic
  operation; \<open>exact\<close> is exact arithmetic.
\<close>

record TokenBucket =
  tb_rate :: rat
  tb_enabled :: bool
  tb_capacity :: rat
  tb_tokens :: rat
  tb_last :: rat

definition TokenBucket_init :: "rat \<Rightarrow> rat \<Rightarrow> rat option \<Rightarrow> TokenBucket" where
  "TokenBucket_init now rate capacity =
     (let cap = (case capacity of Some c \<Rightarrow> c | None \<Rightarrow> rate)
      in \<lparr>tb_rate = rate, tb_enabled = (0 < rate), tb_capacity = cap, tb_tokens = cap, tb_last = now\<rparr>)"

definition tb_acquire :: "(rat \<Rightarrow> rat) \<Rightarrow> TokenBucket \<Rightarrow> rat \<Rightarrow> rat \<Rightarrow> TokenBucket \<times> rat" where
  "tb_acquire fl b now tokens =
     (if \<not> tb_enabled b then (b, 0)
      else
        let elapsed = fl (now - tb_last b);
            refilled = min (tb_capacity b) (fl (tb_tokens b + fl (elapsed * tb_rate b)));
            wait = (if tokens \<le> refilled then 0 else fl (fl (tokens - refilled) / tb_rate b))
        in (b\<lparr>tb_last := now, tb_tokens := fl (refilled - tokens)\<rparr>, if 0 < wait then wait else 0))"

text \<open>
  A sequence of calls, each with the clock it reads and the tokens it takes; the result is the
  sequence of times at which the calls return.
\<close>

fun tb_run :: "(rat \<Rightarrow> rat) \<Rightarrow> TokenBucket \<Rightarrow> (rat \<times> rat) list \<Rightarrow> rat list" where
  "tb_run fl b [] = []"
| "tb_run fl b ((now, tokens) # calls) =
     (case tb_acquire fl b now tokens of (b', wait) \<Rightarrow> (now + wait) # tb_run fl b' calls)"

text \<open>The clock does not go back.\<close>

fun clock_ok :: "rat \<Rightarrow> (rat \<times> rat) list \<Rightarrow> bool" where
  "clock_ok t [] = True"
| "clock_ok t ((now, tokens) # calls) = (t \<le> now \<and> clock_ok now calls)"

section \<open>One call\<close>

definition exact :: "rat \<Rightarrow> rat" where
  "exact x = x"

lemma acquire_frame:
  "tb_acquire fl b now n = (b', wait) \<Longrightarrow>
     tb_rate b' = tb_rate b \<and> tb_capacity b' = tb_capacity b \<and> tb_enabled b' = tb_enabled b \<and> 0 \<le> wait"
  by (auto simp: tb_acquire_def Let_def split: if_splits)

text \<open>The balance after a call, and the time at which the call returns.\<close>

lemma acquire_exact:
  assumes "tb_acquire exact b now n = (b', wait)" "tb_enabled b" "0 < tb_rate b"
  shows "tb_tokens b' = min (tb_capacity b) (tb_tokens b + (now - tb_last b) * tb_rate b) - n"
    "tb_last b' = now" "wait = (if 0 \<le> tb_tokens b' then 0 else - tb_tokens b' / tb_rate b)"
proof -
  define r where "r = min (tb_capacity b) (tb_tokens b + (now - tb_last b) * tb_rate b)"
  have a: "b' = b\<lparr>tb_last := now, tb_tokens := r - n\<rparr>"
    "wait = (let w = if n \<le> r then 0 else (n - r) / tb_rate b in if 0 < w then w else 0)"
    using assms(1) unfolding tb_acquire_def Let_def exact_def r_def [symmetric] using assms(2) by auto
  show "tb_tokens b' = min (tb_capacity b) (tb_tokens b + (now - tb_last b) * tb_rate b) - n" "tb_last b' = now"
    by (simp_all add: a r_def)
  have "- (r - n) / tb_rate b = (n - r) / tb_rate b" by simp
  then show "wait = (if 0 \<le> tb_tokens b' then 0 else - tb_tokens b' / tb_rate b)"
    using assms(3) by (simp add: a Let_def)
qed

text \<open>
  What has been taken plus what is left is at most the initial balance plus what the elapsed time
  brings in.
\<close>

lemma run_bound:
  assumes "tb_enabled b" "0 < tb_rate b" "clock_ok (tb_last b) calls"
    and "i < length calls" "taken + tb_tokens b \<le> cap + tb_rate b * (tb_last b - t0)"
  shows "taken + sum_list (map snd (take (Suc i) calls)) \<le> cap + tb_rate b * (tb_run exact b calls ! i - t0)"
  using assms
proof (induction calls arbitrary: b i taken)
  case (Cons c calls)
  obtain now n where c: "c = (now, n)" by (cases c)
  obtain b' wait where a: "tb_acquire exact b now n = (b', wait)" by (cases "tb_acquire exact b now n")
  note e = acquire_exact [OF a Cons.prems(1,2)]
  have same: "tb_rate b' = tb_rate b" "tb_enabled b'" using acquire_frame [OF a] Cons.prems(1) by auto
  have step: "taken + n + tb_tokens b' \<le> cap + tb_rate b * (now - t0)"
    using Cons.prems(5) unfolding e(1) by (simp add: min_def algebra_simps)
  show ?case
  proof (cases i)
    case 0
    have "cap + tb_rate b * (now + wait - t0) = cap + tb_rate b * (now - t0) + tb_rate b * wait"
      by (simp add: algebra_simps)
    moreover have "- tb_tokens b' \<le> tb_rate b * wait"
      using Cons.prems(2) by (simp add: e(3))
    ultimately show ?thesis using step by (simp add: 0 c a)
  next
    case (Suc j)
    have "taken + n + sum_list (map snd (take (Suc j) calls)) \<le> cap + tb_rate b' * (tb_run exact b' calls ! j - t0)"
      using Cons.prems Cons.IH [of b' j "taken + n"] step same by (simp add: c Suc e(2))
    then show ?thesis by (simp add: c a Suc same add.assoc)
  qed
qed simp

section \<open>Properties\<close>

text \<open>
  A disabled bucket (a rate of zero or less) never waits and never changes.
\<close>

lemma bucket_disabled:
  assumes "rate \<le> 0"
  shows "tb_acquire fl (TokenBucket_init t rate cap) now n = (TokenBucket_init t rate cap, 0)"
  using assms by (simp add: tb_acquire_def TokenBucket_init_def Let_def)

text \<open>
  The balance never exceeds the capacity less what was just taken, so idle time cannot build up
  an unlimited burst, and a call that finds enough tokens does not wait. Both hold whatever the
  rounding of the arithmetic.
\<close>

lemma bucket_burst:
  assumes "mono fl" "tb_enabled b" "tb_acquire fl b now n = (b', wait)"
  shows "tb_tokens b' \<le> fl (tb_capacity b - n) \<and>
    (n \<le> min (tb_capacity b) (fl (tb_tokens b + fl (fl (now - tb_last b) * tb_rate b))) \<longrightarrow> wait = 0)"
  using assms by (auto simp: tb_acquire_def Let_def intro!: monoD [OF assms(1)] split: if_splits)

text \<open>
  C23 The limit holds in aggregate: in exact arithmetic, for every sequence of calls on a
  non-decreasing clock, the tokens taken up to and including a call never exceed the capacity plus
  the rate times the time from the creation of the bucket until that call returns, although callers
  sleep outside the lock.
\<close>

theorem bucket_rate_bound:
  assumes "0 < rate" "clock_ok t0 calls" "i < length calls"
  shows "sum_list (map snd (take (Suc i) calls)) \<le>
    tb_capacity (TokenBucket_init t0 rate cap) + rate * (tb_run exact (TokenBucket_init t0 rate cap) calls ! i - t0)"
  using run_bound [of "TokenBucket_init t0 rate cap" calls i 0 "tb_capacity (TokenBucket_init t0 rate cap)" t0] assms
  by (simp add: TokenBucket_init_def Let_def)

theorem bucket_rate_bound_witness:
  "2 \<le> 1 + 1 * (tb_run exact (TokenBucket_init 0 1 None) [(0, 1), (0, 1)] ! 1 - 0)"
  using bucket_rate_bound [of 1 0 "[(0, 1), (0, 1)]" 1 None] by (simp add: TokenBucket_init_def)

end
