(* ===== verification/Source.thy ===== *)
theory Source
  imports Models Config
begin

text \<open>
  The read side (\<^verbatim>\<open>redis_source.py\<close>): the client arguments, the server information, and the stream of
  records made from the scanned keys with two pipelined reads per batch.

  The Redis client is not part of the program: it is a record of its methods over a state of the
  server and the connection, each of which may raise. Its replies are the values of the model.
\<close>

section \<open>The client\<close>

datatype command =
    CType bytes | CPttl bytes | CGet bytes | CHgetall bytes | CLrange bytes | CSmembers bytes
  | CZrange bytes | CExists bytes

text \<open>
  \<open>rd_scan_iter\<close> is the iterator of the cluster client: the keys it yields and the exception that
  ends it early, if any. \<open>rd_pipeline\<close> executes a pipeline and returns one reply per command.
\<close>

record 'w rclient =
  rd_scan :: "'w \<Rightarrow> int \<Rightarrow> pystr \<Rightarrow> int \<Rightarrow> (int \<times> bytes list) res \<times> 'w"
  rd_scan_iter :: "'w \<Rightarrow> pystr \<Rightarrow> int \<Rightarrow> (bytes list \<times> py_exn option) \<times> 'w"
  rd_pipeline :: "'w \<Rightarrow> command list \<Rightarrow> redis_value list res \<times> 'w"
  rd_dbsize :: "'w \<Rightarrow> pyval res \<times> 'w"
  rd_info :: "'w \<Rightarrow> pystr \<Rightarrow> pyval res \<times> 'w"
  rd_ping :: "'w \<Rightarrow> pyval res \<times> 'w"
  rd_close :: "'w \<Rightarrow> unit res \<times> 'w"

section \<open>Client arguments\<close>

text \<open>The keyword arguments of the client; timeouts are rationals.\<close>

datatype kwarg = KwBool bool | KwInt int | KwText pystr | KwNum rat

definition put_opt :: "string \<Rightarrow> ('a \<Rightarrow> kwarg) \<Rightarrow> 'a option \<Rightarrow> (pystr, kwarg) dict \<Rightarrow> (pystr, kwarg) dict" where
  "put_opt name wrap v d = (case v of Some x \<Rightarrow> dict_set (L name) (wrap x) d | None \<Rightarrow> d)"

definition redis_client_params :: "RedisConfig \<Rightarrow> bool \<times> pystr option \<times> (pystr, kwarg) dict" where
  "redis_client_params config =
     (let k0 = [(L ''decode_responses'', KwBool False)];
          k1 = put_opt ''socket_timeout'' KwNum (rc_socket_timeout config) k0;
          k2 = put_opt ''socket_connect_timeout'' KwNum (rc_socket_connect_timeout config) k1
      in case opt_text (rc_url config) of
           Some url \<Rightarrow> (rc_cluster config, Some url, k2)
         | None \<Rightarrow>
             let k3 = dict_set (L ''port'') (KwInt (rc_port config))
                        (dict_set (L ''host'') (KwText (rc_host config)) k2);
                 k4 = put_opt ''username'' KwText (opt_text (rc_username config)) k3;
                 k5 = put_opt ''password'' KwText (opt_text (rc_password config)) k4;
                 k6 = (if \<not> rc_cluster config then dict_set (L ''db'') (KwInt (rc_db config)) k5 else k5);
                 k7 = (if rc_ssl config then
                         fold (\<lambda>(key, v). put_opt key KwText v)
                           [(''ssl_ca_certs'', rc_ssl_ca_certs config), (''ssl_certfile'', rc_ssl_certfile config),
                            (''ssl_keyfile'', rc_ssl_keyfile config), (''ssl_cert_reqs'', rc_ssl_cert_reqs config)]
                           (dict_set (L ''ssl'') (KwBool True) k6)
                       else k6)
             in (rc_cluster config, None, k7))"

section \<open>The source\<close>

record 'w RedisSource =
  rs_config :: RedisConfig
  rs_client :: "'w rclient"

definition rs_cluster :: "'w RedisSource \<Rightarrow> bool" where
  "rs_cluster self = rc_cluster (rs_config self)"

text \<open>
  Without a client, one is made from the arguments by the constructor of the library that the
  cluster flag selects, \<open>connect\<close> here.
\<close>

definition RedisSource_init ::
    "(bool \<times> pystr option \<times> (pystr, kwarg) dict \<Rightarrow> 'w rclient res) \<Rightarrow> RedisConfig \<Rightarrow> 'w rclient option \<Rightarrow>
     'w RedisSource res"
where
  "RedisSource_init connect config client =
     (case client of
        Some c \<Rightarrow> Inr \<lparr>rs_config = config, rs_client = c\<rparr>
      | None \<Rightarrow> rmap (\<lambda>c. \<lparr>rs_config = config, rs_client = c\<rparr>) (connect (redis_client_params config)))"

definition source_ping :: "'w RedisSource \<Rightarrow> 'w \<Rightarrow> bool res \<times> 'w" where
  "source_ping self w = (case rd_ping (rs_client self) w of (r, w') \<Rightarrow> (rmap py_true r, w'))"

definition source_close :: "'w RedisSource \<Rightarrow> 'w \<Rightarrow> 'w" where
  "source_close self w = snd (rd_close (rs_client self) w)"

subsection \<open>Server information\<close>

fun dict_of :: "pyval \<Rightarrow> (pyscalar \<times> pyval) list option" where
  "dict_of (PDict d) = Some d"
| "dict_of (PKeyOrdered d) = Some d"
| "dict_of v = None"

fun int_of :: "pyval \<Rightarrow> int option" where
  "int_of (PS (SInt i)) = Some i"
| "int_of (PS (SBool b)) = Some (if b then 1 else 0)"
| "int_of v = None"

definition info_nodes :: "'w RedisSource \<Rightarrow> 'w \<Rightarrow> string \<Rightarrow> (pyscalar \<times> pyval) list list res \<times> 'w" where
  "info_nodes self w sect =
     (case rd_info (rs_client self) w (L sect) of
        (Inl e, w') \<Rightarrow> (Inl e, w')
      | (Inr raw, w') \<Rightarrow>
          (Inr (case dict_of raw of
                  None \<Rightarrow> []
                | Some d \<Rightarrow>
                    if rs_cluster self \<and> d \<noteq> [] \<and> list_all (\<lambda>(k, v). dict_of v \<noteq> None) d
                    then map (\<lambda>(k, v). the (dict_of v)) d else [d]), w'))"

definition info_keys :: "pyval \<Rightarrow> pyval" where
  "info_keys dbsize =
     (case dict_of dbsize of
        Some d \<Rightarrow> PS (SInt (sum_list (List.map_filter (\<lambda>(k, v). int_of v) d)))
      | None \<Rightarrow> dbsize)"

definition info_memory :: "(pyscalar \<times> pyval) list list \<Rightarrow> (pystr, pyval) dict \<Rightarrow> (pystr, pyval) dict" where
  "info_memory nodes info =
     (let used = List.map_filter (\<lambda>n. int_of (doc_get n ''used_memory'')) nodes
      in if used = [] then info
         else dict_set (L ''used_memory_human'')
                (if length nodes = 1 then doc_get (hd nodes) ''used_memory_human''
                 else PS (SStr (str_int (sum_list used) @ L ''B'')))
                (dict_set (L ''used_memory'') (PS (SInt (sum_list used))) info))"

definition info_version :: "(pyscalar \<times> pyval) list list \<Rightarrow> (pystr, pyval) dict \<Rightarrow> (pystr, pyval) dict" where
  "info_version nodes info =
     (case find (\<lambda>n. py_true (doc_get n ''redis_version'')) nodes of
        Some n \<Rightarrow> dict_set (L ''redis_version'') (doc_get n ''redis_version'') info
      | None \<Rightarrow> info)"

text \<open>The counts of expiring keys, integers in the replies of Redis, are added up; any other count is taken to raise, and then none is reported.\<close>

definition info_expires :: "pystr \<Rightarrow> (pyscalar \<times> pyval) list list \<Rightarrow> (pystr, pyval) dict \<Rightarrow> (pystr, pyval) dict" where
  "info_expires db nodes info =
     (let counts = List.map_filter (\<lambda>n.
            case sdict_get n (SStr db) of
              None \<Rightarrow> None
            | Some v \<Rightarrow>
                (case dict_of v of
                   None \<Rightarrow> None
                 | Some db_stats \<Rightarrow>
                     let x = doc_get db_stats ''expires'' in if x = PS SNone then None else Some x)) nodes
      in if counts = [] \<or> (\<exists>x \<in> set counts. int_of x = None) then info
         else dict_set (L ''expires'') (PS (SInt (sum_list (map (\<lambda>x. the (int_of x)) counts)))) info)"

definition source_server_info :: "'w RedisSource \<Rightarrow> 'w \<Rightarrow> (pystr, pyval) dict \<times> 'w" where
  "source_server_info self w =
     (case rd_dbsize (rs_client self) w of
        (r1, w1) \<Rightarrow>
          let i1 = (case r1 of Inr v \<Rightarrow> [(L ''keys'', info_keys v)] | Inl e \<Rightarrow> [])
          in case info_nodes self w1 ''memory'' of
               (r2, w2) \<Rightarrow>
                 let i2 = (case r2 of Inr nodes \<Rightarrow> info_memory nodes i1 | Inl e \<Rightarrow> i1)
                 in case info_nodes self w2 ''server'' of
                      (r3, w3) \<Rightarrow>
                        let i3 = (case r3 of Inr nodes \<Rightarrow> info_version nodes i2 | Inl e \<Rightarrow> i2)
                        in case info_nodes self w3 ''keyspace'' of
                             (r4, w4) \<Rightarrow>
                               (case r4 of
                                  Inr nodes \<Rightarrow> info_expires (L ''db'' @ str_int (rc_db (rs_config self))) nodes i3
                                | Inl e \<Rightarrow> i3, w4))"

subsection \<open>Reading a batch of keys\<close>

definition source_decode :: "pyscalar \<Rightarrow> pyscalar" where
  "source_decode value = (case value of SBytes b \<Rightarrow> SStr (utf8_decode_replace b) | v \<Rightarrow> v)"

definition decode_key :: "bytes \<Rightarrow> pykey" where
  "decode_key key = (case utf8_decode key of Some s \<Rightarrow> KStr s | None \<Rightarrow> KBytes key)"

definition is_vanished :: "pyscalar \<Rightarrow> redis_value \<Rightarrow> bool" where
  "is_vanished key_type value =
     (if key_type = SStr (L ''string'') then value = RScalar SNone
      else if key_type \<in> {SStr (L ''hash''), SStr (L ''list''), SStr (L ''set''), SStr (L ''zset'')}
      then \<not> redis_value_true value
      else False)"

text \<open>\<^verbatim>\<open>results[i]\<close>\<close>

definition reply_at :: "redis_value list \<Rightarrow> nat \<Rightarrow> redis_value res" where
  "reply_at results i = (if i < length results then Inr (results ! i) else Inl IndexError)"

text \<open>Replies to \<^verbatim>\<open>TYPE\<close> and \<^verbatim>\<open>PTTL\<close> are scalars.\<close>

fun reply_scalar :: "redis_value \<Rightarrow> pyscalar" where
  "reply_scalar (RScalar v) = v"
| "reply_scalar r = SNone"

definition ttl_of_reply :: "redis_value \<Rightarrow> int option" where
  "ttl_of_reply pttl =
     (case reply_scalar pttl of SInt i \<Rightarrow> if 0 \<le> i then Some i else None | _ \<Rightarrow> None)"

type_synonym types_dict = "(bytes, pyscalar) dict"
type_synonym ttls_dict = "(bytes, int option) dict"

fun collect_types ::
    "redis_value list \<Rightarrow> nat \<Rightarrow> bytes list \<Rightarrow> types_dict \<Rightarrow> ttls_dict \<Rightarrow> (types_dict \<times> ttls_dict) res"
where
  "collect_types results i [] types ttls = Inr (types, ttls)"
| "collect_types results i (key # keys) types ttls =
     rbind (reply_at results (i * 2)) (\<lambda>raw_type.
     rbind (reply_at results (i * 2 + 1)) (\<lambda>pttl.
       collect_types results (i + 1) keys
         (dict_set key (source_decode (reply_scalar raw_type)) types)
         (dict_set key (ttl_of_reply pttl) ttls)))"

definition fetch_types_and_ttls ::
    "'w rclient \<Rightarrow> 'w \<Rightarrow> bytes list \<Rightarrow> (types_dict \<times> ttls_dict) res \<times> 'w"
where
  "fetch_types_and_ttls c w keys =
     (case rd_pipeline c w (concat (map (\<lambda>key. [CType key, CPttl key]) keys)) of
        (Inl e, w') \<Rightarrow> (Inl e, w')
      | (Inr results, w') \<Rightarrow> (collect_types results 0 keys [] [], w'))"

definition value_command :: "pyscalar \<Rightarrow> bytes \<Rightarrow> command" where
  "value_command key_type key =
     (if key_type = SStr (L ''string'') then CGet key
      else if key_type = SStr (L ''hash'') then CHgetall key
      else if key_type = SStr (L ''list'') then CLrange key
      else if key_type = SStr (L ''set'') then CSmembers key
      else if key_type = SStr (L ''zset'') then CZrange key
      else CExists key)"

text \<open>\<^verbatim>\<open>d[key]\<close>\<close>

definition dict_at :: "('k, 'v) dict \<Rightarrow> 'k \<Rightarrow> 'v res" where
  "dict_at d k = (case dict_get d k of Some v \<Rightarrow> Inr v | None \<Rightarrow> Inl KeyError)"

definition fetch_values ::
    "'w rclient \<Rightarrow> 'w \<Rightarrow> bytes list \<Rightarrow> types_dict \<Rightarrow> (bytes, redis_value) dict res \<times> 'w"
where
  "fetch_values c w keys types =
     (case mapr (\<lambda>key. rmap (\<lambda>t. (key, t)) (dict_at types key)) keys of
        Inl e \<Rightarrow> (Inl e, w)
      | Inr typed \<Rightarrow>
          let ordered = filter (\<lambda>(key, t). t \<noteq> SStr (L ''none'')) typed
          in case rd_pipeline c w (map (\<lambda>(key, t). value_command t key) ordered) of
               (Inl e, w') \<Rightarrow> (Inl e, w')
             | (Inr results, w') \<Rightarrow> (Inr (kset_all (\<lambda>k. k) (zip (map fst ordered) results) []), w'))"

text \<open>
  The body of \<^verbatim>\<open>iter_records\<close> for one key. The type is a text, since \<^verbatim>\<open>TYPE\<close> replies with one.
\<close>

definition record_of_key ::
    "types_dict \<Rightarrow> ttls_dict \<Rightarrow> (bytes, redis_value) dict \<Rightarrow> bytes \<Rightarrow> RedisRecord option res"
where
  "record_of_key types ttls vals key =
     rbind (dict_at types key) (\<lambda>key_type.
       if key_type = SStr (L ''none'') then Inr None
       else case dict_get vals key of
              None \<Rightarrow> Inr None
            | Some value \<Rightarrow>
                if is_vanished key_type value then Inr None
                else rmap (\<lambda>ttl. Some \<lparr>rr_key = decode_key key, rr_type = scalar_str key_type,
                                       rr_value = value, rr_ttl_ms = ttl\<rparr>) (dict_at ttls key))"

text \<open>
  The records a batch yields, in order, and the exception that ends the iteration, if any.
\<close>

fun yield_records ::
    "types_dict \<Rightarrow> ttls_dict \<Rightarrow> (bytes, redis_value) dict \<Rightarrow> bytes list \<Rightarrow> RedisRecord list \<times> py_exn option"
where
  "yield_records types ttls vals [] = ([], None)"
| "yield_records types ttls vals (key # keys) =
     (case record_of_key types ttls vals key of
        Inl e \<Rightarrow> ([], Some e)
      | Inr r \<Rightarrow>
          (case yield_records types ttls vals keys of
             (rs, e) \<Rightarrow> (case r of Some x \<Rightarrow> x # rs | None \<Rightarrow> rs, e)))"

definition batch_records :: "'w rclient \<Rightarrow> 'w \<Rightarrow> bytes list \<Rightarrow> (RedisRecord list \<times> py_exn option) \<times> 'w" where
  "batch_records c w keys =
     (if keys = [] then (([], None), w)
      else case fetch_types_and_ttls c w keys of
        (Inl e, w1) \<Rightarrow> (([], Some e), w1)
      | (Inr (types, ttls), w1) \<Rightarrow>
          (case fetch_values c w1 keys types of
             (Inl e, w2) \<Rightarrow> (([], Some e), w2)
           | (Inr vals, w2) \<Rightarrow> (yield_records types ttls vals keys, w2)))"

subsection \<open>Walking the keyspace\<close>

text \<open>
  The standalone loop: \<^verbatim>\<open>SCAN\<close> until the cursor is zero, reading each page before the next one is
  asked for. The server decides how many pages there are, so the loop carries fuel and returns
  \<open>None\<close> when it runs out.
\<close>

fun scan_loop ::
    "nat \<Rightarrow> 'w RedisSource \<Rightarrow> 'w \<Rightarrow> int \<Rightarrow> int \<Rightarrow> ((RedisRecord list \<times> py_exn option) \<times> 'w) option"
where
  "scan_loop 0 self w batch_size cursor = None"
| "scan_loop (Suc fuel) self w batch_size cursor =
     (case rd_scan (rs_client self) w cursor (rc_scan_match (rs_config self)) batch_size of
        (Inl e, w1) \<Rightarrow> Some (([], Some e), w1)
      | (Inr (cursor', keys), w1) \<Rightarrow>
          (case batch_records (rs_client self) w1 keys of
             ((rs, Some e), w2) \<Rightarrow> Some ((rs, Some e), w2)
           | ((rs, None), w2) \<Rightarrow>
               if cursor' = 0 then Some ((rs, None), w2)
               else map_option (\<lambda>((rs', e), w3). ((rs @ rs', e), w3))
                      (scan_loop fuel self w2 batch_size cursor')))"

text \<open>
  The batches of the cluster iterator. When the iterator raises, the batch being filled is lost.
\<close>

fun cluster_batches :: "int \<Rightarrow> bool \<Rightarrow> bytes list \<Rightarrow> bytes list \<Rightarrow> bytes list list" where
  "cluster_batches batch_size raised batch [] = (if batch = [] \<or> raised then [] else [batch])"
| "cluster_batches batch_size raised batch (key # keys) =
     (if batch_size \<le> int (length (batch @ [key]))
      then (batch @ [key]) # cluster_batches batch_size raised [] keys
      else cluster_batches batch_size raised (batch @ [key]) keys)"

fun read_batches ::
    "'w rclient \<Rightarrow> 'w \<Rightarrow> bytes list list \<Rightarrow> (RedisRecord list \<times> py_exn option) \<times> 'w"
where
  "read_batches c w [] = (([], None), w)"
| "read_batches c w (keys # batches) =
     (case batch_records c w keys of
        ((rs, Some e), w1) \<Rightarrow> ((rs, Some e), w1)
      | ((rs, None), w1) \<Rightarrow>
          (case read_batches c w1 batches of ((rs', e), w2) \<Rightarrow> ((rs @ rs', e), w2)))"

definition iter_records ::
    "nat \<Rightarrow> 'w RedisSource \<Rightarrow> 'w \<Rightarrow> int \<Rightarrow> ((RedisRecord list \<times> py_exn option) \<times> 'w) option"
where
  "iter_records fuel self w batch_size =
     (if rs_cluster self then
        (case rd_scan_iter (rs_client self) w (rc_scan_match (rs_config self)) batch_size of
           ((keys, exn), w1) \<Rightarrow>
             (case read_batches (rs_client self) w1 (cluster_batches batch_size (exn \<noteq> None) [] keys) of
                ((rs, Some e), w2) \<Rightarrow> Some ((rs, Some e), w2)
              | ((rs, None), w2) \<Rightarrow> Some ((rs, exn), w2)))
      else scan_loop fuel self w batch_size 0)"

end
