(* ===== verification/Migrator.thy ===== *)
theory Migrator
  imports Converters Transforms Set_Routing Stats Ratelimit Source Sink
begin

text \<open>
  The migration pipeline (\<^verbatim>\<open>migrator.py\<close>): the handlers of a worker, and the concurrent run as a step
  relation. The producer is the calling thread; it streams records into a bounded queue and then
  sends one stop sentinel per worker. The workers share the registry, the statistics, the sink and
  the write limiter.
\<close>

section \<open>Handlers\<close>

text \<open>The sink as the migrator sees it (\<^verbatim>\<open>_Sink\<close>), over the state of the database.\<close>

record 'c sink_ops =
  sn_write :: "'c \<Rightarrow> AerospikeRecord \<Rightarrow> unit res \<times> 'c"
  sn_write_many :: "'c \<Rightarrow> AerospikeRecord list \<Rightarrow> pystr option list res \<times> 'c"

text \<open>What a migrator is built from and does not change.\<close>

record 'c Migrator =
  mg_config :: MigrationConfig
  mg_transforms :: "Transform list"
  mg_sink :: "'c sink_ops"

text \<open>The sink of the program behind that interface, and the constructor with its defaults.\<close>

definition aerospike_sink_ops :: "'c AerospikeSink \<Rightarrow> 'c sink_ops" where
  "aerospike_sink_ops self = \<lparr>sn_write = sink_write self, sn_write_many = write_many self\<rparr>"

definition Migrator_init :: "MigrationConfig \<Rightarrow> Transform list option \<Rightarrow> 'c AerospikeSink \<Rightarrow> 'c Migrator" where
  "Migrator_init config transforms sink =
     \<lparr>mg_config = config, mg_transforms = (case transforms of Some ts \<Rightarrow> ts | None \<Rightarrow> []),
      mg_sink = aerospike_sink_ops sink\<rparr>"

definition mg_batch_size :: "'c Migrator \<Rightarrow> int" where
  "mg_batch_size mg = max 1 (mc_write_batch_size (mg_config mg))"

definition mg_router :: "'c Migrator \<Rightarrow> SetRouter" where
  "mg_router mg =
     SetRouter_init (ac_set_routes (mc_aerospike (mg_config mg))) (ac_set_name (mc_aerospike (mg_config mg)))"

definition scan_limiter_init :: "rat \<Rightarrow> 'c Migrator \<Rightarrow> TokenBucket" where
  "scan_limiter_init now mg = TokenBucket_init now (mc_scan_rate_limit (mg_config mg)) None"

definition write_limiter_init :: "rat \<Rightarrow> 'c Migrator \<Rightarrow> TokenBucket" where
  "write_limiter_init now mg =
     TokenBucket_init now (mc_write_rate_limit (mg_config mg))
       (Some (max (mc_write_rate_limit (mg_config mg)) (of_int (mg_batch_size mg))))"

text \<open>
  \<^verbatim>\<open>_prepare\<close>: the record to write, nothing when it was skipped or failed to convert, or the exception
  of a transform, which is not caught here.
\<close>

definition route_record :: "'c Migrator \<Rightarrow> RouteResolution \<Rightarrow> RedisRecord \<Rightarrow> AerospikeRecord \<Rightarrow> AerospikeRecord" where
  "route_record mg resolution record ar =
     (let ar1 = (if rs_set_name resolution \<noteq> ac_set_name (mc_aerospike (mg_config mg))
                 then ar\<lparr>ar_set_name := Some (rs_set_name resolution)\<rparr> else ar)
      in if rs_key resolution \<noteq> rr_key record then ar1\<lparr>ar_key := rs_key resolution\<rparr> else ar1)"

text \<open>The conversion, with the strategy and the bin that the route overrides for hashes.\<close>

definition convert_routed ::
    "'c Migrator \<Rightarrow> ConverterRegistry \<Rightarrow> RouteResolution \<Rightarrow> RedisRecord \<Rightarrow> AerospikeRecord res \<times> ConverterRegistry"
where
  "convert_routed mg registry resolution record =
     (let effective_hash = (case rs_hash_strategy resolution of
                              Some h \<Rightarrow> h | None \<Rightarrow> mc_hash_strategy (mg_config mg));
          effective_value_bin =
            (if effective_hash = MAP_BIN
             then Some (case rs_value_bin resolution of
                          Some b \<Rightarrow> b | None \<Rightarrow> ac_value_bin (mc_aerospike (mg_config mg)))
             else None)
      in if rr_type record = L ''hash''
         then registry_convert registry record (Some effective_hash) effective_value_bin
         else registry_convert registry record None None)"

definition prepare ::
    "'c Migrator \<Rightarrow> ConverterRegistry \<Rightarrow> MigrationStats \<Rightarrow> RedisRecord \<Rightarrow>
     AerospikeRecord option res \<times> ConverterRegistry \<times> MigrationStats"
where
  "prepare mg registry stats record =
     (let resolution = SetRouter_resolve (mg_router mg) (rr_key record)
      in case convert_routed mg registry resolution record of
           (Inl exc, registry') \<Rightarrow>
             (Inr None, registry',
              if exc = UnsupportedTypeError then record_skipped (rr_type record) stats
              else record_error (L ''convert:'' @ exn_name exc) stats)
         | (Inr ar, registry') \<Rightarrow>
             (rmap (\<lambda>ar'. Some (route_record mg resolution record ar')) (apply_all ar (mg_transforms mg)),
              registry', stats))"

definition write_one ::
    "(rat \<Rightarrow> rat) \<Rightarrow> rat \<Rightarrow> 'c Migrator \<Rightarrow> TokenBucket \<Rightarrow> MigrationStats \<Rightarrow> 'c \<Rightarrow> AerospikeRecord \<Rightarrow>
     TokenBucket \<times> MigrationStats \<times> 'c"
where
  "write_one fl now mg limiter stats w record =
     (let limiter' = fst (tb_acquire fl limiter now 1)
      in case sn_write (mg_sink mg) w record of
           (Inl exc, w') \<Rightarrow>
             (limiter',
              if exc = RecordAlreadyExists then record_skipped (L ''exists'') stats
              else record_error (L ''write:'' @ exn_name exc) stats, w')
         | (Inr u, w') \<Rightarrow> (limiter', record_migrated 1 stats, w'))"

type_synonym buffer = "(AerospikeRecord \<times> pykey) list"

definition count_outcome :: "'c Migrator \<Rightarrow> pystr option \<Rightarrow> MigrationStats \<Rightarrow> MigrationStats" where
  "count_outcome mg outcome stats =
     (case outcome of
        None \<Rightarrow> record_migrated 1 stats
      | Some out \<Rightarrow>
          if ac_record_exists_policy (mc_aerospike (mg_config mg)) = CREATE_ONLY \<and>
             out = BATCH_RECORD_EXISTS_OUTCOME
          then record_skipped (L ''exists'') stats
          else record_error (L ''write:'' @ out) stats)"

definition flush ::
    "(rat \<Rightarrow> rat) \<Rightarrow> rat \<Rightarrow> 'c Migrator \<Rightarrow> TokenBucket \<Rightarrow> MigrationStats \<Rightarrow> 'c \<Rightarrow> buffer \<Rightarrow>
     TokenBucket \<times> MigrationStats \<times> 'c"
where
  "flush fl now mg limiter stats w buf =
     (let records = map fst buf; limiter' = fst (tb_acquire fl limiter now (of_nat (length records)))
      in case sn_write_many (mg_sink mg) w records of
           (Inl exc, w') \<Rightarrow>
             (limiter', fold (\<lambda>p. record_error (L ''write:'' @ exn_name exc)) buf stats, w')
         | (Inr results, w') \<Rightarrow>
             (limiter', fold (\<lambda>(p, outcome). count_outcome mg outcome) (zip buf results) stats, w'))"

section \<open>The run\<close>

datatype item = Rec RedisRecord | STOP

text \<open>
  The producer: asking the source for a record, holding a scanned record until the queue has room,
  sending the sentinels that are left, and finished once every worker has ended.
\<close>

datatype producer = Producing | Holding RedisRecord | Stopping nat | Finished

text \<open>
  A worker with its buffer, which is \<open>None\<close> when records are written one by one: waiting for an
  item, with a record to prepare, with a prepared record to write, with a buffer to flush and what
  it does next, ended by its sentinel, or ended by an exception that escaped.
\<close>

datatype worker =
    WIdle "buffer option"
  | WGot RedisRecord "buffer option"
  | WWrite AerospikeRecord pykey
  | WFlush buffer after_flush
  | WDone
  | WCrashed
  and after_flush = Continue | EndDone | EndCrashed

record 'c run_state =
  rn_source :: "RedisRecord list"
  rn_source_exn :: "py_exn option"
  rn_queue :: "item list"
  rn_producer :: producer
  rn_workers :: "worker list"
  rn_registry :: ConverterRegistry
  rn_stats :: MigrationStats
  rn_scan_limiter :: TokenBucket
  rn_write_limiter :: TokenBucket
  rn_db :: 'c

definition queue_has_room :: "'c Migrator \<Rightarrow> item list \<Rightarrow> bool" where
  "queue_has_room mg q \<longleftrightarrow> mc_queue_size (mg_config mg) \<le> 0 \<or> int (length q) < mc_queue_size (mg_config mg)"

definition start_workers :: "'c Migrator \<Rightarrow> worker list" where
  "start_workers mg =
     replicate (nat (max 1 (mc_workers (mg_config mg)))) (WIdle (if mg_batch_size mg \<le> 1 then None else Some []))"

text \<open>The state after \<^verbatim>\<open>stats.start()\<close> and \<^verbatim>\<open>_start_workers\<close>; \<open>records\<close> and \<open>exn\<close> are what the source yields.\<close>

definition run_init ::
    "'c Migrator \<Rightarrow> ConverterRegistry \<Rightarrow> rat \<Rightarrow> RedisRecord list \<Rightarrow> py_exn option \<Rightarrow> 'c \<Rightarrow> 'c run_state"
where
  "run_init mg registry now records exn w =
     \<lparr>rn_source = records, rn_source_exn = exn, rn_queue = [], rn_producer = Producing,
      rn_workers = start_workers mg, rn_registry = registry,
      rn_stats = stats_start now MigrationStats_init, rn_scan_limiter = scan_limiter_init now mg,
      rn_write_limiter = write_limiter_init now mg, rn_db = w\<rparr>"

text \<open>The end of a worker's loop: the \<^verbatim>\<open>finally\<close> clause flushes what is buffered.\<close>

definition finish_worker :: "buffer option \<Rightarrow> bool \<Rightarrow> worker" where
  "finish_worker buf crashed =
     (case buf of
        Some (p # ps) \<Rightarrow> WFlush (p # ps) (if crashed then EndCrashed else EndDone)
      | _ \<Rightarrow> if crashed then WCrashed else WDone)"

definition take_item :: "item \<Rightarrow> buffer option \<Rightarrow> worker" where
  "take_item it buf = (case it of STOP \<Rightarrow> finish_worker buf False | Rec r \<Rightarrow> WGot r buf)"

definition after_prepare :: "'c Migrator \<Rightarrow> RedisRecord \<Rightarrow> buffer option \<Rightarrow> AerospikeRecord option res \<Rightarrow> worker" where
  "after_prepare mg r buf out =
     (case out of
        Inl e \<Rightarrow> finish_worker buf True
      | Inr None \<Rightarrow> WIdle buf
      | Inr (Some prepared) \<Rightarrow>
          (case buf of
             None \<Rightarrow> WWrite prepared (rr_key r)
           | Some b \<Rightarrow>
               let b' = b @ [(prepared, rr_key r)]
               in if mg_batch_size mg \<le> int (length b') then WFlush b' Continue else WIdle (Some b')))"

fun after_flush_worker :: "after_flush \<Rightarrow> worker" where
  "after_flush_worker Continue = WIdle (Some [])"
| "after_flush_worker EndDone = WDone"
| "after_flush_worker EndCrashed = WCrashed"

fun worker_ended :: "worker \<Rightarrow> bool" where
  "worker_ended WDone = True"
| "worker_ended WCrashed = True"
| "worker_ended w = False"

inductive step :: "'c Migrator \<Rightarrow> (rat \<Rightarrow> rat) \<Rightarrow> 'c run_state \<Rightarrow> 'c run_state \<Rightarrow> bool"
  for mg :: "'c Migrator" and fl :: "rat \<Rightarrow> rat"
where
  scan: "rn_producer s = Producing \<Longrightarrow> rn_source s = r # rs \<Longrightarrow>
    step mg fl s (s\<lparr>rn_source := rs, rn_producer := Holding r,
      rn_scan_limiter := fst (tb_acquire fl (rn_scan_limiter s) now 1),
      rn_stats := record_scanned 1 (rn_stats s)\<rparr>)"
| put: "rn_producer s = Holding r \<Longrightarrow> queue_has_room mg (rn_queue s) \<Longrightarrow>
    step mg fl s (s\<lparr>rn_queue := rn_queue s @ [Rec r], rn_producer := Producing\<rparr>)"
| source_end: "rn_producer s = Producing \<Longrightarrow> rn_source s = [] \<Longrightarrow>
    step mg fl s (s\<lparr>rn_producer := Stopping (length (rn_workers s))\<rparr>)"
| put_stop: "rn_producer s = Stopping (Suc k) \<Longrightarrow> queue_has_room mg (rn_queue s) \<Longrightarrow>
    step mg fl s (s\<lparr>rn_queue := rn_queue s @ [STOP], rn_producer := Stopping k\<rparr>)"
| join: "rn_producer s = Stopping 0 \<Longrightarrow> list_all worker_ended (rn_workers s) \<Longrightarrow>
    step mg fl s (s\<lparr>rn_producer := Finished, rn_stats := stats_finish now (rn_stats s)\<rparr>)"
| get: "i < length (rn_workers s) \<Longrightarrow> rn_workers s ! i = WIdle buf \<Longrightarrow> rn_queue s = it # q \<Longrightarrow>
    step mg fl s (s\<lparr>rn_queue := q, rn_workers := (rn_workers s)[i := take_item it buf]\<rparr>)"
| convert: "i < length (rn_workers s) \<Longrightarrow> rn_workers s ! i = WGot r buf \<Longrightarrow>
    prepare mg (rn_registry s) (rn_stats s) r = (out, registry', stats') \<Longrightarrow>
    step mg fl s (s\<lparr>rn_registry := registry', rn_stats := stats',
      rn_workers := (rn_workers s)[i := after_prepare mg r buf out]\<rparr>)"
| write_single: "i < length (rn_workers s) \<Longrightarrow> rn_workers s ! i = WWrite ar key \<Longrightarrow>
    write_one fl now mg (rn_write_limiter s) (rn_stats s) (rn_db s) ar = (limiter', stats', w') \<Longrightarrow>
    step mg fl s (s\<lparr>rn_write_limiter := limiter', rn_stats := stats', rn_db := w',
      rn_workers := (rn_workers s)[i := WIdle None]\<rparr>)"
| flush_batch: "i < length (rn_workers s) \<Longrightarrow> rn_workers s ! i = WFlush buf af \<Longrightarrow>
    flush fl now mg (rn_write_limiter s) (rn_stats s) (rn_db s) buf = (limiter', stats', w') \<Longrightarrow>
    step mg fl s (s\<lparr>rn_write_limiter := limiter', rn_stats := stats', rn_db := w',
      rn_workers := (rn_workers s)[i := after_flush_worker af]\<rparr>)"

inductive_cases stepE: "step mg fl s s'"

definition reachable :: "'c Migrator \<Rightarrow> (rat \<Rightarrow> rat) \<Rightarrow> 'c run_state \<Rightarrow> 'c run_state \<Rightarrow> bool" where
  "reachable mg fl = (step mg fl)\<^sup>*\<^sup>*"

text \<open>The result of \<^verbatim>\<open>run()\<close> in a finished state: the statistics, or the exception of the source.\<close>

definition run_result :: "'c run_state \<Rightarrow> MigrationStats res" where
  "run_result s = (case rn_source_exn s of Some e \<Rightarrow> Inl e | None \<Rightarrow> Inr (rn_stats s))"

end
