(* ===== verification/Cli.thy ===== *)
theory Cli
  imports Config_Load Preview Migrator
begin

text \<open>
  The command line (\<^verbatim>\<open>cli.py\<close>) after the arguments are parsed: how flags override a configuration
  file and the defaults, the \<^verbatim>\<open>--set-route\<close> token, the use of the server information, and \<^verbatim>\<open>main\<close>, with
  the run of the migrator in its place. The parsed arguments are a dictionary that holds what the
  user passed, as \<^verbatim>\<open>vars(args)\<close> does.
\<close>

section \<open>The configuration of a run\<close>

datatype cfg_section = SecRedis | SecAerospike | SecTop

datatype coercion = NoCoerce | CoerceExists | CoerceHash | CoerceTtl

type_synonym namespace = "(pystr, cfg_attr) dict"

definition ARG_MAP :: "(string \<times> cfg_section \<times> string \<times> coercion) list" where
  "ARG_MAP =
     [(''redis_host'', SecRedis, ''host'', NoCoerce),
      (''redis_port'', SecRedis, ''port'', NoCoerce),
      (''redis_db'', SecRedis, ''db'', NoCoerce),
      (''redis_url'', SecRedis, ''url'', NoCoerce),
      (''redis_cluster'', SecRedis, ''cluster'', NoCoerce),
      (''redis_username'', SecRedis, ''username'', NoCoerce),
      (''redis_password'', SecRedis, ''password'', NoCoerce),
      (''redis_ssl'', SecRedis, ''ssl'', NoCoerce),
      (''redis_ssl_ca_certs'', SecRedis, ''ssl_ca_certs'', NoCoerce),
      (''redis_ssl_certfile'', SecRedis, ''ssl_certfile'', NoCoerce),
      (''redis_ssl_keyfile'', SecRedis, ''ssl_keyfile'', NoCoerce),
      (''redis_ssl_cert_reqs'', SecRedis, ''ssl_cert_reqs'', NoCoerce),
      (''redis_socket_timeout'', SecRedis, ''socket_timeout'', NoCoerce),
      (''redis_socket_connect_timeout'', SecRedis, ''socket_connect_timeout'', NoCoerce),
      (''redis_match'', SecRedis, ''scan_match'', NoCoerce),
      (''aerospike_use_services_alternate'', SecAerospike, ''use_services_alternate'', NoCoerce),
      (''aerospike_username'', SecAerospike, ''username'', NoCoerce),
      (''aerospike_password'', SecAerospike, ''password'', NoCoerce),
      (''aerospike_auth_mode'', SecAerospike, ''auth_mode'', NoCoerce),
      (''aerospike_tls_enable'', SecAerospike, ''tls_enable'', NoCoerce),
      (''aerospike_tls_name'', SecAerospike, ''tls_name'', NoCoerce),
      (''aerospike_tls_cafile'', SecAerospike, ''tls_cafile'', NoCoerce),
      (''aerospike_tls_certfile'', SecAerospike, ''tls_certfile'', NoCoerce),
      (''aerospike_tls_keyfile'', SecAerospike, ''tls_keyfile'', NoCoerce),
      (''aerospike_tls_keyfile_pw'', SecAerospike, ''tls_keyfile_pw'', NoCoerce),
      (''aerospike_socket_timeout_ms'', SecAerospike, ''socket_timeout_ms'', NoCoerce),
      (''aerospike_total_timeout_ms'', SecAerospike, ''total_timeout_ms'', NoCoerce),
      (''aerospike_connect_timeout_ms'', SecAerospike, ''connect_timeout_ms'', NoCoerce),
      (''aerospike_login_timeout_ms'', SecAerospike, ''login_timeout_ms'', NoCoerce),
      (''aerospike_namespace'', SecAerospike, ''namespace'', NoCoerce),
      (''aerospike_set'', SecAerospike, ''set_name'', NoCoerce),
      (''value_bin'', SecAerospike, ''value_bin'', NoCoerce),
      (''aerospike_send_key'', SecAerospike, ''send_key'', NoCoerce),
      (''aerospike_record_exists_policy'', SecAerospike, ''record_exists_policy'', CoerceExists),
      (''max_ttl'', SecAerospike, ''max_ttl'', NoCoerce),
      (''workers'', SecTop, ''workers'', NoCoerce),
      (''scan_batch'', SecTop, ''scan_batch'', NoCoerce),
      (''queue_size'', SecTop, ''queue_size'', NoCoerce),
      (''scan_rate_limit'', SecTop, ''scan_rate_limit'', NoCoerce),
      (''write_rate_limit'', SecTop, ''write_rate_limit'', NoCoerce),
      (''write_batch_size'', SecTop, ''write_batch_size'', NoCoerce),
      (''hash_strategy'', SecTop, ''hash_strategy'', CoerceHash),
      (''ttl_overflow_policy'', SecTop, ''ttl_overflow_policy'', CoerceTtl),
      (''progress_interval'', SecTop, ''progress_interval'', NoCoerce)]"

text \<open>Calling an enumeration on an argument: a member is returned as it is.\<close>

definition coerce_enum :: "(cfg_attr \<Rightarrow> 'e option) \<Rightarrow> (pyval \<Rightarrow> 'e res) \<Rightarrow> ('e \<Rightarrow> cfg_attr) \<Rightarrow> cfg_attr \<Rightarrow> cfg_attr res" where
  "coerce_enum member of_value wrap a =
     (case member a of
        Some e \<Rightarrow> Inr (wrap e)
      | None \<Rightarrow> (case a of AVal v \<Rightarrow> rmap wrap (of_value v) | _ \<Rightarrow> Inl ValueError))"

fun coerce_arg :: "coercion \<Rightarrow> cfg_attr \<Rightarrow> cfg_attr res" where
  "coerce_arg NoCoerce a = Inr a"
| "coerce_arg CoerceExists a = coerce_enum as_exists RecordExistsPolicy_of AExists a"
| "coerce_arg CoerceHash a = coerce_enum as_hash HashStrategy_of AHash a"
| "coerce_arg CoerceTtl a = coerce_enum as_ttl TtlOverflowPolicy_of ATtl a"

fun section_of :: "cfg_section \<Rightarrow> MigrationConfig_obj \<Rightarrow> cfg_obj" where
  "section_of SecRedis c = mo_redis c"
| "section_of SecAerospike c = mo_aerospike c"
| "section_of SecTop c = mo_top c"

fun set_field :: "cfg_section \<Rightarrow> string \<Rightarrow> cfg_attr \<Rightarrow> MigrationConfig_obj \<Rightarrow> MigrationConfig_obj" where
  "set_field SecRedis name a c = c\<lparr>mo_redis := dict_set (L name) a (mo_redis c)\<rparr>"
| "set_field SecAerospike name a c = c\<lparr>mo_aerospike := dict_set (L name) a (mo_aerospike c)\<rparr>"
| "set_field SecTop name a c = c\<lparr>mo_top := dict_set (L name) a (mo_top c)\<rparr>"

fun apply_arg :: "namespace \<Rightarrow> string \<times> cfg_section \<times> string \<times> coercion \<Rightarrow> MigrationConfig_obj \<Rightarrow> MigrationConfig_obj res" where
  "apply_arg provided (dest, section, field, coerce) base =
     (case attr_get provided dest of
        None \<Rightarrow> Inr base
      | Some value \<Rightarrow> rmap (\<lambda>a. set_field section field a base) (coerce_arg coerce value))"

text \<open>The file named by \<^verbatim>\<open>--config\<close>, or the defaults.\<close>

definition base_config :: "(pystr \<Rightarrow> pyval res) \<Rightarrow> namespace \<Rightarrow> MigrationConfig_obj res" where
  "base_config load provided =
     (case attr_get provided ''config'' of
        Some (AVal (PS (SStr path))) \<Rightarrow>
          if path \<noteq> [] then MigrationConfig_from_yaml load path else Inr MigrationConfig_obj_default
      | _ \<Rightarrow> Inr MigrationConfig_obj_default)"

text \<open>
  \<^verbatim>\<open>base.aerospike.hosts[0] if base.aerospike.hosts else ("localhost", 3000)\<close>; the attribute is always a
  list of pairs.
\<close>

definition first_host :: "cfg_obj \<Rightarrow> (cfg_attr \<times> cfg_attr) res" where
  "first_host aero =
     (case attr_get aero ''hosts'' of
        Some (AVal (PList [])) \<Rightarrow> Inr (AStr (L ''localhost''), AInt 3000)
      | Some (AVal (PList (PTuple [h, p] # hs))) \<Rightarrow> Inr (AVal h, AVal p)
      | _ \<Rightarrow> Inl TypeError)"

fun attr_val :: "cfg_attr \<Rightarrow> pyval" where
  "attr_val (AVal v) = v"
| "attr_val a = PS SNone"

definition override_host :: "namespace \<Rightarrow> MigrationConfig_obj \<Rightarrow> MigrationConfig_obj res" where
  "override_host provided base =
     (if attr_get provided ''aerospike_host'' = None \<and> attr_get provided ''aerospike_port'' = None then Inr base
      else
        rmap (\<lambda>(cur_host, cur_port).
          let host = (case attr_get provided ''aerospike_host'' of Some h \<Rightarrow> h | None \<Rightarrow> cur_host);
              port = (case attr_get provided ''aerospike_port'' of Some p \<Rightarrow> p | None \<Rightarrow> cur_port)
          in set_field SecAerospike ''hosts'' (AVal (PList [PTuple [attr_val host, attr_val port]])) base)
        (first_host (mo_aerospike base)))"

text \<open>The routes of the flags follow those of the file; both attributes are lists of routes.\<close>

definition append_routes :: "namespace \<Rightarrow> MigrationConfig_obj \<Rightarrow> MigrationConfig_obj" where
  "append_routes provided base =
     (case (attr_get provided ''set_route'', attr_get (mo_aerospike base) ''set_routes'') of
        (Some (ARoutes new), Some (ARoutes old)) \<Rightarrow> set_field SecAerospike ''set_routes'' (ARoutes (old @ new)) base
      | _ \<Rightarrow> base)"

definition alias_key_pattern :: "namespace \<Rightarrow> MigrationConfig_obj \<Rightarrow> MigrationConfig_obj" where
  "alias_key_pattern provided base =
     (case (attr_get provided ''redis_key_pattern'', attr_get provided ''redis_match'') of
        (Some p, None) \<Rightarrow> set_field SecRedis ''scan_match'' p base
      | _ \<Rightarrow> base)"

definition build_config :: "(pystr \<Rightarrow> pyval res) \<Rightarrow> namespace \<Rightarrow> MigrationConfig_obj res" where
  "build_config load provided =
     rbind (base_config load provided) (\<lambda>base.
     rbind (override_host provided base) (\<lambda>base1.
     rbind (foldr_res (apply_arg provided) ARG_MAP base1) (\<lambda>base2.
     Inr (alias_key_pattern provided (append_routes provided base2)))))"

text \<open>\<^verbatim>\<open>_parse_set_route_cli\<close>\<close>

definition parse_set_route_cli :: "pystr \<Rightarrow> AerospikeSetRoute res" where
  "parse_set_route_cli token =
     (if 61 \<notin> set token then Inl ArgumentTypeError
      else
        let parts = py_split_max 61 3 token
        in if length parts < 2 \<or> py_strip (parts ! 0) = [] \<or> py_strip (parts ! 1) = [] then Inl ArgumentTypeError
           else
             let m0 = [(SStr (L ''pattern''), PS (SStr (parts ! 0))), (SStr (L ''destination''), PS (SStr (parts ! 1)))];
                 hs = (if 3 \<le> length parts then py_strip (parts ! 2) else []);
                 m1 = (if hs \<noteq> [] then m0 @ [(SStr (L ''hash_strategy''), PS (SStr hs))] else m0)
             in
             rbind (if length parts = 4 then
                      (if hs \<noteq> HashStrategy_value MAP_BIN then Inl ArgumentTypeError
                       else if py_strip (parts ! 3) = [] then Inl ArgumentTypeError
                       else Inr (m1 @ [(SStr (L ''value_bin''), PS (SStr (py_strip (parts ! 3))))]))
                    else Inr m1) (\<lambda>mapping.
             rmap hd (parse_set_routes (PList [PDict mapping]))))"

section \<open>The server information\<close>

definition expires_of :: "(pystr, pyval) dict \<Rightarrow> pyval" where
  "expires_of redis_info = info_get redis_info ''expires''"

text \<open>\<^verbatim>\<open>try: int(expires) except (TypeError, ValueError)\<close>; another exception escapes.\<close>

definition try_int :: "pyval \<Rightarrow> int option res" where
  "try_int v =
     (case py_int_of v of
        Inr n \<Rightarrow> Inr (Some n)
      | Inl e \<Rightarrow> if e \<in> {TypeError, ValueError} then Inr None else Inl e)"

definition blocked_text :: "pystr \<Rightarrow> int \<Rightarrow> pystr" where
  "blocked_text ns n =
     L ''Records with TTL cannot be inserted into Aerospike namespace '' @ [39] @ ns @ [39] @ L '': '' @
     L ''TTL expiration is disabled (nsup-period is 0), so the server will never '' @
     L ''expire keys by TTL. Redis reports '' @ str_int n @ L '' key(s) with an expiry. '' @
     L ''Set a non-zero nsup-period on the Aerospike namespace to enable expiration, '' @
     L ''or migrate only keys without TTL.''"

definition ttl_migration_blocked_reason ::
    "(pystr, pyval) dict \<Rightarrow> AerospikeServerInfo option \<Rightarrow> pystr option res"
where
  "ttl_migration_blocked_reason redis_info aerospike_info =
     (case aerospike_info of
        None \<Rightarrow> Inr None
      | Some info \<Rightarrow>
          if si_nsup_period info \<noteq> Some 0 then Inr None
          else if expires_of redis_info = PS SNone then Inr None
          else
            rmap (\<lambda>n. case n of
                     None \<Rightarrow> None
                   | Some k \<Rightarrow> if k \<le> 0 then None else Some (blocked_text (si_namespace info) k))
              (try_int (expires_of redis_info)))"

text \<open>What is logged, without the texts of exceptions.\<close>

datatype log_entry =
    CannotReachRedis | CannotReachAerospike | EvictionDisabled pystr | AlignSize int int
  | LogBlocked pystr | LogPreview pystr | DryRunDone | LogBanner "pystr list"
  | ReportInfo pystr | ReportWarning pystr

text \<open>
  \<^verbatim>\<open>apply_server_info\<close>: the entries it logs and the configuration, whose record size it aligns with
  the server.
\<close>

definition eviction_warning :: "AerospikeServerInfo \<Rightarrow> (pystr, pyval) dict \<Rightarrow> log_entry list res" where
  "eviction_warning info redis_info =
     (if si_nsup_period info = Some 0 then
        rmap (\<lambda>has_ttl_keys. if has_ttl_keys then [] else [EvictionDisabled (si_namespace info)])
          (if expires_of redis_info = PS SNone then Inr False
           else rmap (\<lambda>n. case n of None \<Rightarrow> False | Some k \<Rightarrow> 0 < k) (try_int (expires_of redis_info)))
      else Inr [])"

definition set_max_record_size :: "int \<Rightarrow> MigrationConfig \<Rightarrow> MigrationConfig" where
  "set_max_record_size n config =
     config\<lparr>mc_aerospike := (mc_aerospike config)\<lparr>ac_max_record_size := n\<rparr>\<rparr>"

definition apply_server_info ::
    "MigrationConfig \<Rightarrow> AerospikeServerInfo option \<Rightarrow> (pystr, pyval) dict \<Rightarrow> (log_entry list \<times> MigrationConfig) res"
where
  "apply_server_info config aerospike_info redis_info =
     (case aerospike_info of
        None \<Rightarrow> Inr ([], config)
      | Some info \<Rightarrow>
          rmap (\<lambda>warnings.
            case si_max_record_size info of
              Some server_max \<Rightarrow>
                if server_max \<noteq> 0 \<and> 0 < server_max
                then (warnings @ [AlignSize server_max (ac_max_record_size (mc_aerospike config))],
                      set_max_record_size server_max config)
                else (warnings, config)
            | None \<Rightarrow> (warnings, config))
          (eviction_warning info redis_info))"

section \<open>The entry point\<close>

definition LOG_RULE :: pystr where
  "LOG_RULE = replicate 72 45"

definition BANNER_TITLE :: pystr where
  "BANNER_TITLE = L ''redis2aerospike: migration''"

definition log_migration_banner :: "log_entry" where
  "log_migration_banner = LogBanner [LOG_RULE, BANNER_TITLE, LOG_RULE]"

text \<open>What the program runs against: the client libraries, the YAML loader and the Unicode table.\<close>

record ('w, 'c) cli_env =
  ce_redis :: "bool \<times> pystr option \<times> (pystr, kwarg) dict \<Rightarrow> 'w rclient res"
  ce_aerospike :: "settings \<Rightarrow> 'c aclient res"
  ce_module :: aerospike_module
  ce_yaml :: "pystr \<Rightarrow> pyval res"
  ce_printable :: "code_point \<Rightarrow> bool"

text \<open>How \<^verbatim>\<open>main\<close> ends: with an exit code, or with an exception that it does not catch.\<close>

datatype main_end = Exit int | Raised py_exn

text \<open>
  The part of \<^verbatim>\<open>main\<close> before the run: it is over, or the migrator is about to run. The sink and the
  migrator share the Aerospike section of the configuration, so an alignment of the record size
  reaches both.
\<close>

datatype ('w, 'c) started =
    Ended main_end 'w 'c
  | Ready MigrationConfig "'w RedisSource" ConverterRegistry "'c AerospikeSink" 'w 'c

definition close_both :: "'w RedisSource \<Rightarrow> 'c AerospikeSink \<Rightarrow> main_end \<Rightarrow> 'w \<Rightarrow> 'c \<Rightarrow> ('w, 'c) started" where
  "close_both source sink r w v = Ended r (source_close source w) (sink_close sink v)"

text \<open>The block of \<^verbatim>\<open>main\<close> that the \<^verbatim>\<open>finally\<close> clause closes, up to the run.\<close>

definition main_connected ::
    "('w, 'c) cli_env \<Rightarrow> MigrationConfig \<Rightarrow> bool \<Rightarrow> 'w RedisSource \<Rightarrow> ConverterRegistry \<Rightarrow> 'c AerospikeSink \<Rightarrow> 'w \<Rightarrow> 'c \<Rightarrow>
     log_entry list \<times> ('w, 'c) started"
where
  "main_connected env config dry_run source registry sink w v =
     (let (redis_info, w1) = source_server_info source w
      in case sink_server_info sink v of
           (Inl e, v1) \<Rightarrow> ([], close_both source sink (Raised e) w1 v1)
         | (Inr aerospike_info, v1) \<Rightarrow>
             (case apply_server_info config aerospike_info redis_info of
                Inl e \<Rightarrow> ([], close_both source sink (Raised e) w1 v1)
              | Inr (warnings, config') \<Rightarrow>
                  (case ttl_migration_blocked_reason redis_info aerospike_info of
                     Inl e \<Rightarrow> (warnings, close_both source sink (Raised e) w1 v1)
                   | Inr (Some blocked) \<Rightarrow> (warnings @ [LogBlocked blocked], close_both source sink (Exit 2) w1 v1)
                   | Inr None \<Rightarrow>
                       let log = warnings @ [LogPreview (render_preview (ce_printable env) config' redis_info aerospike_info)]
                       in if dry_run then (log @ [DryRunDone], close_both source sink (Exit 0) w1 v1)
                          else (log @ [log_migration_banner],
                                Ready config' source registry (sink\<lparr>sk_config := mc_aerospike config'\<rparr>) w1 v1))))"

definition main_start ::
    "('w, 'c) cli_env \<Rightarrow> MigrationConfig \<Rightarrow> bool \<Rightarrow> 'w \<Rightarrow> 'c \<Rightarrow> log_entry list \<times> ('w, 'c) started"
where
  "main_start env config dry_run w v =
     (case RedisSource_init (ce_redis env) (mc_redis config) None of
        Inl e \<Rightarrow> ([], Ended (Raised e) w v)
      | Inr source \<Rightarrow>
          (case registry_from_config config of
             Inl e \<Rightarrow> ([], Ended (Raised e) w v)
           | Inr registry \<Rightarrow>
               (case source_ping source w of
                  (Inl e, w1) \<Rightarrow> ([CannotReachRedis], Ended (Exit 2) w1 v)
                | (Inr pong, w1) \<Rightarrow>
                    (case sink_connect (ce_aerospike env)
                            \<lparr>sk_config = mc_aerospike config, sk_client = None, sk_module = ce_module env\<rparr> of
                       Inl e \<Rightarrow> ([CannotReachAerospike], Ended (Exit 2) (source_close source w1) v)
                     | Inr sink \<Rightarrow> main_connected env config dry_run source registry sink w1 v))))"

text \<open>After the run: the report, and an exit code that says whether there were errors.\<close>

definition main_finish :: "(rat \<Rightarrow> rat) \<Rightarrow> rat \<Rightarrow> MigrationStats res \<Rightarrow> log_entry list \<times> main_end" where
  "main_finish fl now result =
     (case result of
        Inl e \<Rightarrow> ([], Raised e)
      | Inr stats \<Rightarrow>
          let report = format_report fl now stats
          in if st_errors stats \<noteq> 0 then ([log_migration_banner, ReportWarning report], Exit 1)
             else ([log_migration_banner, ReportInfo report], Exit 0))"

text \<open>
  \<^verbatim>\<open>main\<close> on parsed arguments: how it can end, what it has logged, and the states of the two servers
  then. The run of the migrator is any of its interleavings that ends. A configuration file that gives
  an attribute another type than its dataclass declares is outside the relation.
\<close>

definition flag_set :: "namespace \<Rightarrow> string \<Rightarrow> bool" where
  "flag_set provided name = (case attr_get provided name of Some (AVal v) \<Rightarrow> py_true v | _ \<Rightarrow> False)"

inductive main ::
    "('w, 'c) cli_env \<Rightarrow> (rat \<Rightarrow> rat) \<Rightarrow> namespace \<Rightarrow> 'w \<Rightarrow> 'c \<Rightarrow> log_entry list \<Rightarrow> main_end \<Rightarrow> 'w \<Rightarrow> 'c \<Rightarrow> bool"
  for env :: "('w, 'c) cli_env" and fl :: "rat \<Rightarrow> rat" and args :: namespace and w :: 'w and v :: 'c
where
  completion: "flag_set args ''print_completion'' \<Longrightarrow> main env fl args w v [] (Exit 0) w v"
| bad_config: "\<not> flag_set args ''print_completion'' \<Longrightarrow> build_config (ce_yaml env) args = Inl e \<Longrightarrow>
    main env fl args w v [] (Raised e) w v"
| ended: "\<not> flag_set args ''print_completion'' \<Longrightarrow> build_config (ce_yaml env) args = Inr obj \<Longrightarrow>
    MigrationConfig_view obj = Some config \<Longrightarrow>
    main_start env config (flag_set args ''dry_run'') w v = (lg, Ended r w' v') \<Longrightarrow>
    main env fl args w v lg r w' v'"
| ran: "\<not> flag_set args ''print_completion'' \<Longrightarrow> build_config (ce_yaml env) args = Inr obj \<Longrightarrow>
    MigrationConfig_view obj = Some config \<Longrightarrow>
    main_start env config (flag_set args ''dry_run'') w v = (lg, Ready config' source registry sink w1 v1) \<Longrightarrow>
    iter_records fuel source w1 (mc_scan_batch config') = Some ((records, exn), w2) \<Longrightarrow>
    reachable (Migrator_init config' None sink) fl (run_init (Migrator_init config' None sink) registry now records exn v1) s \<Longrightarrow>
    rn_producer s = Finished \<Longrightarrow>
    main_finish fl now' (run_result s) = (lg', r) \<Longrightarrow>
    main env fl args w v (lg @ lg') r (source_close source w2) (sink_close sink (rn_db s))"

inductive_cases mainE: "main env fl args w v lg r w' v'"

end
