(* ===== verification/Args.thy ===== *)
theory Args
  imports Cli
begin

text \<open>
  The argument parser (\<^verbatim>\<open>build_parser\<close>, \<^verbatim>\<open>parse_args\<close> and \<^verbatim>\<open>_fish_completion\<close> of \<^verbatim>\<open>cli.py\<close>) and the program
  from its arguments on. The options are the table the source declares; \<^verbatim>\<open>parse_args\<close> follows
  \<^verbatim>\<open>argparse\<close> on parsers of this kind, with options that take one value or none and no positional
  arguments: classification of the arguments, abbreviations, explicit values after an equals sign,
  conversion and choices. Usage messages are not carried, only the exit code.
\<close>

section \<open>The options\<close>

datatype arg_type = TStr | TInt | TFloat | TExists | TRoute

datatype action_kind = Store | StoreTrue | Append | Version | Help

text \<open>A default of \<open>None\<close> is \<^verbatim>\<open>argparse.SUPPRESS\<close>: the namespace has no such attribute then.\<close>

record arg_action =
  aa_options :: "string list"
  aa_dest :: string
  aa_kind :: action_kind
  aa_type :: arg_type
  aa_choices :: "pystr list option"
  aa_default :: "cfg_attr option"
  aa_help :: pystr
  aa_file :: bool

definition opt :: "string \<Rightarrow> string \<Rightarrow> arg_type \<Rightarrow> pystr \<Rightarrow> arg_action" where
  "opt name dest ty help =
     \<lparr>aa_options = [name], aa_dest = dest, aa_kind = Store, aa_type = ty, aa_choices = None,
      aa_default = None, aa_help = help, aa_file = False\<rparr>"

definition help_action :: arg_action where
  "help_action =
     (opt ''--help'' ''help'' TStr (L ''show this help message and exit''))
       \<lparr>aa_options := [''-h'', ''--help''], aa_kind := Help\<rparr>"

definition general_options :: "arg_action list" where
  "general_options =
     [(opt ''--print-completion'' ''print_completion'' TStr (L ''==SUPPRESS==''))\<lparr>aa_choices := Some [L ''bash'', L ''zsh'', L ''fish''], aa_default := Some ANone\<rparr>,
      (opt ''--version'' ''version'' TStr (L ''show program'' @ [39] @ L ''s version number and exit''))\<lparr>aa_kind := Version\<rparr>,
      (opt ''--config'' ''config'' TStr (L ''path to a YAML config file (optional). Provides the base config; explicitly-passed CLI flags override individual values.''))\<lparr>aa_default := Some ANone, aa_file := True\<rparr>]"

definition redis_options :: "arg_action list" where
  "redis_options =
     [opt ''--redis-host'' ''redis_host'' TStr (L ''default: localhost''),
      opt ''--redis-port'' ''redis_port'' TInt (L ''default: 6379''),
      opt ''--redis-db'' ''redis_db'' TInt (L ''default: 0 (ignored for cluster)''),
      opt ''--redis-url'' ''redis_url'' TStr (L ''connection URL (redis:// or rediss:// for TLS); overrides the discrete host/port/auth/ssl fields''),
      (opt ''--redis-cluster'' ''redis_cluster'' TStr (L ''connect to a Redis Cluster (sharded) and scan every shard; uses db 0''))\<lparr>aa_kind := StoreTrue\<rparr>,
      opt ''--redis-username'' ''redis_username'' TStr (L ''ACL username (Redis 6+)''),
      opt ''--redis-password'' ''redis_password'' TStr ([]),
      (opt ''--redis-ssl'' ''redis_ssl'' TStr (L ''enable TLS''))\<lparr>aa_kind := StoreTrue\<rparr>,
      (opt ''--redis-ssl-ca-certs'' ''redis_ssl_ca_certs'' TStr (L ''TLS CA certificate file''))\<lparr>aa_file := True\<rparr>,
      (opt ''--redis-ssl-certfile'' ''redis_ssl_certfile'' TStr (L ''mutual TLS: client certificate file''))\<lparr>aa_file := True\<rparr>,
      (opt ''--redis-ssl-keyfile'' ''redis_ssl_keyfile'' TStr (L ''mutual TLS: client key file''))\<lparr>aa_file := True\<rparr>,
      (opt ''--redis-ssl-cert-reqs'' ''redis_ssl_cert_reqs'' TStr (L ''server certificate verification (default: required)''))\<lparr>aa_choices := Some [L ''required'', L ''optional'', L ''none'']\<rparr>,
      opt ''--redis-socket-timeout'' ''redis_socket_timeout'' TFloat (L ''socket timeout in seconds''),
      opt ''--redis-socket-connect-timeout'' ''redis_socket_connect_timeout'' TFloat (L ''socket connect timeout in seconds''),
      opt ''--redis-match'' ''redis_match'' TStr (L ''SCAN match pattern (default: *)''),
      opt ''--redis-key-pattern'' ''redis_key_pattern'' TStr (L ''alias for --redis-match: Redis SCAN source filter (same as redis.scan_match in YAML)'')]"

definition aerospike_options :: "arg_action list" where
  "aerospike_options =
     [opt ''--aerospike-host'' ''aerospike_host'' TStr (L ''default: localhost''),
      opt ''--aerospike-port'' ''aerospike_port'' TInt (L ''default: 3000''),
      (opt ''--aerospike-use-services-alternate'' ''aerospike_use_services_alternate'' TStr ((L ''use the server'' @ [39] @ L ''s alternate-access address (NAT / cloud / Docker)'')))\<lparr>aa_kind := StoreTrue\<rparr>,
      opt ''--aerospike-username'' ''aerospike_username'' TStr (L ''security: username''),
      opt ''--aerospike-password'' ''aerospike_password'' TStr (L ''security: password''),
      (opt ''--aerospike-auth-mode'' ''aerospike_auth_mode'' TStr (L ''authentication mode (default: internal)''))\<lparr>aa_choices := Some [L ''internal'', L ''external'', L ''external_insecure'', L ''pki'']\<rparr>,
      (opt ''--aerospike-tls-enable'' ''aerospike_tls_enable'' TStr (L ''enable TLS''))\<lparr>aa_kind := StoreTrue\<rparr>,
      opt ''--aerospike-tls-name'' ''aerospike_tls_name'' TStr (L ''server certificate subject name (applied to every host)''),
      (opt ''--aerospike-tls-cafile'' ''aerospike_tls_cafile'' TStr (L ''TLS CA certificate file''))\<lparr>aa_file := True\<rparr>,
      (opt ''--aerospike-tls-certfile'' ''aerospike_tls_certfile'' TStr (L ''mutual TLS: client certificate file''))\<lparr>aa_file := True\<rparr>,
      (opt ''--aerospike-tls-keyfile'' ''aerospike_tls_keyfile'' TStr (L ''mutual TLS: client key file''))\<lparr>aa_file := True\<rparr>,
      opt ''--aerospike-tls-keyfile-pw'' ''aerospike_tls_keyfile_pw'' TStr (L ''mutual TLS: client key password''),
      opt ''--aerospike-socket-timeout-ms'' ''aerospike_socket_timeout_ms'' TInt (L ''default: 0 (no timeout)''),
      opt ''--aerospike-total-timeout-ms'' ''aerospike_total_timeout_ms'' TInt (L ''default: 0 (no timeout)''),
      opt ''--aerospike-connect-timeout-ms'' ''aerospike_connect_timeout_ms'' TInt (L ''default: 1000''),
      opt ''--aerospike-login-timeout-ms'' ''aerospike_login_timeout_ms'' TInt (L ''default: 5000''),
      opt ''--aerospike-namespace'' ''aerospike_namespace'' TStr (L ''default: test''),
      opt ''--aerospike-set'' ''aerospike_set'' TStr (L ''default: redis''),
      (opt ''--set-route'' ''set_route'' TRoute (L ''glob on Redis key -> Aerospike set (repeatable; first match wins). Forms: PATTERN=SET; PATTERN=SET=hash_strategy (map_bin|field_bins); PATTERN=SET=map_bin=BIN_NAME for a custom map bin name.''))\<lparr>aa_kind := Append\<rparr>,
      opt ''--value-bin'' ''value_bin'' TStr (L ''bin name for single-value records (default: value)''),
      (opt ''--aerospike-send-key'' ''aerospike_send_key'' TStr (L ''store the primary key alongside the record (POLICY_KEY_SEND)''))\<lparr>aa_kind := StoreTrue\<rparr>,
      (opt ''--aerospike-record-exists-policy'' ''aerospike_record_exists_policy'' TExists (L ''when the Aerospike key exists: update (merge, default), replace (full record), or create_only (skip existing)''))\<lparr>aa_choices := Some (map RecordExistsPolicy_value [UPDATE, REPLACE, CREATE_ONLY])\<rparr>,
      opt ''--max-ttl'' ''max_ttl'' TInt (L ''max record TTL in seconds (default: 10 years); 0 disables the check'')]"

definition pipeline_options :: "arg_action list" where
  "pipeline_options =
     [opt ''--workers'' ''workers'' TInt (L ''default: 8''),
      opt ''--scan-batch'' ''scan_batch'' TInt (L ''default: 500''),
      opt ''--queue-size'' ''queue_size'' TInt (L ''default: 10000''),
      opt ''--scan-rate-limit'' ''scan_rate_limit'' TFloat (L ''max records/sec pulled from Redis (throttles SCAN); 0 = unlimited (default)''),
      opt ''--write-rate-limit'' ''write_rate_limit'' TFloat (L ''max records/sec written to Aerospike across all workers; 0 = unlimited (default)''),
      opt ''--write-batch-size'' ''write_batch_size'' TInt (L ''records per Aerospike batch_write; 1 = single writes (default)''),
      (opt ''--hash-strategy'' ''hash_strategy'' TStr (L ''default: map_bin''))\<lparr>aa_choices := Some (map HashStrategy_value [MAP_BIN, FIELD_BINS])\<rparr>,
      (opt ''--ttl-overflow-policy'' ''ttl_overflow_policy'' TStr (L ''how to handle TTLs above --max-ttl: reject (default), clamp, or never_expire''))\<lparr>aa_choices := Some (map TtlOverflowPolicy_value [REJECT, CLAMP, NEVER_EXPIRE])\<rparr>]"

definition run_options :: "arg_action list" where
  "run_options =
     [opt ''--progress-interval'' ''progress_interval'' TFloat (L ''seconds between progress log lines; 0 disables the heartbeat (default: 10)''),
      (opt ''--dry-run'' ''dry_run'' TStr (L ''connect, gather server info, and print the run preview, then exit without writing''))\<lparr>aa_kind := StoreTrue, aa_default := Some (ABool False)\<rparr>,
      (opt ''--log-level'' ''log_level'' TStr ([]))\<lparr>aa_choices := Some [L ''DEBUG'', L ''INFO'', L ''WARNING'', L ''ERROR''], aa_default := Some (AStr (L ''INFO''))\<rparr>]"

definition build_parser :: "arg_action list" where
  "build_parser =
     [help_action] @ general_options @ redis_options @ aerospike_options @ pipeline_options @ run_options"

section \<open>Parsing\<close>

text \<open>The option strings with their actions, in the order they were added.\<close>

definition option_table :: "arg_action list \<Rightarrow> (pystr \<times> arg_action) list" where
  "option_table parser = concat (map (\<lambda>a. map (\<lambda>s. (L s, a)) (aa_options a)) parser)"

text \<open>
  What an argument string is: an option with the value attached to it, if any, and whether an equals
  sign attached it; something that looks like an option but is none; a value; or \<^verbatim>\<open>--\<close>.
\<close>

datatype token = Opt arg_action pystr "(bool \<times> pystr) option" | Unknown | Value | Dashes

definition get_option_tuples :: "arg_action list \<Rightarrow> pystr \<Rightarrow> token list" where
  "get_option_tuples parser s =
     (if startswith s [45, 45] then
        (let (pre, ex) = (case py_partition [61] s of Some (a, b) \<Rightarrow> (a, Some (True, b)) | None \<Rightarrow> (s, None))
         in map (\<lambda>(name, a). Opt a name ex) (filter (\<lambda>(name, a). startswith name pre) (option_table parser)))
      else
        List.map_filter (\<lambda>(name, a).
          if name = take 2 s then Some (Opt a name (Some (False, drop 2 s)))
          else if startswith name s then Some (Opt a name None) else None) (option_table parser))"

text \<open>The regular expression \<^verbatim>\<open>^-\d+$|^-\d*\.\d+$\<close>\<close>

definition negative_number :: "pystr \<Rightarrow> bool" where
  "negative_number s =
     (let b0 = drop 1 s; b = (if b0 \<noteq> [] \<and> last b0 = 10 then butlast b0 else b0); r = dropWhile is_digit b
      in b \<noteq> [] \<and> (r = [] \<or> (hd r = 46 \<and> tl r \<noteq> [] \<and> list_all is_digit (tl r))))"

definition parse_optional :: "arg_action list \<Rightarrow> pystr \<Rightarrow> token option" where
  "parse_optional parser s =
     (if s = [] \<or> hd s \<noteq> 45 then Some Value
      else
        case dict_get (option_table parser) s of
          Some a \<Rightarrow> Some (Opt a s None)
        | None \<Rightarrow>
            if length s = 1 then Some Value
            else
              case Option.bind (py_partition [61] s)
                     (\<lambda>(name, ex). map_option (\<lambda>a. Opt a name (Some (True, ex))) (dict_get (option_table parser) name)) of
                Some t \<Rightarrow> Some t
              | None \<Rightarrow>
                  (case get_option_tuples parser s of
                     [t] \<Rightarrow> Some t
                   | [] \<Rightarrow> Some (if negative_number s \<or> 32 \<in> set s then Value else Unknown)
                   | _ \<Rightarrow> None))"

text \<open>The first pass; \<open>None\<close> is an ambiguous abbreviation.\<close>

fun classify :: "arg_action list \<Rightarrow> pystr list \<Rightarrow> (token \<times> pystr) list option" where
  "classify parser [] = Some []"
| "classify parser (s # argv) =
     (if s = [45, 45] then Some ((Dashes, s) # map (\<lambda>v. (Value, v)) argv)
      else
        Option.bind (parse_optional parser s) (\<lambda>t. map_option ((#) (t, s)) (classify parser argv)))"

text \<open>The conversion of a value by the type of its option, and the choices.\<close>

fun convert_arg :: "arg_type \<Rightarrow> pystr \<Rightarrow> cfg_attr res" where
  "convert_arg TStr s = Inr (AStr s)"
| "convert_arg TInt s = rmap AInt (py_int s)"
| "convert_arg TFloat s = rmap AFloat (py_float s)"
| "convert_arg TExists s = rmap AExists (RecordExistsPolicy_of (PS (SStr s)))"
| "convert_arg TRoute s = rmap (\<lambda>r. ARoutes [r]) (parse_set_route_cli s)"

fun choice_text :: "cfg_attr \<Rightarrow> pystr" where
  "choice_text (AExists p) = RecordExistsPolicy_value p"
| "choice_text a = (case as_text a of Some s \<Rightarrow> s | None \<Rightarrow> [])"

definition choice_ok :: "arg_action \<Rightarrow> cfg_attr \<Rightarrow> bool" where
  "choice_ok a v = (case aa_choices a of None \<Rightarrow> True | Some cs \<Rightarrow> choice_text v \<in> set cs)"

datatype parsed = Parsed namespace | SystemExit int

text \<open>An action with its value: an error of the conversion or of the choices ends the program.\<close>

definition take_value :: "arg_action \<Rightarrow> pystr \<Rightarrow> namespace \<Rightarrow> namespace option" where
  "take_value a s ns =
     (case convert_arg (aa_type a) s of
        Inl e \<Rightarrow> None
      | Inr v \<Rightarrow>
          if \<not> choice_ok a v then None
          else Some (dict_set (L (aa_dest a))
                 (if aa_kind a = Append then
                    (case (attr_get ns (aa_dest a), v) of
                       (Some (ARoutes old), ARoutes new) \<Rightarrow> ARoutes (old @ new)
                     | _ \<Rightarrow> v)
                  else v) ns))"

definition takes_value :: "arg_action \<Rightarrow> bool" where
  "takes_value a \<longleftrightarrow> aa_kind a \<in> {Store, Append}"

text \<open>
  The letters that follow \<^verbatim>\<open>-h\<close> in one argument. The help is printed, so the program ends with code 0,
  unless a letter group is malformed; releases of Python differ here.
\<close>

fun help_letters :: "pystr \<Rightarrow> int" where
  "help_letters [] = 2"
| "help_letters (c # cs) =
     (if c = 45 then 2
      else if c = 104 then (case cs of [] \<Rightarrow> 0 | d # ds \<Rightarrow> if d = 61 then 2 else help_letters cs)
      else 0)"

text \<open>The second pass, from left to right; \<open>extras\<close> says whether an argument was not recognised.\<close>

fun consume :: "(token \<times> pystr) list \<Rightarrow> namespace \<Rightarrow> bool \<Rightarrow> parsed" where
  "consume [] ns extras = (if extras then SystemExit 2 else Parsed ns)"
| "consume ((Opt a name (Some (eq, ex)), s) # ts) ns extras =
     (if takes_value a then
        (case take_value a ex ns of None \<Rightarrow> SystemExit 2 | Some ns' \<Rightarrow> consume ts ns' extras)
      else if eq \<or> startswith name [45, 45] then SystemExit 2
      else SystemExit (help_letters ex))"
| "consume ((Opt a name None, s) # ts) ns extras =
     (if takes_value a then
        (case ts of
           (Value, v) # ts' \<Rightarrow>
             (case take_value a v ns of None \<Rightarrow> SystemExit 2 | Some ns' \<Rightarrow> consume ts' ns' extras)
         | _ \<Rightarrow> SystemExit 2)
      else if aa_kind a = StoreTrue then consume ts (dict_set (L (aa_dest a)) (ABool True) ns) extras
      else SystemExit 0)"
| "consume ((t, s) # ts) ns extras = consume ts ns True"

definition default_namespace :: "arg_action list \<Rightarrow> namespace" where
  "default_namespace parser =
     List.map_filter (\<lambda>a. map_option (\<lambda>d. (L (aa_dest a), d)) (aa_default a)) parser"

definition parse_with :: "arg_action list \<Rightarrow> pystr list \<Rightarrow> parsed" where
  "parse_with parser argv =
     (case classify parser argv of
        None \<Rightarrow> SystemExit 2
      | Some ts \<Rightarrow> consume ts (default_namespace parser) False)"

definition parse_args :: "pystr list \<Rightarrow> parsed" where
  "parse_args argv = parse_with build_parser argv"

section \<open>The program on its arguments\<close>

text \<open>\<^verbatim>\<open>main(argv)\<close>: the parser ends the program itself on a usage error, and after help or the version.\<close>

inductive main_argv ::
    "('w, 'c) cli_env \<Rightarrow> (rat \<Rightarrow> rat) \<Rightarrow> pystr list \<Rightarrow> 'w \<Rightarrow> 'c \<Rightarrow> log_entry list \<Rightarrow> main_end \<Rightarrow> 'w \<Rightarrow> 'c \<Rightarrow> bool"
  for env :: "('w, 'c) cli_env" and fl :: "rat \<Rightarrow> rat" and argv :: "pystr list" and w :: 'w and v :: 'c
where
  usage: "parse_args argv = SystemExit n \<Longrightarrow> main_argv env fl argv w v [] (Exit n) w v"
| parsed: "parse_args argv = Parsed ns \<Longrightarrow> main env fl ns w v lg r w' v' \<Longrightarrow> main_argv env fl argv w v lg r w' v'"

section \<open>Completion for fish\<close>

definition fish_quote :: "pystr \<Rightarrow> pystr" where
  "fish_quote s = concat (map (\<lambda>c. if c = 39 then [92, 39] else [c]) s)"

definition fish_options :: "arg_action \<Rightarrow> pystr list" where
  "fish_options a =
     List.map_filter (\<lambda>name.
       let s = L name
       in if startswith s [45, 45] then Some (L ''-l '' @ drop 2 s)
          else if startswith s [45] \<and> length s = 2 then Some (L ''-s '' @ [s ! 1]) else None) (aa_options a)"

definition fish_line :: "pystr \<Rightarrow> arg_action \<Rightarrow> pystr" where
  "fish_line prog a =
     (let desc = fish_quote (aa_help a)
      in py_join [32]
           ([L ''complete -c '' @ prog, L ''-n '' @ [39] @ L ''__fish_use_subcommand'' @ [39]]
            @ fish_options a
            @ (if desc \<noteq> [] then [L ''-d '' @ [39] @ desc @ [39]] else [])
            @ (if aa_file a then [L ''-r -F'']
               else case aa_choices a of
                      Some cs \<Rightarrow> [L ''-xa '' @ [39] @ py_join [32] cs @ [39]]
                    | None \<Rightarrow> if aa_kind a \<noteq> StoreTrue then [L ''-r''] else [])))"

definition fish_completion :: "pystr \<Rightarrow> arg_action list \<Rightarrow> pystr" where
  "fish_completion prog parser =
     py_join [10]
       ([L ''# fish completion for '' @ prog, []]
        @ map (fish_line prog)
            (filter (\<lambda>a. aa_options a \<noteq> [] \<and> aa_dest a \<notin> {''help'', ''print_completion''} \<and> aa_kind a \<noteq> Version) parser))
     @ [10]"

end
