(* ===== verification/Config_Load_Facts.thy ===== *)
theory Config_Load_Facts
  imports Config_Load
begin

text \<open>
  What loading a configuration guarantees: a document overlays the defaults attribute by attribute,
  and what it cannot set raises; the environment yields objects whose attributes have the declared
  types, and an empty environment yields the defaults.
\<close>

section \<open>The overlay loop\<close>

fun is_text :: "pyscalar \<Rightarrow> bool" where
  "is_text (SStr s) = True"
| "is_text v = False"

lemma scalar_key_SStr [simp]: "scalar_key k = SStr s \<longleftrightarrow> k = SStr s"
  by (cases k) (auto split: option.splits)

lemma overlay_Cons:
  "overlay ms ((k, v) # data) cfg = rbind (set_known ms (k, v) cfg) (overlay ms data)"
  by (simp add: overlay_def [abs_def])

lemma overlay_total:
  "overlay ms data cfg = Inl TypeError \<longleftrightarrow> \<not> list_all (\<lambda>p. is_text (fst p)) data"
  "(\<exists>cfg'. overlay ms data cfg = Inr cfg') \<longleftrightarrow> list_all (\<lambda>p. is_text (fst p)) data"
proof (induction data arbitrary: cfg)
  case Nil
  { case 1 show ?case by (simp add: overlay_def) next case 2 show ?case by (simp add: overlay_def) }
next
  case (Cons p data)
  { case 1 show ?case using Cons by (cases p; cases "fst p") (auto simp: overlay_Cons)
  next case 2 show ?case using Cons by (cases p; cases "fst p") (auto simp: overlay_Cons) }
qed

text \<open>What the loop leaves in an attribute: the value of the document if the name is known.\<close>

lemma overlay_get:
  assumes "kwf scalar_key data" "overlay ms data cfg = Inr cfg'"
  shows "dict_get cfg' f =
    (case sdict_get data (SStr f) of
       Some v \<Rightarrow> if dict_get cfg f \<noteq> None \<or> f \<in> set ms then Some (AVal v) else None
     | None \<Rightarrow> dict_get cfg f)"
  using assms
proof (induction data arbitrary: cfg)
  case Nil
  then show ?case by (simp add: overlay_def)
next
  case (Cons p data)
  obtain k v where p: "p = (k, v)" by (cases p)
  obtain key where k: "k = SStr key" and rest: "overlay ms data (if dict_get cfg key \<noteq> None \<or> key \<in> set ms
      then dict_set key (AVal v) cfg else cfg) = Inr cfg'"
    using Cons.prems(2) by (cases k) (auto simp: p overlay_Cons)
  have wf: "kwf scalar_key data" and fresh: "sdict_get data (SStr key) = None"
    using Cons.prems(1) by (auto simp: kwf_def p k kget_None_iff)
  show ?case using Cons.IH [OF wf rest] fresh by (auto simp: p k kget_kset split: option.splits)
qed

lemma doc_del_get: "sdict_get (doc_del n d) (SStr f) = (if f = L n then None else sdict_get d (SStr f))"
  by (induction d) (auto simp: doc_del_def dict_del_def)

lemma doc_del_wf: "kwf scalar_key d \<Longrightarrow> kwf scalar_key (doc_del n d)"
  by (simp add: kwf_def doc_del_def dict_del_def distinct_map_filter)

lemma resolve_key_pattern_wf: "kwf scalar_key d \<Longrightarrow> kwf scalar_key (resolve_key_pattern d)"
  by (simp add: resolve_key_pattern_def doc_del_wf kwf_kset)

lemmas doc_simps = doc_del_get doc_has_def doc_get_def kget_kset attr_get_def

section \<open>Documents\<close>

text \<open>The value an attribute should have: that of the document, or the default.\<close>

definition loaded :: "cfg_obj \<Rightarrow> (pyscalar, pyval) dict \<Rightarrow> pystr \<Rightarrow> cfg_attr option" where
  "loaded dflt d f = (case sdict_get d (SStr f) of Some v \<Rightarrow> Some (AVal v) | None \<Rightarrow> dict_get dflt f)"

text \<open>The same for an enumeration, which the document gives by its value.\<close>

definition loaded_enum :: "(pyval \<Rightarrow> 'e res) \<Rightarrow> ('e \<Rightarrow> cfg_attr) \<Rightarrow> cfg_obj \<Rightarrow> (pyscalar, pyval) dict \<Rightarrow> pystr \<Rightarrow> cfg_attr option" where
  "loaded_enum of_value wrap dflt d f =
     (case sdict_get d (SStr f) of
        Some v \<Rightarrow> (case of_value v of Inr e \<Rightarrow> Some (wrap e) | Inl exc \<Rightarrow> None)
      | None \<Rightarrow> dict_get dflt f)"

definition fields :: "cfg_obj \<Rightarrow> pystr set" where
  "fields obj = fst ` set obj"

lemma dict_get_fields: "dict_get obj f \<noteq> None \<longleftrightarrow> f \<in> fields obj"
  by (auto simp: kget_None_iff fields_def)

lemma RedisConfig_from_dict_get:
  assumes "RedisConfig_from_dict (PDict r) = Inr c" "kwf scalar_key r" "f \<in> fields RedisConfig_obj"
  shows "dict_get c f =
    (if f = L ''scan_match'' \<and> sdict_get r (SStr f) = None then
       (case sdict_get r (SStr (L ''key_pattern'')) of Some v \<Rightarrow> Some (AVal v) | None \<Rightarrow> dict_get RedisConfig_obj f)
     else loaded RedisConfig_obj r f)"
proof (cases "r = []")
  case True
  then show ?thesis using assms by (simp add: RedisConfig_from_dict_def loaded_def)
next
  case False
  have "f \<noteq> L ''key_pattern''" using assms(3) by (auto simp: fields_def RedisConfig_obj_def)
  moreover have "overlay section_methods (resolve_key_pattern r) RedisConfig_obj = Inr c"
    using assms(1) False by (simp add: RedisConfig_from_dict_def py_dict_def)
  note overlay_get [OF resolve_key_pattern_wf [OF assms(2)] this, of f]
  moreover have "dict_get RedisConfig_obj f \<noteq> None" using assms(3) dict_get_fields by blast
  ultimately show ?thesis
    by (auto simp: resolve_key_pattern_def doc_simps loaded_def split: option.splits)
qed

text \<open>Attributes of the Aerospike section that have a form of their own in a document.\<close>

definition aerospike_special :: "pystr set" where
  "aerospike_special = {L ''hosts'', L ''set_routes'', L ''record_exists_policy''}"

definition loaded_hosts :: "(pyscalar, pyval) dict \<Rightarrow> cfg_attr option" where
  "loaded_hosts d =
     (case normalize_hosts (doc_get d ''hosts'') (doc_get d ''host'') (doc_get d ''port'') of
        Inr (Some hs) \<Rightarrow> Some (AVal (PList hs))
      | Inr None \<Rightarrow> attr_get AerospikeConfig_obj ''hosts''
      | Inl e \<Rightarrow> None)"

text \<open>A loop that assigns a parsed value when its key is present.\<close>

lemma assign_parsed:
  assumes "(if doc_has d n then rmap (\<lambda>x. dict_set (L n) (wrap x) cfg) (parse (doc_get d n)) else Inr cfg) = Inr cfg'"
  shows "dict_get cfg' f = (if f = L n then loaded_enum parse wrap cfg d f else dict_get cfg f)"
  using assms by (auto simp: loaded_enum_def doc_has_def doc_get_def rmap_eq_Inr kget_kset split: if_splits option.splits sum.splits)

lemma AerospikeConfig_from_dict_nonempty:
  assumes "AerospikeConfig_from_dict (PDict a) = Inr c" "kwf scalar_key a" "a \<noteq> []"
  shows "dict_get c f =
    (if f = L ''hosts'' then loaded_hosts a
     else if f = L ''set_routes'' then loaded_enum parse_set_routes ARoutes AerospikeConfig_obj a f
     else if f = L ''record_exists_policy'' then loaded_enum RecordExistsPolicy_of AExists AerospikeConfig_obj a f
     else if f \<in> {L ''host'', L ''port''} then dict_get AerospikeConfig_obj f
     else case sdict_get a (SStr f) of
            Some v \<Rightarrow> if f \<in> fields AerospikeConfig_obj \<union> set section_methods then Some (AVal v) else None
          | None \<Rightarrow> dict_get AerospikeConfig_obj f)"
proof -
  let ?d1 = "doc_del ''port'' (doc_del ''host'' (doc_del ''hosts'' a))"
  let ?d2 = "doc_del ''set_routes'' ?d1"
  obtain hosts cfg1 cfg2 cfg3 where
    hosts: "normalize_hosts (doc_get a ''hosts'') (doc_get a ''host'') (doc_get a ''port'') = Inr hosts"
    and cfg1: "cfg1 = (case hosts of Some hs \<Rightarrow> dict_set (L ''hosts'') (AVal (PList hs)) AerospikeConfig_obj
                       | None \<Rightarrow> AerospikeConfig_obj)"
    and cfg2: "(if doc_has ?d1 ''set_routes'' then rmap (\<lambda>rs. dict_set (L ''set_routes'') (ARoutes rs) cfg1)
                  (parse_set_routes (doc_get ?d1 ''set_routes'')) else Inr cfg1) = Inr cfg2"
    and cfg3: "(if doc_has ?d2 ''record_exists_policy'' then rmap (\<lambda>p. dict_set (L ''record_exists_policy'') (AExists p) cfg2)
                  (RecordExistsPolicy_of (doc_get ?d2 ''record_exists_policy'')) else Inr cfg2) = Inr cfg3"
    and c: "overlay section_methods (doc_del ''record_exists_policy'' ?d2) cfg3 = Inr c"
    using assms(1,3) by (simp add: AerospikeConfig_from_dict_def py_dict_def Let_def rbind_eq_Inr) blast
  have g1: "dict_get cfg1 g = (if g = L ''hosts'' then loaded_hosts a else dict_get AerospikeConfig_obj g)" for g
    using hosts by (simp add: cfg1 loaded_hosts_def attr_get_def kget_kset split: option.splits)
  note g2 = assign_parsed [of ?d1 "''set_routes''" ARoutes cfg1 parse_set_routes cfg2, OF cfg2]
  note g3 = assign_parsed [of ?d2 "''record_exists_policy''" AExists cfg2 RecordExistsPolicy_of cfg3, OF cfg3]
  have known: "dict_get cfg3 f = None \<longleftrightarrow> f \<notin> fields AerospikeConfig_obj"
    if "f \<notin> {L ''hosts'', L ''set_routes'', L ''record_exists_policy''}"
    using that dict_get_fields [of AerospikeConfig_obj f]
    unfolding g3 g2 g1 by auto
  have wf: "kwf scalar_key (doc_del ''record_exists_policy'' ?d2)" using assms(2) by (simp add: doc_del_wf)
  show ?thesis
    using overlay_get [OF wf c, of f] known
    by (auto simp: g3 g2 g1 doc_del_get loaded_enum_def split: option.splits)
qed

lemma AerospikeConfig_from_dict_get:
  assumes "AerospikeConfig_from_dict (PDict a) = Inr c" "kwf scalar_key a"
  shows "f \<in> fields AerospikeConfig_obj - aerospike_special \<Longrightarrow> dict_get c f = loaded AerospikeConfig_obj a f"
    and "attr_get c ''hosts'' = loaded_hosts a"
    and "attr_get c ''set_routes'' = loaded_enum parse_set_routes ARoutes AerospikeConfig_obj a (L ''set_routes'')"
    and "attr_get c ''record_exists_policy'' =
      loaded_enum RecordExistsPolicy_of AExists AerospikeConfig_obj a (L ''record_exists_policy'')"
proof -
  have cs: "a \<noteq> [] \<or> a = [] \<and> c = AerospikeConfig_obj"
    using assms(1) by (auto simp: AerospikeConfig_from_dict_def)
  show "dict_get c f = loaded AerospikeConfig_obj a f" if "f \<in> fields AerospikeConfig_obj - aerospike_special"
  proof -
    have "f \<notin> {L ''host'', L ''port''}" using that by (auto simp: fields_def AerospikeConfig_obj_def)
    then show ?thesis using that cs AerospikeConfig_from_dict_nonempty [OF assms, of f]
      by (cases "a = []") (auto simp: loaded_def aerospike_special_def split: option.splits)
  qed
  show "attr_get c ''hosts'' = loaded_hosts a"
    and "attr_get c ''set_routes'' = loaded_enum parse_set_routes ARoutes AerospikeConfig_obj a (L ''set_routes'')"
    and "attr_get c ''record_exists_policy'' =
      loaded_enum RecordExistsPolicy_of AExists AerospikeConfig_obj a (L ''record_exists_policy'')"
    using cs AerospikeConfig_from_dict_nonempty [OF assms]
    by (cases "a = []"; simp add: attr_get_def loaded_enum_def loaded_hosts_def normalize_hosts_def doc_get_def)+
qed

text \<open>A section of a document: a mapping, or nothing.\<close>

definition doc_section :: "(pyscalar, pyval) dict \<Rightarrow> string \<Rightarrow> (pyscalar, pyval) dict option" where
  "doc_section d name =
     (case doc_get d name of PDict s \<Rightarrow> Some s | PS SNone \<Rightarrow> Some [] | _ \<Rightarrow> None)"

lemma section_from_dict:
  assumes "doc_section d name = Some s"
  shows "RedisConfig_from_dict (doc_get d name) = RedisConfig_from_dict (PDict s)"
    and "AerospikeConfig_from_dict (doc_get d name) = AerospikeConfig_from_dict (PDict s)"
  using assms
  by (auto simp: doc_section_def RedisConfig_from_dict_def AerospikeConfig_from_dict_def
      split: pyval.splits pyscalar.splits)

abbreviation top_default :: cfg_obj where
  "top_default \<equiv> mo_top MigrationConfig_obj_default"

lemma top_from_dict_nonempty:
  assumes "MigrationConfig_from_dict (PDict d) = Inr c" "kwf scalar_key d" "d \<noteq> []"
  shows "RedisConfig_from_dict (doc_get d ''redis'') = Inr (mo_redis c)"
    and "AerospikeConfig_from_dict (doc_get d ''aerospike'') = Inr (mo_aerospike c)"
    and "dict_get (mo_top c) f =
    (if f = L ''hash_strategy'' then loaded_enum HashStrategy_of AHash top_default d f
     else if f = L ''ttl_overflow_policy'' then loaded_enum TtlOverflowPolicy_of ATtl top_default d f
     else if f \<in> {L ''redis'', L ''aerospike''} then dict_get top_default f
     else case sdict_get d (SStr f) of
            Some v \<Rightarrow> if f \<in> fields top_default \<union> set (L ''from_yaml'' # section_methods) then Some (AVal v) else None
          | None \<Rightarrow> dict_get top_default f)"
proof -
  let ?d1 = "doc_del ''aerospike'' (doc_del ''redis'' d)"
  let ?d2 = "doc_del ''hash_strategy'' ?d1"
  obtain redis aerospike top1 top2 top3 where
    redis: "RedisConfig_from_dict (doc_get d ''redis'') = Inr redis"
    and aero: "AerospikeConfig_from_dict (doc_get d ''aerospike'') = Inr aerospike"
    and top1: "(if doc_has ?d1 ''hash_strategy'' then rmap (\<lambda>h. dict_set (L ''hash_strategy'') (AHash h) top_default)
                  (HashStrategy_of (doc_get ?d1 ''hash_strategy'')) else Inr top_default) = Inr top1"
    and top2: "(if doc_has ?d2 ''ttl_overflow_policy'' then rmap (\<lambda>p. dict_set (L ''ttl_overflow_policy'') (ATtl p) top1)
                  (TtlOverflowPolicy_of (doc_get ?d2 ''ttl_overflow_policy'')) else Inr top1) = Inr top2"
    and top3: "overlay (L ''from_yaml'' # section_methods) (doc_del ''ttl_overflow_policy'' ?d2) top2 = Inr top3"
    and c: "c = \<lparr>mo_redis = redis, mo_aerospike = aerospike, mo_top = top3\<rparr>"
    using assms(1,3) by (simp add: MigrationConfig_from_dict_def py_dict_def Let_def rbind_eq_Inr rmap_eq_Inr) blast
  show "RedisConfig_from_dict (doc_get d ''redis'') = Inr (mo_redis c)"
    "AerospikeConfig_from_dict (doc_get d ''aerospike'') = Inr (mo_aerospike c)"
    using redis aero c by simp_all
  note g1 = assign_parsed [of ?d1 "''hash_strategy''" AHash top_default HashStrategy_of top1, OF top1]
  note g2 = assign_parsed [of ?d2 "''ttl_overflow_policy''" ATtl top1 TtlOverflowPolicy_of top2, OF top2]
  have known: "dict_get top2 f = None \<longleftrightarrow> f \<notin> fields top_default"
    if "f \<notin> {L ''hash_strategy'', L ''ttl_overflow_policy''}"
    using that dict_get_fields [of top_default f] unfolding g2 g1 by auto
  have wf: "kwf scalar_key (doc_del ''ttl_overflow_policy'' ?d2)" using assms(2) by (simp add: doc_del_wf)
  show "dict_get (mo_top c) f =
    (if f = L ''hash_strategy'' then loaded_enum HashStrategy_of AHash top_default d f
     else if f = L ''ttl_overflow_policy'' then loaded_enum TtlOverflowPolicy_of ATtl top_default d f
     else if f \<in> {L ''redis'', L ''aerospike''} then dict_get top_default f
     else case sdict_get d (SStr f) of
            Some v \<Rightarrow> if f \<in> fields top_default \<union> set (L ''from_yaml'' # section_methods) then Some (AVal v) else None
          | None \<Rightarrow> dict_get top_default f)"
    using overlay_get [OF wf top3, of f] known
    by (auto simp: c g2 g1 doc_del_get loaded_enum_def split: option.splits)
qed

lemma from_dict_parts:
  assumes "MigrationConfig_from_dict (PDict d) = Inr c" "kwf scalar_key d"
    and "doc_section d ''redis'' = Some r" "kwf scalar_key r"
    and "doc_section d ''aerospike'' = Some a" "kwf scalar_key a"
  shows "\<forall>f \<in> fields top_default. dict_get (mo_top c) f =
      (if f = L ''hash_strategy'' then loaded_enum HashStrategy_of AHash top_default d f
       else if f = L ''ttl_overflow_policy'' then loaded_enum TtlOverflowPolicy_of ATtl top_default d f
       else loaded top_default d f)"
    and "\<forall>f. f \<notin> fields top_default \<union> set (L ''from_yaml'' # section_methods) \<longrightarrow> dict_get (mo_top c) f = None"
    and "\<forall>f \<in> fields RedisConfig_obj. dict_get (mo_redis c) f =
      (if f = L ''scan_match'' \<and> sdict_get r (SStr f) = None then
         (case sdict_get r (SStr (L ''key_pattern'')) of Some v \<Rightarrow> Some (AVal v) | None \<Rightarrow> dict_get RedisConfig_obj f)
       else loaded RedisConfig_obj r f)"
    and "\<forall>f \<in> fields AerospikeConfig_obj. dict_get (mo_aerospike c) f =
      (if f = L ''hosts'' then loaded_hosts a
       else if f = L ''set_routes'' then loaded_enum parse_set_routes ARoutes AerospikeConfig_obj a f
       else if f = L ''record_exists_policy'' then loaded_enum RecordExistsPolicy_of AExists AerospikeConfig_obj a f
       else loaded AerospikeConfig_obj a f)"
proof -
  have cs: "d \<noteq> [] \<or> d = [] \<and> c = MigrationConfig_obj_default"
    using assms(1) by (auto simp: MigrationConfig_from_dict_def)
  note top = top_from_dict_nonempty [OF assms(1,2)]
  have empty: "r = [] \<and> a = []" if "d = []" using assms(3,5) that by (simp add: doc_section_def doc_get_def)
  have redis: "RedisConfig_from_dict (PDict r) = Inr (mo_redis c)"
    and aero: "AerospikeConfig_from_dict (PDict a) = Inr (mo_aerospike c)"
    using cs top(1,2) empty section_from_dict [OF assms(3)] section_from_dict [OF assms(5)]
    by (cases "d = []"; simp add: RedisConfig_from_dict_def AerospikeConfig_from_dict_def MigrationConfig_obj_default_def)+
  have sections: "{L ''redis'', L ''aerospike''} \<inter> fields top_default = {}"
    by (auto simp: fields_def MigrationConfig_obj_default_def)
  show "\<forall>f \<in> fields top_default. dict_get (mo_top c) f =
      (if f = L ''hash_strategy'' then loaded_enum HashStrategy_of AHash top_default d f
       else if f = L ''ttl_overflow_policy'' then loaded_enum TtlOverflowPolicy_of ATtl top_default d f
       else loaded top_default d f)"
    using cs top(3) sections by (cases "d = []") (auto simp: loaded_def loaded_enum_def split: option.splits)
  show "\<forall>f. f \<notin> fields top_default \<union> set (L ''from_yaml'' # section_methods) \<longrightarrow> dict_get (mo_top c) f = None"
  proof (intro allI impI)
    fix f assume f: "f \<notin> fields top_default \<union> set (L ''from_yaml'' # section_methods)"
    then have none: "dict_get top_default f = None" using dict_get_fields by blast
    have "f \<noteq> L ''hash_strategy''" "f \<noteq> L ''ttl_overflow_policy''"
      using f by (auto simp: fields_def MigrationConfig_obj_default_def)
    then show "dict_get (mo_top c) f = None"
      using cs top(3) [of f] f none by (cases "d = []") (auto split: option.splits)
  qed
  show "\<forall>f \<in> fields RedisConfig_obj. dict_get (mo_redis c) f =
      (if f = L ''scan_match'' \<and> sdict_get r (SStr f) = None then
         (case sdict_get r (SStr (L ''key_pattern'')) of Some v \<Rightarrow> Some (AVal v) | None \<Rightarrow> dict_get RedisConfig_obj f)
       else loaded RedisConfig_obj r f)"
    using RedisConfig_from_dict_get [OF redis assms(4)] by blast
  show "\<forall>f \<in> fields AerospikeConfig_obj. dict_get (mo_aerospike c) f =
      (if f = L ''hosts'' then loaded_hosts a
       else if f = L ''set_routes'' then loaded_enum parse_set_routes ARoutes AerospikeConfig_obj a f
       else if f = L ''record_exists_policy'' then loaded_enum RecordExistsPolicy_of AExists AerospikeConfig_obj a f
       else loaded AerospikeConfig_obj a f)"
    using AerospikeConfig_from_dict_get [OF aero assms(6)] by (auto simp: aerospike_special_def attr_get_def)
qed

text \<open>
  C30 A document overlays the defaults: when loading succeeds, every attribute of the configuration
  and of its two sections holds the value the document gives it, or its default when the document
  does not mention it; the enumerations hold the member with the given value, the routes and the
  hosts hold what their parsers make of the document, and \<^verbatim>\<open>key_pattern\<close> stands in for a missing
  \<^verbatim>\<open>scan_match\<close>. A name that is no attribute changes nothing.
\<close>

theorem from_dict_overlay:
  assumes "MigrationConfig_from_dict (PDict d) = Inr c" "kwf scalar_key d"
    and "doc_section d ''redis'' = Some r" "kwf scalar_key r"
    and "doc_section d ''aerospike'' = Some a" "kwf scalar_key a"
  shows "(\<forall>f \<in> fields top_default. dict_get (mo_top c) f =
      (if f = L ''hash_strategy'' then loaded_enum HashStrategy_of AHash top_default d f
       else if f = L ''ttl_overflow_policy'' then loaded_enum TtlOverflowPolicy_of ATtl top_default d f
       else loaded top_default d f))
    \<and> (\<forall>f. f \<notin> fields top_default \<union> set (L ''from_yaml'' # section_methods) \<longrightarrow> dict_get (mo_top c) f = None)
    \<and> (\<forall>f \<in> fields RedisConfig_obj. dict_get (mo_redis c) f =
      (if f = L ''scan_match'' \<and> sdict_get r (SStr f) = None then
         (case sdict_get r (SStr (L ''key_pattern'')) of Some v \<Rightarrow> Some (AVal v) | None \<Rightarrow> dict_get RedisConfig_obj f)
       else loaded RedisConfig_obj r f))
    \<and> (\<forall>f \<in> fields AerospikeConfig_obj. dict_get (mo_aerospike c) f =
      (if f = L ''hosts'' then loaded_hosts a
       else if f = L ''set_routes'' then loaded_enum parse_set_routes ARoutes AerospikeConfig_obj a f
       else if f = L ''record_exists_policy'' then loaded_enum RecordExistsPolicy_of AExists AerospikeConfig_obj a f
       else loaded AerospikeConfig_obj a f))"
  using from_dict_parts [OF assms] by (intro conjI)

text \<open>A document with a section, a value of the top level and an enumeration.\<close>

definition ref_doc :: "(pyscalar, pyval) dict" where
  "ref_doc =
     [(SStr (L ''redis''), PDict [(SStr (L ''key_pattern''), PS (SStr (L ''user:*'')))]),
      (SStr (L ''workers''), PS (SInt 4)),
      (SStr (L ''hash_strategy''), PS (SStr (L ''field_bins'')))]"

lemma ref_doc_loaded:
  "\<exists>c. MigrationConfig_from_dict (PDict ref_doc) = Inr c \<and> attr_get (mo_top c) ''workers'' = Some (AInt 4) \<and>
     attr_get (mo_top c) ''hash_strategy'' = Some (AHash FIELD_BINS) \<and>
     attr_get (mo_redis c) ''scan_match'' = Some (AStr (L ''user:*'')) \<and>
     attr_get (mo_aerospike c) ''hosts'' = Some (AVal (PList [PTuple [PS (SStr (L ''localhost'')), PS (SInt 3000)]]))"
  by (simp add: ref_doc_def MigrationConfig_from_dict_def py_dict_def doc_get_def RedisConfig_from_dict_def
        AerospikeConfig_from_dict_def resolve_key_pattern_def doc_has_def doc_del_def dict_del_def attr_get_def
        overlay_def HashStrategy_of_def enum_of_def rmap_def Let_def MigrationConfig_obj_default_def RedisConfig_obj_def
        AerospikeConfig_obj_def)

theorem from_dict_overlay_witness:
  "\<exists>c. MigrationConfig_from_dict (PDict ref_doc) = Inr c \<and>
     attr_get (mo_top c) ''workers'' = Some (AInt 4) \<and> attr_get (mo_top c) ''hash_strategy'' = Some (AHash FIELD_BINS) \<and>
     attr_get (mo_top c) ''scan_batch'' = Some (AInt 500) \<and>
     attr_get (mo_redis c) ''scan_match'' = Some (AStr (L ''user:*'')) \<and>
     attr_get (mo_aerospike c) ''namespace'' = Some (AStr (L ''test''))"
proof -
  let ?r = "[(SStr (L ''key_pattern''), PS (SStr (L ''user:*'')))]"
  obtain c where c: "MigrationConfig_from_dict (PDict ref_doc) = Inr c"
    using ref_doc_loaded by blast
  have wf: "kwf scalar_key ref_doc" "doc_section ref_doc ''redis'' = Some ?r" "kwf scalar_key ?r"
    "doc_section ref_doc ''aerospike'' = Some []" "kwf scalar_key ([] :: (pyscalar, pyval) dict)"
    by (simp_all add: ref_doc_def kwf_def doc_section_def doc_get_def)
  have fs: "L ''workers'' \<in> fields top_default" "L ''hash_strategy'' \<in> fields top_default"
    "L ''scan_batch'' \<in> fields top_default" "L ''scan_match'' \<in> fields RedisConfig_obj"
    "L ''namespace'' \<in> fields AerospikeConfig_obj"
    by (simp_all add: fields_def MigrationConfig_obj_default_def RedisConfig_obj_def AerospikeConfig_obj_def)
  note all = from_dict_overlay [OF c wf]
  have "attr_get (mo_top c) ''workers'' = Some (AInt 4)" "attr_get (mo_top c) ''hash_strategy'' = Some (AHash FIELD_BINS)"
    "attr_get (mo_top c) ''scan_batch'' = Some (AInt 500)"
    "attr_get (mo_redis c) ''scan_match'' = Some (AStr (L ''user:*''))"
    "attr_get (mo_aerospike c) ''namespace'' = Some (AStr (L ''test''))"
    using all fs
    by (simp_all add: attr_get_def loaded_def loaded_enum_def ref_doc_def HashStrategy_of_def enum_of_def
        MigrationConfig_obj_default_def AerospikeConfig_obj_def)
  then show ?thesis using c by blast
qed

section \<open>Typed views\<close>

lemma view_default: "MigrationConfig_view MigrationConfig_obj_default = Some MigrationConfig_default"
  by (simp add: MigrationConfig_view_def RedisConfig_view_def AerospikeConfig_view_def view_def attr_get_def
      MigrationConfig_obj_default_def RedisConfig_obj_def AerospikeConfig_obj_def MigrationConfig_default_def
      RedisConfig_default_def AerospikeConfig_default_def ten_float_def float_rat_def)

text \<open>An attribute read as a float is finite, or absent.\<close>

fun finite_attr :: "cfg_attr \<Rightarrow> bool" where
  "finite_attr (AVal (PS (SFloat x))) = isfinite x"
| "finite_attr a = True"

definition all_finite :: "MigrationConfig_obj \<Rightarrow> bool" where
  "all_finite c \<longleftrightarrow> list_all (\<lambda>p. finite_attr (snd p)) (mo_redis c @ mo_top c)"

lemma as_opt_text_AOptStr: "as_opt_text (AOptStr t) = Some t"
  by (cases t) (simp_all add: AOptStr_def)

lemma as_number_finite: "isfinite x \<Longrightarrow> as_number (AFloat x) \<noteq> None"
  by (cases x) auto

lemma env_opt_float_typed:
  "env_opt_float env n = Inr a \<Longrightarrow> finite_attr a \<Longrightarrow> as_opt_number a \<noteq> None"
proof -
  assume a: "env_opt_float env n = Inr a" "finite_attr a"
  then consider "a = ANone" | x where "a = AFloat x" "isfinite x"
    by (auto simp: env_opt_float_def rmap_eq_Inr split: option.splits)
  then show ?thesis
  proof cases
    case (2 x)
    then show ?thesis by (cases x) auto
  qed simp
qed

lemmas view_simps = view_def attr_get_def env_opt_def as_opt_text_AOptStr

lemma RedisConfig_from_env_typed:
  assumes "RedisConfig_from_env env = Inr c" "list_all (\<lambda>p. finite_attr (snd p)) c"
  shows "\<exists>t. RedisConfig_view c = Some t"
proof -
  obtain port db st ct where
    st: "env_opt_float env ''REDIS_SOCKET_TIMEOUT'' = Inr st"
    and ct: "env_opt_float env ''REDIS_SOCKET_CONNECT_TIMEOUT'' = Inr ct"
    and c: "RedisConfig_from_env env = Inr c" "c = [(L ''host'', AStr (env_str env ''REDIS_HOST'' (rc_host RedisConfig_default))),
         (L ''port'', AInt port), (L ''db'', AInt db), (L ''url'', env_opt env ''REDIS_URL''),
         (L ''cluster'', ABool (as_bool (env_get env ''REDIS_CLUSTER'') (rc_cluster RedisConfig_default))),
         (L ''username'', env_opt env ''REDIS_USERNAME''), (L ''password'', env_opt env ''REDIS_PASSWORD''),
         (L ''ssl'', ABool (as_bool (env_get env ''REDIS_SSL'') (rc_ssl RedisConfig_default))),
         (L ''ssl_ca_certs'', env_opt env ''REDIS_SSL_CA_CERTS''), (L ''ssl_certfile'', env_opt env ''REDIS_SSL_CERTFILE''),
         (L ''ssl_keyfile'', env_opt env ''REDIS_SSL_KEYFILE''), (L ''ssl_cert_reqs'', env_opt env ''REDIS_SSL_CERT_REQS''),
         (L ''socket_timeout'', st), (L ''socket_connect_timeout'', ct),
         (L ''scan_match'', AStr (env_str env ''REDIS_SCAN_MATCH'' (rc_scan_match RedisConfig_default)))]"
    using assms(1) by (auto simp: RedisConfig_from_env_def Let_def rbind_eq_Inr)
  have "as_opt_number st \<noteq> None" "as_opt_number ct \<noteq> None"
    using env_opt_float_typed st ct assms(2) by (auto simp: c(2))
  then show ?thesis by (auto simp: c(2) RedisConfig_view_def view_simps)
qed

lemma AerospikeConfig_from_env_typed:
  "AerospikeConfig_from_env env = Inr c \<Longrightarrow> \<exists>t. AerospikeConfig_view c = Some t"
  by (auto simp: AerospikeConfig_from_env_def Let_def rbind_eq_Inr AerospikeConfig_view_def view_simps)

text \<open>
  The environment always yields a configuration of the declared types: when it is accepted and its
  numbers are finite, every attribute of the three objects has the type that its dataclass declares.
\<close>

lemma from_env_typed:
  assumes "MigrationConfig_from_env env = Inr c" "all_finite c"
  shows "\<exists>t. MigrationConfig_view c = Some t"
proof -
  obtain redis aero workers batch queue sc wr wb hs ttl iv where
    parts: "RedisConfig_from_env env = Inr redis" "AerospikeConfig_from_env env = Inr aero"
    and c: "c = \<lparr>mo_redis = redis, mo_aerospike = aero,
         mo_top = [(L ''workers'', AInt workers), (L ''scan_batch'', AInt batch), (L ''queue_size'', AInt queue),
            (L ''scan_rate_limit'', AFloat sc), (L ''write_rate_limit'', AFloat wr),
            (L ''write_batch_size'', AInt wb), (L ''hash_strategy'', AHash hs),
            (L ''ttl_overflow_policy'', ATtl ttl), (L ''progress_interval'', AFloat iv)]\<rparr>"
    using assms(1) by (auto simp: MigrationConfig_from_env_def Let_def rbind_eq_Inr)
  have fin: "as_number (AFloat sc) \<noteq> None" "as_number (AFloat wr) \<noteq> None" "as_number (AFloat iv) \<noteq> None"
    using assms(2) as_number_finite by (auto simp: all_finite_def c)
  obtain tr ta where "RedisConfig_view redis = Some tr" "AerospikeConfig_view aero = Some ta"
    using RedisConfig_from_env_typed [OF parts(1)] AerospikeConfig_from_env_typed [OF parts(2)] assms(2)
    by (auto simp: all_finite_def c)
  then show ?thesis using fin by (auto simp: c MigrationConfig_view_def view_simps)
qed

lemma from_env_empty:
  "\<exists>c. MigrationConfig_from_env [] = Inr c \<and> all_finite c \<and> MigrationConfig_view c = Some MigrationConfig_default"
  by (simp add: MigrationConfig_from_env_def RedisConfig_from_env_def AerospikeConfig_from_env_def env_int_def
      env_float_def env_opt_float_def env_str_def env_get_def opt_text_def as_bool_def enum_of_def
      RecordExistsPolicy_of_def HashStrategy_of_def TtlOverflowPolicy_of_def Let_def view_simps AOptStr_def
      all_finite_def RedisConfig_default_def AerospikeConfig_default_def MigrationConfig_default_def
      MigrationConfig_view_def RedisConfig_view_def AerospikeConfig_view_def ten_float_def zero_float_def float_rat_def)

end
