(* ===== verification/Ttl_Facts.thy ===== *)
theory Ttl_Facts
  imports Converters
begin

text \<open>
  The TTL policy: seconds are the exact ceiling of the milliseconds although the program divides in
  floating point, the reserved values are avoided, and the overflow warning appears once per run.
\<close>

section \<open>The ceiling\<close>

text \<open>The value the policy is meant to compute before its limit: whole seconds, at least one.\<close>

definition exact_seconds :: "int \<Rightarrow> int" where
  "exact_seconds ttl_ms = max 1 ((ttl_ms + 999) div 1000)"

lemma int_truediv_nonneg:
  assumes "0 \<le> t" "py_ceil (round_ratio False (nat t) 1000) = Inr c"
  shows "ceil_seconds t = Inr c"
  using assms by (cases "round_ratio False (nat t) 1000") (auto simp: ceil_seconds_def int_truediv_def)

lemma ceil_seconds_small:
  assumes "0 \<le> t" "t < 1000 * 2 ^ 44"
  shows "ceil_seconds t = Inr ((t + 999) div 1000)"
proof (cases "t = 0")
  case True
  then show ?thesis by (intro int_truediv_nonneg) (auto simp: round_ratio_def)
next
  case False
  then have "0 < nat t" "nat t < 1000 * 2 ^ 44" using assms by auto
  from ceil_thousandth_small [OF this] show ?thesis using assms(1)
    by (intro int_truediv_nonneg) simp_all
qed

lemma ceil_seconds_large:
  assumes "1000 * 2 ^ 44 \<le> t" "t < 2 ^ 63"
  shows "\<exists>c. ceil_seconds t = Inr c \<and> 2 ^ 44 \<le> c"
proof -
  have "1000 * 2 ^ 44 \<le> nat t" "nat t < 2 ^ 63" using assms by auto
  from ceil_thousandth_large [OF this] show ?thesis using assms(1) int_truediv_nonneg [of t] by auto
qed

lemma exact_seconds_large: "1000 * 2 ^ 44 \<le> t \<Longrightarrow> 2 ^ 44 \<le> exact_seconds t"
  by (simp add: exact_seconds_def)

lemma exact_seconds_bounds:
  "0 \<le> t \<Longrightarrow> t \<le> 1000 * exact_seconds t \<and> 1 \<le> exact_seconds t \<and> (0 < t \<longrightarrow> 1000 * (exact_seconds t - 1) < t)"
  by (auto simp: exact_seconds_def max_def)

section \<open>The policy\<close>

text \<open>At most one warning has been logged, and exactly one once the flag is set.\<close>

definition ttl_policy_wf :: "TtlPolicy \<Rightarrow> bool" where
  "ttl_policy_wf p \<longleftrightarrow> length (tp_log p) = (if tp_warned p then 1 else 0)"

lemma warn_once_wf: "ttl_policy_wf p \<Longrightarrow> ttl_policy_wf (warn_once p)"
  by (simp add: ttl_policy_wf_def warn_once_def)

lemma warn_once_fields [simp]:
  "tp_mode (warn_once p) = tp_mode p" "tp_max_ttl_s (warn_once p) = tp_max_ttl_s p" "tp_warned (warn_once p)"
  by (simp_all add: warn_once_def)

lemma snd_handle_overflow: "snd (handle_overflow p s) = warn_once p"
  by (simp add: handle_overflow_def split: TtlOverflowPolicy.splits)

lemma snd_to_ttl: "snd (to_ttl p t) = p \<or> snd (to_ttl p t) = warn_once p"
  by (cases t) (auto simp: Let_def snd_handle_overflow split: sum.splits)

lemma to_ttl_wf: "ttl_policy_wf p \<Longrightarrow> ttl_policy_wf (snd (to_ttl p t))"
  using snd_to_ttl [of p t] warn_once_wf by auto

lemma to_ttl_fields [simp]:
  "tp_mode (snd (to_ttl p t)) = tp_mode p" "tp_max_ttl_s (snd (to_ttl p t)) = tp_max_ttl_s p"
  using snd_to_ttl [of p t] by auto

lemma to_ttl_Some:
  assumes "ceil_seconds t = Inr c"
  shows "to_ttl p (Some t) =
    (if tp_max_ttl_s p \<noteq> 0 \<and> tp_max_ttl_s p < max 1 c then handle_overflow p (max 1 c)
     else (Inr (min MAX_REAL_TTL_S (max 1 c)), p))"
  using assms by (simp add: Let_def)

text \<open>The outcome the policy promises for a TTL in milliseconds.\<close>

definition ttl_spec :: "TtlOverflowPolicy \<Rightarrow> int \<Rightarrow> int \<Rightarrow> int res" where
  "ttl_spec mode max_ttl ttl_ms =
     (let s = exact_seconds ttl_ms
      in if max_ttl \<noteq> 0 \<and> max_ttl < s then
           (case mode of
              REJECT \<Rightarrow> Inl TtlTooLongError
            | CLAMP \<Rightarrow> Inr max_ttl
            | NEVER_EXPIRE \<Rightarrow> Inr TTL_NEVER_EXPIRE)
         else Inr (min 0xFFFFFFFC s))"

lemma fst_handle_overflow:
  "fst (handle_overflow p s) =
     (case tp_mode p of REJECT \<Rightarrow> Inl TtlTooLongError | CLAMP \<Rightarrow> Inr (tp_max_ttl_s p)
      | NEVER_EXPIRE \<Rightarrow> Inr TTL_NEVER_EXPIRE)"
  by (simp add: handle_overflow_def split: TtlOverflowPolicy.splits)

section \<open>Properties\<close>

text \<open>
  C9 For every TTL that Redis can report (a non-negative 64-bit number of milliseconds) and every
  limit below 2^44 seconds, the policy returns what its contract says of the exact number of whole
  seconds, rounded up and at least one: the floating-point division does not show. Within the limit
  the TTL is that number (capped below the reserved values); above it the mode decides between
  rejection, exactly the limit, and never-expire.
\<close>

theorem to_ttl_correct:
  assumes "0 \<le> t" "t < 2 ^ 63" "tp_max_ttl_s p < 2 ^ 44"
  shows "fst (to_ttl p (Some t)) = ttl_spec (tp_mode p) (tp_max_ttl_s p) t"
proof (cases "t < 1000 * 2 ^ 44")
  case True
  from ceil_seconds_small [OF assms(1) True] show ?thesis
    by (simp add: to_ttl_Some ttl_spec_def exact_seconds_def fst_handle_overflow MAX_REAL_TTL_S_def Let_def
        split: TtlOverflowPolicy.splits)
next
  case False
  then have "1000 * 2 ^ 44 \<le> t" by simp
  from ceil_seconds_large [OF this assms(2)]
  obtain c where c: "ceil_seconds t = Inr c" "2 ^ 44 \<le> c" by blast
  have s: "2 ^ 44 \<le> exact_seconds t" using False by (intro exact_seconds_large) simp
  then have "tp_max_ttl_s p < max 1 c" "tp_max_ttl_s p < exact_seconds t" using c assms(3) by simp_all
  moreover have "min MAX_REAL_TTL_S (max 1 c) = min 0xFFFFFFFC (exact_seconds t)"
    using c s by (simp add: MAX_REAL_TTL_S_def)
  ultimately show ?thesis
    by (simp add: c(1) ttl_spec_def fst_handle_overflow Let_def split: TtlOverflowPolicy.splits)
qed

theorem to_ttl_correct_witness:
  "fst (to_ttl (TtlPolicy_init CLAMP 100) (Some 150000)) = ttl_spec CLAMP 100 150000 \<and>
   ttl_spec CLAMP 100 150000 = Inr 100 \<and> ttl_spec CLAMP 100 89001 = Inr 90"
  using to_ttl_correct [of 150000 "TtlPolicy_init CLAMP 100"]
  by (simp add: TtlPolicy_init_def ttl_spec_def exact_seconds_def)

text \<open>
  A record that keeps its own TTL never expires early and at most one second late: the seconds
  written are at least the milliseconds left, and one second less would not have been enough. With a
  limit of at most 0xFFFFFFFC the value written lies between 1 and 0xFFFFFFFC, clear of the values
  Aerospike reserves, unless the never-expire policy asked for the sentinel.
\<close>

theorem to_ttl_bounds:
  assumes "0 \<le> t" "t < 2 ^ 63" "0 \<le> tp_max_ttl_s p" "tp_max_ttl_s p \<le> 0xFFFFFFFC"
    and out: "fst (to_ttl p (Some t)) = Inr s"
  shows "(1 \<le> s \<and> s \<le> 0xFFFFFFFC \<or> tp_mode p = NEVER_EXPIRE \<and> s = TTL_NEVER_EXPIRE) \<and>
    (s < (if tp_max_ttl_s p = 0 then 0xFFFFFFFC else tp_max_ttl_s p) \<longrightarrow>
       t \<le> 1000 * s \<and> (0 < t \<longrightarrow> 1000 * (s - 1) < t))"
proof -
  have "ttl_spec (tp_mode p) (tp_max_ttl_s p) t = Inr s"
    using to_ttl_correct [OF assms(1,2)] assms(4) out by simp
  then show ?thesis using exact_seconds_bounds [OF assms(1)] assms(3,4)
    by (auto simp: ttl_spec_def Let_def TTL_NEVER_EXPIRE_def min_def
        split: if_splits TtlOverflowPolicy.splits)
qed

theorem to_ttl_bounds_witness:
  "fst (to_ttl (TtlPolicy_init REJECT 100) (Some 1)) = Inr 1 \<and> (1::int) \<le> 1000 * 1"
proof -
  have out: "fst (to_ttl (TtlPolicy_init REJECT 100) (Some 1)) = Inr 1"
    using to_ttl_correct [of 1 "TtlPolicy_init REJECT 100"]
    by (simp add: TtlPolicy_init_def ttl_spec_def exact_seconds_def)
  show ?thesis using out to_ttl_bounds [OF _ _ _ _ out] by (simp add: TtlPolicy_init_def)
qed

text \<open>
  Clamping can produce a reserved value: with a limit above 0xFFFFFFFC the policy returns the
  limit itself, so a limit of 0xFFFFFFFF turns an over-long TTL into never-expire.
\<close>

theorem clamp_hits_sentinel:
  "fst (to_ttl (TtlPolicy_init CLAMP 0xFFFFFFFF) (Some (1000 * 2 ^ 32))) = Inr TTL_NEVER_EXPIRE"
  using to_ttl_correct [of "1000 * 2 ^ 32" "TtlPolicy_init CLAMP 0xFFFFFFFF"]
  by (simp add: TtlPolicy_init_def ttl_spec_def exact_seconds_def TTL_NEVER_EXPIRE_def)

text \<open>The policy's state after a sequence of calls.\<close>

definition to_ttl_run :: "TtlPolicy \<Rightarrow> int option list \<Rightarrow> TtlPolicy" where
  "to_ttl_run p ts = fold (\<lambda>t p. snd (to_ttl p t)) ts p"

lemma to_ttl_run_wf: "ttl_policy_wf p \<Longrightarrow> ttl_policy_wf (to_ttl_run p ts)"
  unfolding to_ttl_run_def by (induction ts arbitrary: p) (simp_all add: to_ttl_wf)

lemma to_ttl_run_fields:
  "tp_mode (to_ttl_run p ts) = tp_mode p" "tp_max_ttl_s (to_ttl_run p ts) = tp_max_ttl_s p"
  unfolding to_ttl_run_def by (induction ts arbitrary: p) simp_all

text \<open>
  Over a whole run, whatever TTLs are resolved and in whatever order, the policy logs its
  overflow warning at most once.
\<close>

theorem ttl_warns_once: "length (tp_log (to_ttl_run (TtlPolicy_init mode max_ttl) ts)) \<le> 1"
proof -
  have "ttl_policy_wf (TtlPolicy_init mode max_ttl)"
    by (simp add: ttl_policy_wf_def TtlPolicy_init_def)
  from to_ttl_run_wf [OF this, of ts] show ?thesis by (simp add: ttl_policy_wf_def split: if_splits)
qed

end
