(* ===== verification/Literals.thy ===== *)
theory Literals
  imports Py_Float
begin

text \<open>
  Decimal literals and the numbers they denote, stated by the positions of the digits and independently of
  the functions that read them; the doubles of \<open>Py_Float\<close> are nearest to the rationals they round, and
  reading a decimal literal gives a double nearest to the number it denotes.
\<close>

section \<open>Digits\<close>

definition decimal_value :: "nat list \<Rightarrow> nat" where
  "decimal_value ds = (\<Sum>j<length ds. ds ! j * 10 ^ (length ds - 1 - j))"

definition digit_values :: "pystr \<Rightarrow> nat list" where
  "digit_values = map (the \<circ> digit_value)"

lemma nat_of_digits_value: "nat_of_digits ds = decimal_value ds"
proof (induction ds rule: rev_induct)
  case (snoc d ds)
  have "(ds @ [d]) ! j * 10 ^ (length ds - j) = 10 * (ds ! j * 10 ^ (length ds - 1 - j))" if "j < length ds" for j
    using that Suc_diff_Suc [of j "length ds"] by (simp add: nth_append flip: power_Suc)
  then have "decimal_value (ds @ [d]) = decimal_value ds * 10 + d"
    by (simp add: decimal_value_def sum_distrib_left mult.commute [of _ 10])
  then show ?case using snoc by (simp add: nat_of_digits_def)
qed (simp add: nat_of_digits_def decimal_value_def)

section \<open>Literals\<close>

text \<open>
  An integer literal: a minus or nothing, then a zero alone, or a digit from 1 to 9 in ASCII and any decimal
  digits after it, at most 4300 digits in all.
\<close>

definition integer_literal :: "pystr \<Rightarrow> int \<Rightarrow> bool" where
  "integer_literal t i \<longleftrightarrow> (\<exists>neg c us. t = (if neg then [45] else []) @ c # us \<and>
     48 \<le> c \<and> c \<le> 57 \<and> (c = 48 \<longrightarrow> us = []) \<and> list_all is_digit us \<and> length us < 4300 \<and>
     i = (if neg then - 1 else 1) * int (decimal_value (digit_values (c # us))))"

text \<open>The exponent of a decimal literal: nothing, or a letter, an optional sign and digits.\<close>

definition exponent_literal :: "pystr \<Rightarrow> int \<Rightarrow> bool" where
  "exponent_literal t x \<longleftrightarrow> t = [] \<and> x = 0 \<or>
     (\<exists>e sgn ds. t = e # sgn @ ds \<and> (e = 101 \<or> e = 69) \<and> sgn \<in> {[], [43], [45]} \<and> ds \<noteq> [] \<and> list_all is_digit ds \<and>
        x = (if sgn = [45] then - 1 else 1) * int (decimal_value (digit_values ds)))"

text \<open>An unsigned decimal literal and its number: digits around an optional point, and an exponent.\<close>

definition decimal_literal :: "pystr \<Rightarrow> rat \<Rightarrow> bool" where
  "decimal_literal t v \<longleftrightarrow> (\<exists>ip fp expo x.
     (t = ip @ expo \<and> fp = [] \<or> t = ip @ 46 # fp @ expo) \<and> ip @ fp \<noteq> [] \<and>
     list_all is_digit (ip @ fp) \<and> exponent_literal expo x \<and>
     v = of_nat (decimal_value (digit_values (ip @ fp))) * 10 powi (x - int (length fp)))"

section \<open>Rounding\<close>

text \<open>
  A double with 53 bits of precision, or with the smallest exponent, whose distance to \<open>v\<close> is at most
  half a unit in its last place.
\<close>

fun nearest_double :: "bool \<Rightarrow> rat \<Rightarrow> pyfloat \<Rightarrow> bool" where
  "nearest_double neg v (FFin s m e) \<longleftrightarrow> s = neg \<and> m < 2 ^ 53 \<and> - 1074 \<le> e \<and> e \<le> 971 \<and>
     (2 ^ 52 \<le> m \<or> e = - 1074) \<and> 2 * \<bar>of_nat m * 2 powi e - v\<bar> \<le> 2 powi e"
| "nearest_double neg v x \<longleftrightarrow> False"

lemma round_half_even_error:
  assumes "0 < b"
  shows "2 * \<bar>of_nat (round_half_even a b) * of_nat b - of_nat a\<bar> \<le> (of_nat b :: rat)"
proof -
  have "2 * \<bar>int (round_half_even a b) * int b - int a\<bar> \<le> int b"
  proof -
    define q r where qr: "q = a div b" "r = a mod b"
    have a: "int a = int q * int b + int r" "int r < int b"
      using assms by (simp_all add: qr flip: of_nat_mult of_nat_add)
    have "round_half_even a b = q \<and> 2 * r \<le> b \<or> round_half_even a b = q + 1 \<and> b \<le> 2 * r"
      by (auto simp: round_half_even_def Let_def qr)
    then show ?thesis using a by (auto simp: distrib_right)
  qed
  then have "(of_int (2 * \<bar>int (round_half_even a b) * int b - int a\<bar>) :: rat) \<le> of_int (int b)" by (simp only: of_int_le_iff)
  then show ?thesis by simp
qed

lemma scaled_round_error:
  assumes "0 < q"
  shows "2 * \<bar>of_nat (scaled_round p q e) * 2 powi e - of_nat p / of_nat q\<bar> \<le> (2 powi e :: rat)"
proof (cases "0 \<le> e")
  case True
  then obtain n where e: "e = int n" by (metis nonneg_int_cases)
  let ?r = "of_nat (round_half_even p (q * 2 ^ n)) :: rat"
  have "2 * \<bar>?r * (of_nat q * 2 ^ n) - of_nat p\<bar> \<le> of_nat q * 2 ^ n"
    using round_half_even_error [of "q * 2 ^ n" p] assms by simp
  moreover have "?r * 2 ^ n - of_nat p / of_nat q = (?r * (of_nat q * 2 ^ n) - of_nat p) / of_nat q"
    using assms by (simp add: field_simps)
  ultimately show ?thesis using assms by (simp add: scaled_round_def e abs_divide field_simps)
next
  case False
  then obtain n where e: "e = - int n" by (metis int_cases2 not_le neg_le_0_iff_le of_nat_0_le_iff)
  let ?r = "of_nat (round_half_even (p * 2 ^ n) q) :: rat"
  have b: "2 * \<bar>?r * of_nat q - of_nat p * 2 ^ n\<bar> \<le> of_nat q"
    using round_half_even_error [of q "p * 2 ^ n"] assms by simp
  moreover have "?r / 2 ^ n - of_nat p / of_nat q = (?r * of_nat q - of_nat p * 2 ^ n) / (of_nat q * 2 ^ n)"
    using assms by (simp add: field_simps)
  ultimately have "2 * \<bar>?r / 2 ^ n - of_nat p / of_nat q\<bar> \<le> 1 / 2 ^ n"
    using assms by (simp add: abs_divide field_simps)
  then show ?thesis using False by (simp add: scaled_round_def e power_int_minus field_simps)
qed

lemma ratio_ge_pow2_iff:
  assumes "0 < q"
  shows "ratio_ge_pow2 p q l \<longleftrightarrow> (2 powi l :: rat) \<le> of_nat p / of_nat q"
proof (cases "0 \<le> l")
  case True
  then obtain n where l: "l = int n" by (metis nonneg_int_cases)
  have "(2 ^ n :: rat) \<le> of_nat p / of_nat q \<longleftrightarrow> of_nat (q * 2 ^ n) \<le> (of_nat p :: rat)"
    using assms by (simp add: field_simps)
  then show ?thesis unfolding of_nat_le_iff by (simp add: ratio_ge_pow2_def l)
next
  case False
  then obtain n where l: "l = - int n" by (metis int_cases2 not_le neg_le_0_iff_le of_nat_0_le_iff)
  have "(1 / 2 ^ n :: rat) \<le> of_nat p / of_nat q \<longleftrightarrow> of_nat q \<le> (of_nat (p * 2 ^ n) :: rat)"
    using assms by (simp add: field_simps)
  then show ?thesis using False unfolding of_nat_le_iff by (simp add: ratio_ge_pow2_def l power_int_minus inverse_eq_divide)
qed

lemma ratio_log2_bounds:
  assumes "0 < p" "0 < q"
  shows "(2 powi ratio_log2 p q :: rat) \<le> of_nat p / of_nat q"
    and "(of_nat p / of_nat q :: rat) < 2 powi (ratio_log2 p q + 1)"
proof -
  show "(2 powi ratio_log2 p q :: rat) \<le> of_nat p / of_nat q"
    using ratio_log2_ge [OF assms] ratio_ge_pow2_iff [OF assms(2)] by blast
  show "(of_nat p / of_nat q :: rat) < 2 powi (ratio_log2 p q + 1)"
  proof (cases "ratio_ge_pow2 p q (int (bitlen p) - int (bitlen q))")
    case True
    have b: "(of_nat p :: rat) < 2 ^ bitlen p" "2 ^ bitlen q \<le> (2 * of_nat q :: rat)"
    proof -
      have "p < 2 ^ bitlen p" using bitlen_bounds [OF assms(1)] by blast
      then have "(of_nat p :: rat) < of_nat (2 ^ bitlen p)" by (simp only: of_nat_less_iff)
      then show "(of_nat p :: rat) < 2 ^ bitlen p" by simp
      have "2 ^ bitlen q \<le> 2 * q" using bitlen_bounds [OF assms(2)] by (cases "bitlen q") auto
      then have "of_nat (2 ^ bitlen q) \<le> (of_nat (2 * q) :: rat)" by (simp only: of_nat_le_iff)
      then show "2 ^ bitlen q \<le> (2 * of_nat q :: rat)" by simp
    qed
    have "(of_nat p / of_nat q :: rat) < 2 ^ bitlen p / of_nat q"
      using b(1) assms by (simp add: divide_strict_right_mono)
    also have "\<dots> \<le> 2 ^ bitlen p * 2 / 2 ^ bitlen q"
      using b(2) assms by (simp add: field_simps)
    also have "\<dots> = 2 powi (ratio_log2 p q + 1)"
      using True by (simp add: ratio_log2_def Let_def power_int_add power_int_diff)
    finally show ?thesis .
  next
    case False
    then show ?thesis using ratio_ge_pow2_iff [OF assms(2)] by (simp add: ratio_log2_def Let_def not_le)
  qed
qed

lemma half_unit:
  fixes x v u :: rat
  assumes "2 * \<bar>x - v\<bar> \<le> u"
  shows "v < y \<Longrightarrow> 2 * x < 2 * y + u" "y \<le> v \<Longrightarrow> 2 * y - u \<le> 2 * x" "0 < u \<Longrightarrow> 2 * \<bar>x - v\<bar> \<le> 2 * u"
  using assms by (auto simp: abs_if split: if_splits)

lemma scaled_round_range:
  assumes "0 < p" "0 < q"
  defines "e \<equiv> max (- 1074) (ratio_log2 p q - 52)"
  shows "scaled_round p q e \<le> 2 ^ 53" and "2 ^ 52 \<le> scaled_round p q e \<or> e = - 1074"
proof -
  let ?m = "scaled_round p q e" and ?v = "of_nat p / of_nat q :: rat" and ?u = "2 powi e :: rat"
  have u: "0 < ?u" by simp
  have err: "2 * \<bar>of_nat ?m * ?u - ?v\<bar> \<le> ?u" by (rule scaled_round_error [OF assms(2)])
  have "?v < 2 powi (ratio_log2 p q + 1)" by (rule ratio_log2_bounds [OF assms(1,2)])
  also have "\<dots> \<le> 2 powi (e + 53)" by (rule power_int_increasing) (auto simp: e_def)
  also have "\<dots> = 2 ^ 53 * ?u" by (simp add: power_int_add)
  finally have "?v < 2 ^ 53 * ?u" .
  then have "2 * (of_nat ?m * ?u) < 2 * (2 ^ 53 * ?u) + ?u" by (rule half_unit(1) [OF err])
  then have "2 * (of_nat ?m * ?u) < (2 * 2 ^ 53 + 1) * ?u" by (simp only: distrib_right mult.assoc mult_1_left)
  then have "2 * of_nat ?m < (2 * 2 ^ 53 + 1 :: rat)" using u by (simp add: mult.assoc [symmetric])
  then have "of_nat (2 * ?m) < (of_nat (2 * 2 ^ 53 + 1) :: rat)" by simp
  then show "?m \<le> 2 ^ 53" unfolding of_nat_less_iff by simp
  show "2 ^ 52 \<le> ?m \<or> e = - 1074"
  proof (rule disjCI)
    assume "e \<noteq> - 1074"
    then have "ratio_log2 p q = e + 52" by (simp add: e_def max_def split: if_splits)
    then have "2 ^ 52 * ?u \<le> ?v" using ratio_log2_bounds(1) [OF assms(1,2)] by (simp add: power_int_add mult.commute)
    then have "2 * (2 ^ 52 * ?u) - ?u \<le> 2 * (of_nat ?m * ?u)" by (rule half_unit(2) [OF err])
    then have "(2 * 2 ^ 52 - 1) * ?u \<le> 2 * (of_nat ?m * ?u)" by (simp only: left_diff_distrib mult.assoc mult_1_left)
    then have "2 * 2 ^ 52 - 1 \<le> (2 * of_nat ?m :: rat)" using u by (simp add: mult.assoc [symmetric])
    then have "of_nat (2 * 2 ^ 52) \<le> (of_nat (2 * ?m + 1) :: rat)" by simp
    then show "2 ^ 52 \<le> ?m" unfolding of_nat_le_iff by simp
  qed
qed

text \<open>So a quotient that does not overflow is rounded to a double nearest to it.\<close>

lemma round_ratio_nearest:
  assumes "0 < q" "round_ratio neg p q = x" "isfinite x"
  shows "nearest_double neg (of_nat p / of_nat q) x"
proof (cases "p = 0")
  case True
  then show ?thesis using assms by (auto simp: round_ratio_def)
next
  case False
  then have p: "0 < p" by simp
  define e where "e = max (- 1074) (ratio_log2 p q - 52)"
  let ?m = "scaled_round p q e" and ?v = "of_nat p / of_nat q :: rat"
  note range = scaled_round_range [OF p assms(1), folded e_def]
  note err = scaled_round_error [OF assms(1), of p e]
  have e: "- 1074 \<le> e" by (simp add: e_def)
  show ?thesis
  proof (cases "?m = 2 ^ 53")
    case True
    then have "x = FFin neg (2 ^ 52) (e + 1)" "e + 1 \<le> 971"
      using assms(2,3) False by (auto simp: round_ratio_def Let_def e_def split: if_splits)
    moreover have "2 * \<bar>2 ^ 52 * 2 powi (e + 1) - ?v\<bar> \<le> 2 powi (e + 1)"
    proof -
      have "(2 ^ 52 * 2 powi (e + 1) :: rat) = 2 ^ 53 * 2 powi e" "(2 powi (e + 1) :: rat) = 2 * 2 powi e"
        by (simp_all add: power_int_add)
      moreover have "2 * \<bar>2 ^ 53 * 2 powi e - ?v\<bar> \<le> 2 powi e" using err by (simp add: True)
      then have "2 * \<bar>2 ^ 53 * 2 powi e - ?v\<bar> \<le> 2 * 2 powi e" by (rule half_unit(3)) simp
      ultimately show ?thesis by (simp only:)
    qed
    ultimately show ?thesis using e by simp
  next
    case False
    then have "x = FFin neg ?m e" "e \<le> 971"
      using assms(2,3) p by (auto simp: round_ratio_def Let_def e_def split: if_splits)
    moreover have "?m < 2 ^ 53" using range(1) False by simp
    ultimately show ?thesis using err range(2) e by simp
  qed
qed

section \<open>Reading\<close>

lemma digit_values_simps [simp]:
  "digit_values [] = []" "digit_values (c # s) = the (digit_value c) # digit_values s"
  "digit_values (s @ t) = digit_values s @ digit_values t" "length (digit_values s) = length s"
  "digit_values s = [] \<longleftrightarrow> s = []"
  by (simp_all add: digit_values_def)

lemma digit_run_values:
  "digit_run s = (ds, r) \<Longrightarrow> \<exists>p. s = p @ r \<and> list_all is_digit p \<and> ds = digit_values p"
proof (induction s arbitrary: ds)
  case (Cons c s)
  show ?case
  proof (cases "digit_value c")
    case None
    with Cons.prems show ?thesis by simp
  next
    case (Some d)
    obtain ds' r' where run: "digit_run s = (ds', r')" by (cases "digit_run s")
    with Cons Some obtain p where "s = p @ r" "list_all is_digit p" "ds' = digit_values p" by auto
    then show ?thesis using Some Cons.prems run by (intro exI [of _ "c # p"]) (auto simp: is_digit_def [of c])
  qed
qed simp

lemma unsign_sign: "unsign r = (neg, u) \<Longrightarrow> \<exists>sgn. r = sgn @ u \<and> sgn \<in> {[], [43], [45]} \<and> (neg \<longleftrightarrow> sgn = [45])"
  by (cases r) (auto simp: unsign_def split: if_splits)

lemma scan_exponent_literal: "scan_exponent t = Some x \<Longrightarrow> exponent_literal t x"
proof (cases t)
  case (Cons e r)
  assume scan: "scan_exponent t = Some x"
  obtain neg u where u: "unsign r = (neg, u)" by (cases "unsign r")
  obtain ds rest where run: "digit_run u = (ds, rest)" by (cases "digit_run u")
  have s: "e = 101 \<or> e = 69" "ds \<noteq> []" "rest = []" "x = (if neg then - 1 else 1) * int (decimal_value ds)"
    using scan by (auto simp: Cons scan_exponent_def u run nat_of_digits_value split: if_splits)
  then show ?thesis using Cons unsign_sign [OF u] digit_run_values [OF run] unfolding exponent_literal_def by auto
qed (simp add: scan_exponent_def exponent_literal_def)

lemma scan_decimal_literal:
  assumes "scan_decimal t = Some (ip, fp, x)"
  shows "decimal_literal t (of_nat (decimal_value (ip @ fp)) * 10 powi (x - int (length fp)))"
proof -
  obtain ip' r where run: "digit_run t = (ip', r)" by (cases "digit_run t")
  obtain i where i: "t = i @ r" "list_all is_digit i" "ip' = digit_values i" using digit_run_values [OF run] by blast
  obtain fp' r2 where fr: "(case r of c # r' \<Rightarrow> if c = 46 then digit_run r' else ([], r) | [] \<Rightarrow> ([], r)) = (fp', r2)"
    by (cases "case r of c # r' \<Rightarrow> if c = 46 then digit_run r' else ([], r) | [] \<Rightarrow> ([], r)")
  have e: "ip = ip'" "fp = fp'" "ip' \<noteq> [] \<or> fp' \<noteq> []" "scan_exponent r2 = Some x"
    using assms by (auto simp: scan_decimal_def run fr split: if_splits)
  have "\<exists>f. (r = r2 \<and> f = [] \<or> r = 46 # f @ r2) \<and> list_all is_digit f \<and> fp' = digit_values f"
    using fr digit_run_values [of "tl r"] by (cases r) (auto split: if_splits)
  then obtain f where f: "r = r2 \<and> f = [] \<or> r = 46 # f @ r2" "list_all is_digit f" "fp' = digit_values f" by blast
  show ?thesis unfolding decimal_literal_def
    using i f e scan_exponent_literal [OF e(4)] by (intro exI [of _ i] exI [of _ f] exI [of _ r2] exI [of _ x]) auto
qed

lemma decimal_float_nearest:
  assumes "isfinite (decimal_float neg ip fp x)"
  shows "nearest_double neg (of_nat (decimal_value (ip @ fp)) * 10 powi (x - int (length fp))) (decimal_float neg ip fp x)"
proof -
  let ?n = "nat_of_digits (ip @ fp)" and ?k = "x - int (length fp)"
  show ?thesis
  proof (cases "0 \<le> ?k")
    case True
    then have "(10 :: rat) powi ?k = of_nat (10 ^ nat ?k)" by (simp add: power_int_def)
    then show ?thesis using True assms round_ratio_nearest [of 1 neg "?n * 10 ^ nat ?k"]
      by (simp add: decimal_float_def Let_def nat_of_digits_value)
  next
    case False
    then have "(10 :: rat) powi ?k = 1 / of_nat (10 ^ nat (- ?k))" by (simp add: power_int_def field_simps)
    then show ?thesis using False assms round_ratio_nearest [of "10 ^ nat (- ?k)" neg ?n]
      by (simp add: decimal_float_def Let_def nat_of_digits_value)
  qed
qed

end
