(* ===== verification/Converter_Facts.thy ===== *)
theory Converter_Facts
  imports Converters Literals
begin

text \<open>
  What the converters guarantee: which texts are promoted to numbers and what becomes of them,
  the TTL arithmetic and its policy, that members, fields and items are neither lost nor merged,
  and how the registry dispatches.
\<close>

section \<open>Scalar coercion\<close>

lemma digit_ranges:
  assumes "is_digit c"
  shows "48 \<le> c \<and> c < 58 \<or> 1632 \<le> c \<and> c < 5760 \<or> 6112 \<le> c \<and> c < 8192 \<or> 42528 \<le> c"
proof -
  obtain z where "find (\<lambda>z. z \<le> c \<and> c < z + 10) digit_zeros = Some z"
    using assms by (auto simp: is_digit_def digit_value_def)
  then have z: "z \<in> set digit_zeros" "z \<le> c" "c < z + 10" by (auto simp: find_Some_iff)
  have "list_all (\<lambda>z. z = 48 \<or> 1632 \<le> z \<and> z + 10 \<le> 5760 \<or> 6112 \<le> z \<and> z + 10 \<le> 8192 \<or> 42528 \<le> z)
      digit_zeros"
    by (simp add: digit_zeros_def)
  then have "z = 48 \<or> 1632 \<le> z \<and> z + 10 \<le> 5760 \<or> 6112 \<le> z \<and> z + 10 \<le> 8192 \<or> 42528 \<le> z"
    using z(1) by (simp add: list_all_iff)
  with z(2,3) show ?thesis by linarith
qed

lemma space_ranges: "is_space c \<Longrightarrow> c \<le> 32 \<or> c = 133 \<or> c = 160 \<or> c = 5760 \<or> 8192 \<le> c \<and> c \<le> 12288"
  by (auto simp: is_space_def)

lemma digit_not_space: "is_digit c \<Longrightarrow> \<not> is_space c"
  using digit_ranges [of c] space_ranges [of c] by linarith

lemma digit_not_special: "is_digit c \<Longrightarrow> c \<noteq> 45 \<and> c \<noteq> 43 \<and> c \<noteq> 95 \<and> c \<noteq> 46 \<and> c \<noteq> 10"
proof -
  assume "is_digit c"
  then show ?thesis using digit_ranges [of c] by auto
qed

lemma ascii_digit: "48 \<le> c \<Longrightarrow> c \<le> 57 \<Longrightarrow> is_digit c"
  using digit_value_ascii [of "c - 48"] by (simp add: is_digit_def)

text \<open>An integer literal as the pattern accepts it: a sign and its digits.\<close>

definition int_body :: "pystr \<Rightarrow> bool" where
  "int_body t = (let u = strip_minus t
     in u = [48] \<or> (u \<noteq> [] \<and> 49 \<le> hd u \<and> hd u \<le> 57 \<and> list_all is_digit (tl u)))"

lemma INT_RE_body: "INT_RE t \<longleftrightarrow> int_body t \<or> (t \<noteq> [] \<and> last t = 10 \<and> int_body (butlast t))"
  by (simp add: INT_RE_def dollar_def int_body_def)

lemma int_body_digits:
  assumes "int_body t"
  shows "strip_minus t \<noteq> []" "list_all is_digit (strip_minus t)"
  using assms ascii_digit by (cases "strip_minus t"; force simp: int_body_def Let_def)+

lemma int_digits_all:
  "u \<noteq> [] \<Longrightarrow> list_all is_digit u \<Longrightarrow> int_digits u = Some (map (the \<circ> digit_value) u)"
proof (induction u rule: induct_list012)
  case (2 c)
  then show ?case by (auto simp: is_digit_def)
next
  case (3 c d u)
  then have "d \<noteq> 95" using digit_not_special by auto
  with 3 show ?case by (auto simp: is_digit_def)
qed simp

lemma unsign_strip_minus:
  assumes "int_body t"
  shows "unsign t = (take 1 t = [45], strip_minus t)"
proof (cases t)
  case Nil
  then show ?thesis using int_body_digits [OF assms] by (simp add: strip_minus_def)
next
  case (Cons c r)
  then show ?thesis using int_body_digits [OF assms] digit_not_special [of c]
    by (auto simp: strip_minus_def unsign_def)
qed

lemma int_body_chars: "int_body t \<Longrightarrow> c \<in> set t \<Longrightarrow> c = 45 \<or> is_digit c"
  using int_body_digits [of t] by (cases t) (auto simp: strip_minus_def list_all_iff split: if_splits)

lemma int_body_strip: "int_body t \<Longrightarrow> py_strip t = t"
proof -
  assume t: "int_body t"
  then have "t \<noteq> []" using int_body_digits(1) [of t] by (auto simp: strip_minus_def)
  moreover have "\<not> is_space 45" by (simp add: is_space_def)
  ultimately show ?thesis using int_body_chars [OF t] digit_not_space
    by (intro py_strip_id) (metis hd_in_set last_in_set)+
qed

lemma py_strip_newline: "py_strip t = t \<Longrightarrow> t \<noteq> [] \<Longrightarrow> py_strip (t @ [10]) = t"
proof -
  assume s: "py_strip t = t" and "t \<noteq> []"
  have "is_space 10" by (simp add: is_space_def)
  moreover have "dropWhile is_space t = t"
  proof -
    have "length (py_strip t) \<le> length (dropWhile is_space t)"
      unfolding py_strip_def by (metis length_dropWhile_le length_rev)
    then show ?thesis using s length_dropWhile_le [of is_space t]
      by (metis dropWhile_eq_drop le_antisym length_drop drop_0 diff_diff_cancel diff_self_eq_0 length_takeWhile_le)
  qed
  ultimately show ?thesis using s \<open>t \<noteq> []\<close>
    by (auto simp: py_strip_def dropWhile_append dropWhile_eq_self_iff dropWhile_eq_Nil_conv)
qed

definition literal_of :: "pystr \<Rightarrow> pystr" where
  "literal_of t = (if int_body t then t else butlast t)"

lemma INT_RE_literal: "INT_RE t \<Longrightarrow> int_body (literal_of t) \<and> py_strip t = literal_of t"
proof -
  assume re: "INT_RE t"
  show ?thesis
  proof (cases "int_body t")
    case True
    then show ?thesis by (simp add: literal_of_def int_body_strip)
  next
    case False
    with re have b: "int_body (butlast t)" "t = butlast t @ [10]"
      by (auto simp: INT_RE_body) (metis append_butlast_last_id)
    then have "butlast t \<noteq> []" using int_body_digits(1) by (metis strip_minus_def take_Nil drop_Nil)
    then show ?thesis using False b py_strip_newline [OF int_body_strip [OF b(1)]]
      by (metis literal_of_def)
  qed
qed

text \<open>Reading a text the pattern accepts: it only fails for too many digits.\<close>

definition literal_digits :: "pystr \<Rightarrow> nat list" where
  "literal_digits t = map (the \<circ> digit_value) (strip_minus (literal_of t))"

lemma py_int_INT_RE:
  assumes "INT_RE t"
  shows "py_int t =
    (if max_str_digits < length (literal_digits t) then Inl ValueError
     else Inr (if take 1 (literal_of t) = [45] then - int (nat_of_digits (literal_digits t))
               else int (nat_of_digits (literal_digits t))))"
proof -
  have b: "int_body (literal_of t)" "py_strip t = literal_of t" using INT_RE_literal [OF assms] by auto
  show ?thesis
    unfolding py_int_def b(2) unsign_strip_minus [OF b(1)] prod.case
      int_digits_all [OF int_body_digits [OF b(1)]] option.case
    by (simp add: literal_digits_def)
qed

text \<open>The characters of a decimal literal; reading one never fails.\<close>

definition float_char :: "code_point \<Rightarrow> bool" where
  "float_char c \<longleftrightarrow> is_digit c \<or> c \<in> {43, 45, 46, 69, 101}"

lemma digit_run_split:
  "digit_run s = (ds, r) \<Longrightarrow> \<exists>p. s = p @ r \<and> list_all is_digit p \<and> (p = [] \<longleftrightarrow> ds = [])"
  using digit_run_values by fastforce

lemma float_char_digit: "list_all is_digit p \<Longrightarrow> c \<in> set p \<Longrightarrow> float_char c"
  by (auto simp: float_char_def list_all_iff)

lemma unsign_chars: "unsign t = (neg, u) \<Longrightarrow> set t \<subseteq> {43, 45} \<union> set u"
  by (auto simp: unsign_def split: list.splits if_splits)

lemma scan_exponent_chars:
  assumes "scan_exponent s = Some x" and "c \<in> set s"
  shows "float_char c"
proof (cases s)
  case (Cons e r)
  obtain neg u where u: "unsign r = (neg, u)" by (cases "unsign r")
  obtain ds rest where run: "digit_run u = (ds, rest)" by (cases "digit_run u")
  have "rest = []" "e = 101 \<or> e = 69" using assms(1) Cons u run
    by (auto simp: scan_exponent_def split: if_splits)
  with digit_run_split [OF run] have "list_all is_digit u" by auto
  then have "d \<in> set r \<Longrightarrow> float_char d" for d
    using unsign_chars [OF u] float_char_digit by (auto simp: float_char_def)
  then show ?thesis using assms(2) Cons \<open>e = 101 \<or> e = 69\<close> by (auto simp: float_char_def)
qed (use assms in simp)

lemma scan_decimal_chars:
  assumes "scan_decimal s \<noteq> None"
  shows "s \<noteq> []" "is_digit (hd s) \<or> hd s = 46" "list_all float_char s"
proof -
  obtain ip r where run: "digit_run s = (ip, r)" by (cases "digit_run s")
  obtain p where p: "s = p @ r" "list_all is_digit p" "p = [] \<longleftrightarrow> ip = []"
    using digit_run_split [OF run] by blast
  define fr where "fr = (case r of c # r' \<Rightarrow> if c = 46 then digit_run r' else ([], r) | [] \<Rightarrow> ([], r))"
  obtain fp r2 where fr: "fr = (fp, r2)" by (cases fr)
  have e: "\<not> (ip = [] \<and> fp = [])" "scan_exponent r2 \<noteq> None"
    using assms run fr by (auto simp: scan_decimal_def fr_def split: if_splits)
  have r: "(r = 46 # drop 1 r \<and> (\<exists>q. drop 1 r = q @ r2 \<and> list_all is_digit q)) \<or> (r = r2 \<and> fp = [])"
    using fr digit_run_split [of "drop 1 r"] by (auto simp: fr_def split: list.splits if_splits)
  then show "s \<noteq> []" "is_digit (hd s) \<or> hd s = 46"
    using p e(1) by (cases p; auto simp: list_all_iff; metis list.sel(1))+
  have "c \<in> set r2 \<Longrightarrow> float_char c" for c using e(2) scan_exponent_chars by blast
  moreover have "c \<in> set r \<Longrightarrow> (\<And>c. c \<in> set r2 \<Longrightarrow> float_char c) \<Longrightarrow> float_char c" for c
  proof -
    assume c: "c \<in> set r" and r2: "\<And>c. c \<in> set r2 \<Longrightarrow> float_char c"
    from r show "float_char c"
    proof
      assume "r = 46 # drop 1 r \<and> (\<exists>q. drop 1 r = q @ r2 \<and> list_all is_digit q)"
      then obtain q where q: "r = 46 # q @ r2" "list_all is_digit q" by metis
      moreover have "float_char 46" by (simp add: float_char_def)
      ultimately show ?thesis using c r2 float_char_digit [OF q(2)] by auto
    qed (use c r2 in simp)
  qed
  ultimately show "list_all float_char s" using p float_char_digit by (auto simp: list_all_iff)
qed

lemma float_char_not: "float_char c \<Longrightarrow> \<not> is_space c \<and> c \<noteq> 95 \<and> c \<noteq> 10"
  using digit_not_space [of c] digit_not_special [of c] by (auto simp: float_char_def is_space_def)

lemma drop_underscores_id: "95 \<notin> set s \<Longrightarrow> drop_underscores s = Some s"
  by (induction s rule: drop_underscores.induct) auto

lemma py_float_scan:
  assumes "FLOAT_RE t"
  obtains b u ip fp x where "t = b \<or> t = b @ [10]" "b = u \<or> b = 45 # u" "scan_decimal u = Some (ip, fp, x)"
    "py_float t = Inr (decimal_float (b \<noteq> u) ip fp x)"
proof -
  from assms obtain b where b: "t = b \<or> t = b @ [10]" "scan_decimal (strip_minus b) \<noteq> None"
    by (auto simp: FLOAT_RE_def dollar_def) (metis append_butlast_last_id)
  define u where "u = strip_minus b"
  have u: "u \<noteq> []" "is_digit (hd u) \<or> hd u = 46" "list_all float_char u"
    using scan_decimal_chars [OF b(2)] by (simp_all add: u_def)
  have bu: "b = u \<or> b = 45 # u"
    by (cases b) (auto simp: u_def strip_minus_def)
  then have fc: "list_all float_char b" "b \<noteq> []" using u by (auto simp: float_char_def)
  then have "py_strip b = b"
    using float_char_not by (intro py_strip_id) (auto simp: list_all_iff)
  then have "py_strip t = b" using b(1) py_strip_newline fc(2) by auto
  moreover have "unsign b = (b \<noteq> u, u)"
    using bu u(1,2) digit_not_special [of "hd u"] by (cases u) (auto simp: unsign_def)
  moreover have "drop_underscores u = Some u"
    using u(3) float_char_not by (intro drop_underscores_id) (auto simp: list_all_iff)
  moreover have "hd (py_lower u) = hd u"
    using u(1,2) digit_ranges [of "hd u"] by (cases u) (auto simp: py_lower_def lower1_def is_digit_def
        digit_value_def digit_zeros_def)
  then have "py_lower u \<noteq> L w" if "hd (L w) \<in> {105, 110}" for w
    using that u(2) digit_ranges [of 105] digit_ranges [of 110] by auto
  moreover have "hd (L ''inf'') = 105" "hd (L ''infinity'') = 105" "hd (L ''nan'') = 110"
    by (simp_all add: L_def)
  ultimately have "\<exists>ip fp x. scan_decimal u = Some (ip, fp, x) \<and> py_float t = Inr (decimal_float (b \<noteq> u) ip fp x)"
    using b(2) by (auto simp: py_float_def Let_def simp flip: u_def)
  then show ?thesis using that [OF b(1) bu] by blast
qed

lemma py_float_FLOAT_RE: "FLOAT_RE t \<Longrightarrow> \<exists>x. py_float t = Inr x"
  by (metis py_float_scan)

lemma str_nat_chars: "c \<in> set (str_nat n) \<Longrightarrow> 48 \<le> c \<and> c \<le> 57"
  by (auto simp: str_nat_def dest!: digits_of_lt)

lemma int_body_str_nat: "str_nat n = [48] \<or> (str_nat n \<noteq> [] \<and> 49 \<le> hd (str_nat n) \<and> hd (str_nat n) \<le> 57
    \<and> list_all is_digit (tl (str_nat n)))"
proof (cases "n = 0")
  case True
  then show ?thesis by (simp add: str_nat_def digits_of.simps)
next
  case False
  then have "hd (str_nat n) \<noteq> 48" using hd_digits_of [of n] by (simp add: str_nat_def hd_map)
  moreover have "48 \<le> hd (str_nat n) \<and> hd (str_nat n) \<le> 57"
    using str_nat_chars [of "hd (str_nat n)" n] by simp
  moreover have "list_all is_digit (tl (str_nat n))"
    using str_nat_chars [of _ n] ascii_digit by (auto simp: list_all_iff dest: list.set_sel(2) [OF str_nat_nonempty])
  ultimately show ?thesis by auto
qed

lemma strip_minus_str_int: "strip_minus (str_int i) = str_nat (nat \<bar>i\<bar>)"
proof -
  obtain d ds where d: "digits_of (nat i) = d # ds" by (cases "digits_of (nat i)") auto
  show ?thesis by (auto simp: str_int_def strip_minus_def str_nat_def d)
qed

lemma int_body_str_int: "int_body (str_int i)"
  using int_body_str_nat by (simp add: int_body_def strip_minus_str_int)

lemma wf_text_str_int: "wf_text (str_int i)"
  using str_nat_chars by (fastforce simp: wf_text_def list_all_iff str_int_def scalar_def)

lemma py_int_str_int_eq:
  "py_int (str_int i) =
     (if max_str_digits < length (digits_of (nat \<bar>i\<bar>)) then Inl ValueError else Inr i)"
proof -
  have lit: "literal_of (str_int i) = str_int i" by (simp add: literal_of_def int_body_str_int)
  then have "length (literal_digits (str_int i)) = length (digits_of (nat \<bar>i\<bar>))"
    by (simp add: literal_digits_def strip_minus_str_int str_nat_def)
  then show ?thesis
    using py_int_INT_RE [of "str_int i"] py_int_str_int [of i] int_body_str_int
    by (auto simp: INT_RE_body)
qed

lemma py_int_newline: "int_body t \<Longrightarrow> py_int (t @ [10]) = py_int t"
proof -
  assume t: "int_body t"
  moreover have "t \<noteq> []" using int_body_digits(1) [OF t] by (auto simp: strip_minus_def)
  ultimately have "py_strip (t @ [10]) = py_strip t" using int_body_strip py_strip_newline by metis
  then show ?thesis by (simp add: py_int_def)
qed

lemma length_digits_of: "n < 10 ^ k \<Longrightarrow> 0 < k \<Longrightarrow> length (digits_of n) \<le> k"
proof (induction n arbitrary: k rule: digits_of.induct)
  case (1 n)
  show ?case
  proof (cases "n < 10")
    case True
    then show ?thesis using "1.prems" by (subst digits_of.simps) simp
  next
    case False
    then obtain j where k: "k = Suc j" "0 < j"
      using "1.prems" by (cases k; cases "k - 1") auto
    then have "n div 10 < 10 ^ j" using "1.prems" by (simp add: div_less_iff_less_mult mult.commute)
    then show ?thesis using "1.IH" [OF False _ k(2)] False k by (subst digits_of.simps) simp
  qed
qed

lemma coerce_text_int:
  "coerce_text (str_int i) =
     (if max_str_digits < length (digits_of (nat \<bar>i\<bar>)) then Inl ValueError
      else Inr (if INT64_MIN \<le> i \<and> i \<le> INT64_MAX then SInt i else SStr (str_int i)))"
  by (simp add: coerce_text_def INT_RE_body int_body_str_int py_int_str_int_eq)

lemma coerce_text_result:
  "coerce_text t = Inr v \<Longrightarrow>
     v = SStr t \<or> (\<exists>i. v = SInt i \<and> INT64_MIN \<le> i \<and> i \<le> INT64_MAX) \<or> (\<exists>x. v = SFloat x \<and> isfinite x)"
  by (auto simp: coerce_text_def rbind_eq_Inr split: if_splits)

lemma coerce_text_raises:
  "coerce_text t = Inl e \<longleftrightarrow> e = ValueError \<and> INT_RE t \<and> max_str_digits < length (literal_digits t)"
proof (cases "INT_RE t")
  case True
  then show ?thesis by (auto simp: coerce_text_def rbind_eq_Inl py_int_INT_RE)
next
  case False
  then show ?thesis using py_float_FLOAT_RE [of t]
    by (auto simp: coerce_text_def rbind_eq_Inl split: if_splits)
qed

text \<open>The pattern and \<^verbatim>\<open>int()\<close> accept exactly the integer literals and agree with their value.\<close>

lemma py_int_body:
  assumes "int_body t" "strip_minus t = us"
  shows "py_int t = (if 4300 < length us then Inl ValueError
     else Inr ((if take 1 t = [45] then - 1 else 1) * int (decimal_value (digit_values us))))"
  using assms py_int_INT_RE [of t]
  by (simp add: INT_RE_body literal_digits_def literal_of_def digit_values_def nat_of_digits_value max_str_digits_def)

lemma integer_literal_iff: "integer_literal t i \<longleftrightarrow> int_body t \<and> py_int t = Inr i"
proof
  assume "integer_literal t i"
  then obtain neg c us where t: "t = (if neg then [45] else []) @ c # us" and c: "48 \<le> c" "c \<le> 57" "c = 48 \<longrightarrow> us = []"
    "list_all is_digit us" "length us < 4300" and i: "i = (if neg then - 1 else 1) * int (decimal_value (digit_values (c # us)))"
    by (auto simp: integer_literal_def)
  have strip: "strip_minus t = c # us" "take 1 t = [45] \<longleftrightarrow> neg" using c(1) by (auto simp: t strip_minus_def)
  then have body: "int_body t" using c by (auto simp: int_body_def)
  show "int_body t \<and> py_int t = Inr i" using body py_int_body [OF body strip(1)] c(5) strip(2) by (simp add: i)
next
  assume t: "int_body t \<and> py_int t = Inr i"
  then obtain c us where strip: "strip_minus t = c # us" "48 \<le> c" "c \<le> 57" "c = 48 \<longrightarrow> us = []" "list_all is_digit us"
    by (cases "strip_minus t") (auto simp: int_body_def)
  have "t = (if take 1 t = [45] then [45] else []) @ c # us"
    using strip(1) by (cases t) (auto simp: strip_minus_def split: if_splits)
  moreover have "length us < 4300 \<and> i = (if take 1 t = [45] then - 1 else 1) * int (decimal_value (digit_values (c # us)))"
    using t py_int_body [OF _ strip(1)] by (auto split: if_splits)
  ultimately show "integer_literal t i" using strip(2-5) unfolding integer_literal_def by blast
qed

text \<open>So a text becomes an integer exactly when it is a literal of one that fits, up to a final newline.\<close>

lemma coerce_text_SInt:
  "coerce_text t = Inr (SInt i) \<longleftrightarrow>
     INT64_MIN \<le> i \<and> i \<le> INT64_MAX \<and> (integer_literal t i \<or> (\<exists>r. t = r @ [10] \<and> integer_literal r i))"
proof -
  have "coerce_text t = Inr (SInt i) \<longleftrightarrow> INT_RE t \<and> py_int t = Inr i \<and> INT64_MIN \<le> i \<and> i \<le> INT64_MAX"
    by (auto simp: coerce_text_def rbind_eq_Inr split: if_splits)
  moreover have "t \<noteq> [] \<and> last t = 10 \<and> int_body (butlast t) \<longleftrightarrow> (\<exists>r. t = r @ [10] \<and> int_body r)"
    by (auto intro: exI [of _ "butlast t"]) (metis append_butlast_last_id)
  ultimately show ?thesis by (auto simp: INT_RE_body integer_literal_iff py_int_newline)
qed

text \<open>And a text that becomes a double is a decimal literal, with a double nearest to its number.\<close>

lemma coerce_text_SFloat:
  assumes "coerce_text t = Inr (SFloat x)"
  shows "isfinite x \<and> (\<exists>r u neg q. t \<in> {r, r @ [10]} \<and> r = (if neg then [45] else []) @ u \<and>
    decimal_literal u q \<and> nearest_double neg q x)"
proof -
  have x: "FLOAT_RE t" "py_float t = Inr x" "isfinite x"
    using assms by (auto simp: coerce_text_def rbind_eq_Inr split: if_splits)
  obtain b u ip fp k where b: "t = b \<or> t = b @ [10]" "b = u \<or> b = 45 # u" "scan_decimal u = Some (ip, fp, k)"
    "py_float t = Inr (decimal_float (b \<noteq> u) ip fp k)"
    using py_float_scan [OF x(1)] by blast
  then have "x = decimal_float (b \<noteq> u) ip fp k" using x(2) by simp
  then have "decimal_literal u (of_nat (decimal_value (ip @ fp)) * 10 powi (k - int (length fp)))"
    "nearest_double (b \<noteq> u) (of_nat (decimal_value (ip @ fp)) * 10 powi (k - int (length fp))) x"
    using scan_decimal_literal [OF b(3)] decimal_float_nearest x(3) by blast+
  moreover have "b = (if b \<noteq> u then [45] else []) @ u" using b(2) by auto
  ultimately show ?thesis using x(3) b(1) by blast
qed

text \<open>What Aerospike accepts as a scalar: 64-bit integers, finite doubles, text and blobs.\<close>

fun aerospike_legal :: "pyscalar \<Rightarrow> bool" where
  "aerospike_legal (SInt i) = (- (2 ^ 63) \<le> i \<and> i < 2 ^ 63)"
| "aerospike_legal (SFloat x) = isfinite x"
| "aerospike_legal (SStr s) = True"
| "aerospike_legal (SBytes b) = True"
| "aerospike_legal v = False"

section \<open>Properties of scalar coercion\<close>

text \<open>
  The decimal text of an integer becomes that integer when it fits 64 bits and stays text when
  it does not; beyond the interpreter's limit of 4300 digits the conversion raises ValueError, so
  such a value is neither promoted nor kept as text.
\<close>

theorem coerce_integer_text:
  "coerce_scalar (SBytes (utf8_encode (str_int i))) =
     (if 4300 < length (digits_of (nat \<bar>i\<bar>)) then Inl ValueError
      else Inr (if - (2 ^ 63) \<le> i \<and> i \<le> 2 ^ 63 - 1 then SInt i else SStr (str_int i)))"
  by (simp add: utf8_decode_encode [OF wf_text_str_int] coerce_text_int INT64_MIN_def INT64_MAX_def
      max_str_digits_def)

text \<open>
  C8 Whatever a byte string is coerced to is a value Aerospike accepts. It becomes an integer exactly when its
  text, up to one final newline, is the decimal literal of an integer of 64 bits, and it becomes that integer;
  when it becomes a double, its text is a decimal literal, up to one final newline, and the double is nearest
  to the number that the literal denotes. A text result encodes back to exactly the input bytes and a blob
  result is the input itself, which happens exactly when the input is not valid UTF-8.
\<close>

theorem coerce_legal_lossless:
  assumes "coerce_scalar (SBytes b) = Inr v"
  shows "aerospike_legal v \<and>
    (\<forall>s. v = SStr s \<longrightarrow> utf8_encode s = b) \<and>
    (\<forall>c. v = SBytes c \<longrightarrow> c = b) \<and>
    ((\<exists>c. v = SBytes c) \<longleftrightarrow> utf8_decode b = None) \<and>
    (\<forall>i. v = SInt i \<longleftrightarrow> - (2 ^ 63) \<le> i \<and> i < 2 ^ 63 \<and>
       (\<exists>t. utf8_decode b = Some t \<and> (integer_literal t i \<or> (\<exists>r. t = r @ [10] \<and> integer_literal r i)))) \<and>
    (\<forall>x. v = SFloat x \<longrightarrow> isfinite x \<and>
       (\<exists>r u neg q. utf8_decode b \<in> {Some r, Some (r @ [10])} \<and> r = (if neg then [45] else []) @ u \<and>
          decimal_literal u q \<and> nearest_double neg q x))"
proof (cases "utf8_decode b")
  case None
  then show ?thesis using assms by auto
next
  case (Some t)
  then have v: "coerce_text t = Inr v" using assms by simp
  have one: "(\<exists>s. utf8_decode b = Some s \<and> P s) \<longleftrightarrow> P t" for P by (simp add: Some)
  have "v = SInt i \<longleftrightarrow> - (2 ^ 63) \<le> i \<and> i < 2 ^ 63 \<and> (integer_literal t i \<or> (\<exists>r. t = r @ [10] \<and> integer_literal r i))" for i
    using coerce_text_SInt [of t i] v by (auto simp: INT64_MIN_def INT64_MAX_def)
  moreover have "isfinite x \<and> (\<exists>r u neg q. utf8_decode b \<in> {Some r, Some (r @ [10])} \<and> r = (if neg then [45] else []) @ u \<and>
      decimal_literal u q \<and> nearest_double neg q x)" if "v = SFloat x" for x
    using coerce_text_SFloat [of t x] v that unfolding Some by (simp only: insert_iff empty_iff option.inject)
  moreover have "aerospike_legal v \<and> (\<forall>s. v = SStr s \<longrightarrow> utf8_encode s = b) \<and> (\<forall>c. v = SBytes c \<longrightarrow> c = b) \<and>
      ((\<exists>c. v = SBytes c) \<longleftrightarrow> utf8_decode b = None)"
    using coerce_text_result [OF v] utf8_decode_Some(2) [OF Some] Some by (auto simp: INT64_MIN_def INT64_MAX_def)
  ultimately show ?thesis unfolding one by blast
qed

theorem coerce_legal_lossless_witness:
  "coerce_scalar (SBytes (utf8_encode (str_int 42))) = Inr (SInt 42) \<and> integer_literal (str_int 42) 42"
proof -
  have c: "coerce_scalar (SBytes (utf8_encode (str_int 42))) = Inr (SInt 42)"
    unfolding coerce_scalar.simps option.case utf8_decode_encode [OF wf_text_str_int] coerce_text_int
    by (simp add: digits_of.simps max_str_digits_def INT64_MIN_def INT64_MAX_def)
  have "str_int 42 \<noteq> r @ [10]" for r
    by (auto simp: str_int_def str_nat_def digits_of.simps dest: arg_cong [where f = last])
  then show ?thesis using c coerce_legal_lossless [OF c] utf8_decode_encode [OF wf_text_str_int, of 42] by auto
qed

text \<open>
  C26 Coercion of a byte string raises in one situation only: the text is an integer literal with
  more than 4300 digits, and the exception is ValueError.
\<close>

theorem coerce_raises_iff:
  "coerce_scalar (SBytes b) = Inl e \<longleftrightarrow>
     e = ValueError \<and>
     (\<exists>t. utf8_decode b = Some t \<and> INT_RE t \<and> 4300 < length (literal_digits t))"
  by (auto simp: coerce_text_raises max_str_digits_def split: option.splits)

text \<open>Coercing a second time changes nothing.\<close>

lemma coerce_idempotent:
  assumes "coerce_scalar v = Inr w"
  shows "coerce_scalar w = Inr w"
proof -
  have idem: "coerce_scalar w = Inr w" if "coerce_text t = Inr w" for t
    using coerce_text_result [OF that] that by auto
  show ?thesis using assms idem by (cases v) (auto split: option.splits)
qed

text \<open>
  A final newline does not keep an integer literal a text: the anchored pattern accepts it and
  the newline is dropped, so the two distinct values end up as the same integer.
\<close>

lemma coerce_drops_newline:
  assumes "- (2 ^ 63) \<le> i" "i < 2 ^ 63"
  shows "coerce_scalar (SStr (str_int i @ [10])) = Inr (SInt i) \<and>
    coerce_scalar (SStr (str_int i)) = Inr (SInt i)"
proof -
  have "INT_RE (str_int i @ [10])" "INT_RE (str_int i)" by (simp_all add: INT_RE_body int_body_str_int)
  moreover have "py_int (str_int i @ [10]) = py_int (str_int i)"
    by (rule py_int_newline) (rule int_body_str_int)
  moreover have "nat \<bar>i\<bar> < 10 ^ 19" using assms by simp
  then have "length (digits_of (nat \<bar>i\<bar>)) \<le> 19" by (intro length_digits_of) auto
  ultimately show ?thesis using assms py_int_str_int_eq [of i]
    by (simp add: coerce_text_def INT64_MIN_def INT64_MAX_def max_str_digits_def)
qed

end
