(* ===== verification/Collection_Facts.thy ===== *)
theory Collection_Facts
  imports Ttl_Facts Converter_Facts
begin

text \<open>
  The collection converters and the registry: members, fields and items are carried over one to
  one, in a deterministic order, and exactly the five supported types are converted.
\<close>

section \<open>Members\<close>

lemma decode_member_textual: "is_textual (decode_member (SBytes b))"
  by (auto split: option.splits)

lemma decode_member_inject: "decode_member (SBytes a) = decode_member (SBytes b) \<longleftrightarrow> a = b"
  using utf8_decode_inject by (auto split: option.splits)

lemma inj_decode_member: "inj (\<lambda>b. decode_member (SBytes b))"
  by (rule injI) (simp add: decode_member_inject del: decode_member.simps)

subsection \<open>The printed form of a byte string determines it\<close>

definition unhex :: "code_point \<Rightarrow> nat" where
  "unhex c = (if c < 58 then c - 48 else c - 87)"

fun unrepr1 :: "pystr \<Rightarrow> nat \<times> pystr" where
  "unrepr1 (c # s) =
     (if c \<noteq> 92 then (c, s)
      else case s of
             [] \<Rightarrow> (c, s)
           | d # t \<Rightarrow>
               if d = 116 then (9, t) else if d = 110 then (10, t) else if d = 114 then (13, t)
               else if d = 120 then
                 (case t of x # y # u \<Rightarrow> (unhex x * 16 + unhex y, u) | _ \<Rightarrow> (c, s))
               else (d, t))"
| "unrepr1 [] = (0, [])"

lemma unhex_hex_digit: "n < 16 \<Longrightarrow> unhex (hex_digit n) = n"
  by (simp add: unhex_def hex_digit_def)

lemma unrepr1_repr1:
  assumes "b < 256" "q = 39 \<or> q = 34"
  shows "unrepr1 (bytes_repr1 q b @ r) = (b, r)"
proof -
  have "b div 16 < 16" using assms(1) by simp
  then have "unhex (hex_digit (b div 16)) * 16 + unhex (hex_digit (b mod 16)) = b"
    by (simp add: unhex_hex_digit)
  then show ?thesis using assms(2) by (auto simp: bytes_repr1_def)
qed

lemma repr1_nonempty: "bytes_repr1 q b \<noteq> []"
  by (simp add: bytes_repr1_def)

lemma concat_repr1_inject:
  assumes "q = 39 \<or> q = 34" "\<And>b. b \<in> set xs \<union> set ys \<Longrightarrow> b < 256"
    and "concat (map (bytes_repr1 q) xs) = concat (map (bytes_repr1 q) ys)"
  shows "xs = ys"
  using assms(2,3)
proof (induction xs arbitrary: ys)
  case Nil
  then show ?case using repr1_nonempty by (cases ys) auto
next
  case (Cons x xs)
  obtain y ys' where ys: "ys = y # ys'" using Cons.prems(2) repr1_nonempty by (cases ys) auto
  let ?r = "\<lambda>zs. concat (map (bytes_repr1 q) zs)"
  have "unrepr1 (bytes_repr1 q x @ ?r xs) = unrepr1 (bytes_repr1 q y @ ?r ys')"
    using Cons.prems(2) by (simp add: ys)
  moreover have "x < 256" "y < 256" using Cons.prems(1) ys by auto
  ultimately have "(x, ?r xs) = (y, ?r ys')" by (simp add: unrepr1_repr1 [OF _ assms(1)])
  then show ?case using Cons.IH [of ys'] Cons.prems(1) ys by auto
qed

lemma bytes_repr_inject: "bytes_repr a = bytes_repr b \<longleftrightarrow> a = b"
proof
  assume eq: "bytes_repr a = bytes_repr b"
  define q where "q = (\<lambda>b :: bytes. if 39 \<in> set (map unat b) \<and> 34 \<notin> set (map unat b) then 34 else 39 :: nat)"
  have r: "bytes_repr b = [98, q b] @ concat (map (bytes_repr1 (q b)) (map unat b)) @ [q b]" for b
    by (simp add: bytes_repr_def q_def Let_def)
  have q: "q a = q b" using eq by (simp add: r)
  then have "concat (map (bytes_repr1 (q a)) (map unat a)) = concat (map (bytes_repr1 (q a)) (map unat b))"
    using eq by (simp add: r)
  moreover have "q a = 39 \<or> q a = 34" by (simp add: q_def)
  moreover have "x \<in> set (map unat a) \<union> set (map unat b) \<Longrightarrow> x < 256" for x
    using unsigned_less [where ?'b = 8 and ?'a = nat] by auto
  ultimately have "map unat a = map unat b" using concat_repr1_inject by blast
  then show "a = b" by (metis map_of_nat_unat)
qed simp

lemma sort_key_inject: "is_textual v \<Longrightarrow> is_textual w \<Longrightarrow> sort_key_of v = sort_key_of w \<longleftrightarrow> v = w"
  by (cases v; cases w) (auto simp: sort_key_of_def bytes_repr_inject)

section \<open>Sets\<close>

lemma set_members_bytes:
  "set (set_members (map SBytes xs)) = (\<lambda>b. decode_member (SBytes b)) ` set xs"
proof -
  have "set (sset_of (map decode_member (map SBytes xs))) = set (map decode_member (map SBytes xs))"
    using decode_member_textual by (intro sset_of_textual) (auto simp del: decode_member.simps)
  then show ?thesis by (simp add: set_members_def image_image del: decode_member.simps)
qed

lemma set_members_distinct: "distinct (set_members items)"
  using sset_of_distinct distinct_map by (auto simp: set_members_def distinct_sort)

lemma set_members_sorted: "sorted (map sort_key_of (set_members items))"
  by (simp add: set_members_def)

text \<open>
  C24 A Redis set becomes a list that holds every member exactly once, decoded when it is valid
  UTF-8 and as its bytes otherwise, sorted by type and text; distinct members are never merged, so
  the list is as long as the set.
\<close>

theorem set_convert_members:
  assumes "distinct xs"
  shows "set (set_members (map SBytes xs)) = (\<lambda>b. decode_member (SBytes b)) ` set xs \<and>
    distinct (set_members (map SBytes xs)) \<and>
    length (set_members (map SBytes xs)) = length xs \<and>
    sorted (map sort_key_of (set_members (map SBytes xs)))"
proof -
  have "card ((\<lambda>b. decode_member (SBytes b)) ` set xs) = length xs"
    using assms inj_decode_member by (simp add: card_image distinct_card inj_on_subset del: decode_member.simps)
  then have "length (set_members (map SBytes xs)) = length xs"
    using distinct_card [OF set_members_distinct] by (metis set_members_bytes)
  then show ?thesis by (simp add: set_members_bytes set_members_distinct set_members_sorted del: decode_member.simps)
qed

theorem set_convert_members_witness:
  "length (set_members (map SBytes [[49], [49, 46, 48], [255]])) = 3"
  using set_convert_members [of "[[49], [49, 46, 48], [255]]"] by simp

text \<open>
  The converted set does not depend on the order in which Redis or the interpreter enumerates
  the members: two enumerations of the same set give the same list.
\<close>

theorem set_convert_deterministic:
  assumes "set xs = set ys"
  shows "set_members (map SBytes xs) = set_members (map SBytes ys)"
proof -
  let ?f = "\<lambda>xs. set_members (map SBytes xs)"
  have textual: "is_textual v" if "v \<in> set (?f zs)" for v zs
    using that decode_member_textual by (auto simp: set_members_bytes simp del: decode_member.simps)
  have same: "set (?f xs) = set (?f ys)" using assms by (simp add: set_members_bytes)
  have inj: "inj_on sort_key_of (set (?f xs) \<union> set (?f ys))"
    using textual sort_key_inject by (auto simp: inj_on_def)
  then have "distinct (map sort_key_of (?f xs))" "distinct (map sort_key_of (?f ys))"
    using set_members_distinct by (auto simp: distinct_map inj_on_Un)
  then have "map sort_key_of (?f xs) = map sort_key_of (?f ys)"
    using set_members_sorted same by (intro sorted_distinct_set_unique) auto
  then show ?thesis using inj by (rule map_inj_on)
qed

theorem set_convert_deterministic_witness:
  "set_members (map SBytes [[98], [97]]) = set_members (map SBytes [[97], [98]])"
  by (rule set_convert_deterministic) auto

section \<open>Sorted sets\<close>

lemma encode_score_legal: "aerospike_legal (encode_score v)"
  by (cases v) auto

text \<open>
  C25 A sorted set becomes a map with one entry per member, in the order of the source, whose keys
  are the decoded members and whose values are the scores: a finite score is kept as the same double, the
  infinities are stored as the texts \<^verbatim>\<open>inf\<close> and \<^verbatim>\<open>-inf\<close> and a NaN as \<^verbatim>\<open>nan\<close>, so every stored score
  is a value Aerospike accepts.
\<close>

theorem zset_convert_entries:
  assumes "distinct (map fst ps)"
  shows "zset_scores (map (\<lambda>(m, s). (SBytes m, SFloat s)) ps) =
      map (\<lambda>(m, s). (decode_member (SBytes m), PS (encode_score (SFloat s)))) ps \<and>
    (\<forall>s. aerospike_legal (encode_score (SFloat s)) \<and>
         (isfinite s \<longleftrightarrow> encode_score (SFloat s) = SFloat s) \<and>
         (\<forall>neg. s = FInf neg \<longrightarrow> encode_score (SFloat s) = SStr (if neg then L ''-inf'' else L ''inf'')) \<and>
         (s = FNan \<longrightarrow> encode_score (SFloat s) = SStr (L ''nan'')))"
proof -
  let ?items = "map (\<lambda>(m, s). (decode_member (SBytes m), PS (encode_score (SFloat s)))) ps"
  have keys: "map (\<lambda>p. scalar_key (fst p)) ?items = map (\<lambda>b. decode_member (SBytes b)) (map fst ps)"
    using decode_member_textual by (auto simp: case_prod_beta simp del: decode_member.simps)
  have "distinct (map (\<lambda>p. scalar_key (fst p)) ?items)"
    unfolding keys using assms inj_decode_member
    by (simp add: distinct_map inj_on_subset [OF inj_decode_member] del: map_map decode_member.simps)
  then have "kset_all scalar_key ?items [] = [] @ ?items" by (intro kset_all_fresh) simp
  moreover have "map (\<lambda>(member, score). (decode_member member, PS (encode_score score)))
      (map (\<lambda>(m, s). (SBytes m, SFloat s)) ps) = ?items"
    by (simp add: case_prod_beta comp_def)
  ultimately show ?thesis
    using encode_score_legal by (simp only: zset_scores_def append_Nil simp_thms) simp
qed

theorem zset_convert_entries_witness:
  "zset_scores (map (\<lambda>(m, s). (SBytes m, SFloat s)) [([49], FFin False 1 0), ([49, 46, 48], FInf True)]) =
     [(SStr [49], PS (SFloat (FFin False 1 0))), (SStr [49, 46, 48], PS (SStr (L ''-inf'')))]"
proof -
  have "utf8_decode [49] = Some [49]" "utf8_decode [49, 46, 48] = Some [49, 46, 48]"
    using utf8_decode_encode [of "[49]"] utf8_decode_encode [of "[49, 46, 48]"]
    by (simp_all add: wf_text_def scalar_def utf8_encode_def enc1_def)
  then show ?thesis
    using zset_convert_entries [of "[([49], FFin False 1 0), ([49, 46, 48], FInf True)]"] by simp
qed

section \<open>Hashes\<close>

lemma decode_field_valid: "utf8_decode f = Some s \<Longrightarrow> decode_field (SBytes f) = s"
  by (simp add: utf8_decode_replace_valid)

lemma to_map_items:
  assumes "mapr (\<lambda>(f, v). rmap (\<lambda>w. (SStr (decode_field f), PS w)) (coerce_scalar v)) raw = Inr items"
  shows "map fst items = map (\<lambda>(f, v). SStr (decode_field f)) raw"
  using assms unfolding mapr_eq_Inr
  by (induction rule: list_all2_induct) (auto simp: rmap_eq_Inr)

lemma decoded_fields_distinct:
  assumes "\<forall>(f, v) \<in> set d. utf8_decode f \<noteq> None" "distinct (map fst d)"
  shows "distinct (map (\<lambda>(f, v). SStr (decode_field (SBytes f))) d)"
  using assms
proof (induction d)
  case (Cons p d)
  obtain f v where p: "p = (f, v)" by (cases p)
  obtain s where s: "utf8_decode f = Some s" using Cons.prems(1) by (auto simp: p)
  have "decode_field (SBytes g) \<noteq> s" if g: "(g, w) \<in> set d" for g w
  proof -
    obtain t where t: "utf8_decode g = Some t" using Cons.prems(1) g by fastforce
    have "g \<noteq> f" using Cons.prems(2) g p by (force simp: image_iff)
    then show ?thesis using utf8_decode_inject s t decode_field_valid [OF t] by metis
  qed
  then have "SStr (decode_field (SBytes f)) \<notin> set (map (\<lambda>(f, v). SStr (decode_field (SBytes f))) d)"
    using decode_field_valid [OF s] by force
  then show ?case using Cons by (auto simp: p simp del: decode_field.simps)
qed simp

text \<open>
  With the map representation, a hash whose field names are distinct valid UTF-8 texts becomes
  a map with exactly one entry per field, in the order of the source, whose keys are the field
  names and whose values are the coerced values.
\<close>

theorem hash_map_entries:
  assumes "\<forall>(f, v) \<in> set d. utf8_decode f \<noteq> None" "distinct (map fst d)"
    and "to_map (map (\<lambda>(f, v). (SBytes f, SBytes v)) d) = Inr m"
  shows "list_all2 (\<lambda>(f, v) (k, w). k = SStr (the (utf8_decode f)) \<and>
           (\<exists>x. coerce_scalar (SBytes v) = Inr x \<and> w = PS x)) d m"
proof -
  let ?raw = "map (\<lambda>(f, v). (SBytes f, SBytes v)) d"
  let ?item = "\<lambda>(f, v). rmap (\<lambda>w. (SStr (decode_field f), PS w)) (coerce_scalar v)"
  obtain items where items: "mapr ?item ?raw = Inr items" and m: "m = kset_all scalar_key items []"
    using assms(3) by (auto simp: to_map_def rmap_eq_Inr)
  have fst_items: "map fst items = map (\<lambda>(f, v). SStr (decode_field (SBytes f))) d"
    using to_map_items [OF items] by (simp add: comp_def case_prod_beta)
  have "map (\<lambda>p. scalar_key (fst p)) items = map scalar_key (map fst items)" by simp
  also have "\<dots> = map fst items" unfolding fst_items by (simp add: case_prod_beta)
  finally have "distinct (map (\<lambda>p. scalar_key (fst p)) ([] @ items))"
    using decoded_fields_distinct [OF assms(1,2)] fst_items by simp
  then have m': "m = items" using m kset_all_fresh by fastforce
  have "list_all2 (\<lambda>p y. ?item (SBytes (fst p), SBytes (snd p)) = Inr y) d items"
    using items by (simp add: mapr_eq_Inr list_all2_map1 case_prod_beta del: coerce_scalar.simps)
  then show ?thesis unfolding m'
    by (rule list.rel_mono_strong)
      (use assms(1) in \<open>auto simp: rmap_eq_Inr utf8_decode_replace_valid simp del: coerce_scalar.simps\<close>)
qed

theorem hash_map_entries_witness:
  "\<exists>m. to_map [(SBytes [97], SBytes [255])] = Inr m \<and> map fst m = [SStr [97]]"
proof -
  have d: "utf8_decode [97] = Some [97]" "utf8_decode [255] = None"
    by (simp_all add: utf8_decode_def decode_strict.simps)
  then obtain m where "to_map [(SBytes [97], SBytes [255])] = Inr m"
    by (simp add: to_map_def del: decode_field.simps)
  then show ?thesis using hash_map_entries [of "[([97], [255])]" m] d
    by (auto simp: list_all2_Cons1)
qed

text \<open>
  Two different field names of one hash that are not valid UTF-8 can decode to the same text;
  the map then keeps a single entry, with the value of the later field.
\<close>

lemma hash_fields_merge:
  "to_map [(SBytes [255], SInt i), (SBytes [254], SInt j)] = Inr [(SStr [65533], PS (SInt j))]"
  by (simp add: to_map_def utf8_decode_replace_def decode_replace.simps kset_all_def)

lemma field_bins_step:
  "foldr_res (\<lambda>(field, value) bins.
       let name = decode_field field
       in if MAX_BIN_NAME_BYTES < length (utf8_encode name) then Inl ValueError
          else rmap (\<lambda>v. dict_set name (PS v) bins) (coerce_scalar value)) raw bins0 = Inr bins \<longleftrightarrow>
   (\<exists>vs. list_all2 (\<lambda>(f, v) w. length (utf8_encode (decode_field f)) \<le> MAX_BIN_NAME_BYTES \<and>
           coerce_scalar v = Inr w) raw vs \<and>
         bins = kset_all (\<lambda>k. k) (map2 (\<lambda>(f, v) w. (decode_field f, PS w)) raw vs) bins0)"
proof (induction raw arbitrary: bins0)
  case Nil
  then show ?case by (auto simp: kset_all_def)
next
  case (Cons p raw)
  have ex: "(\<exists>vs. (\<exists>y zs. vs = y # zs \<and> Q y zs) \<and> R vs) \<longleftrightarrow> (\<exists>y zs. Q y zs \<and> R (y # zs))" for Q R
    by blast
  show ?case
    by (cases p)
      (auto simp: Let_def rbind_eq_Inr rmap_eq_Inr list_all2_Cons1 kset_all_def
          Cons.IH [unfolded Let_def] ex
        simp del: decode_field.simps coerce_scalar.simps)
qed

text \<open>
  With one bin per field, the conversion succeeds exactly when every field name fits the
  fifteen bytes of a bin name and every value can be coerced, and then its bins are named by the
  fields of the hash, each name once.
\<close>

theorem field_bins_limit:
  "((\<exists>bins. to_field_bins raw = Inr bins) \<longleftrightarrow>
     list_all (\<lambda>(f, v). length (utf8_encode (decode_field f)) \<le> MAX_BIN_NAME_BYTES \<and>
        (\<exists>x. coerce_scalar v = Inr x)) raw) \<and>
   (case to_field_bins raw of
      Inr bins \<Rightarrow> fst ` set bins = (\<lambda>(f, v). decode_field f) ` set raw \<and> dict_wf bins
    | Inl _ \<Rightarrow> True)"
proof -
  let ?ok = "\<lambda>(f, v) w. length (utf8_encode (decode_field f)) \<le> MAX_BIN_NAME_BYTES \<and> coerce_scalar v = Inr w"
  have step: "to_field_bins raw = Inr bins \<longleftrightarrow> (\<exists>vs. list_all2 ?ok raw vs \<and>
      bins = kset_all (\<lambda>k. k) (map2 (\<lambda>(f, v) w. (decode_field f, PS w)) raw vs) [])" for bins
    unfolding to_field_bins_def by (rule field_bins_step)
  have ex: "(\<exists>vs. list_all2 ?ok raw vs) \<longleftrightarrow>
      list_all (\<lambda>(f, v). length (utf8_encode (decode_field f)) \<le> MAX_BIN_NAME_BYTES \<and>
        (\<exists>x. coerce_scalar v = Inr x)) raw"
    by (induction raw) (auto simp: list_all2_Cons1 simp del: decode_field.simps)
  have "fst ` set bins = (\<lambda>(f, v). decode_field f) ` set raw \<and> dict_wf bins"
    if r: "to_field_bins raw = Inr bins" for bins
  proof -
    obtain vs where vs: "list_all2 ?ok raw vs"
      and b: "bins = kset_all (\<lambda>k. k) (map2 (\<lambda>(f, v) w. (decode_field f, PS w)) raw vs) []"
      using r step by blast
    define items where "items = map2 (\<lambda>(f, v) w. (decode_field f, PS w)) raw vs"
    have "map fst items = map (\<lambda>(f, v). decode_field f) raw"
      unfolding items_def using list_all2_lengthD [OF vs]
      by (induction raw vs rule: list_induct2) (auto simp del: decode_field.simps)
    then have "fst ` set items = (\<lambda>(f, v). decode_field f) ` set raw" by (metis image_set)
    moreover have "fst ` set (kset_all (\<lambda>k. k) items []) = fst ` set items"
      using kset_all_keys [where nf = "\<lambda>k. k", of items "[]"] by simp
    ultimately have "fst ` set bins = (\<lambda>(f, v). decode_field f) ` set raw"
      by (simp only: b items_def)
    moreover have "dict_wf bins" unfolding b by (rule kset_all_wf) (simp add: kwf_def)
    ultimately show ?thesis ..
  qed
  then show ?thesis using step ex by (auto split: sum.splits)
qed

end
