(* ===== verification/Registry_Facts.thy ===== *)
theory Registry_Facts
  imports Collection_Facts
begin

text \<open>
  The converter registry: which types it converts, how a record can fail, and what a converted
  record keeps of its source.
\<close>

section \<open>The default registry\<close>

definition supported_types :: "pystr list" where
  "supported_types = [L ''string'', L ''hash'', L ''list'', L ''set'', L ''zset'']"

definition default_converters :: "MigrationConfig \<Rightarrow> (pystr, Converter) dict" where
  "default_converters config =
     (let vb = ac_value_bin (mc_aerospike config)
      in [(L ''string'', StringConverter vb), (L ''hash'', HashConverter vb (mc_hash_strategy config)),
          (L ''list'', ListConverter vb), (L ''set'', SetConverter vb), (L ''zset'', ZSetConverter vb)])"

lemma registry_from_config_eq:
  "registry_from_config config =
     Inr \<lparr>reg_converters = default_converters config,
          reg_ttl_policy = TtlPolicy_init (mc_ttl_overflow_policy config) (ac_max_ttl (mc_aerospike config))\<rparr>"
  by (simp add: registry_from_config_def registry_init_def registry_register_def default_converters_def Let_def
      text_simps)

lemma default_get:
  "dict_get (default_converters config) t =
     (let vb = ac_value_bin (mc_aerospike config)
      in if t = L ''string'' then Some (StringConverter vb)
         else if t = L ''hash'' then Some (HashConverter vb (mc_hash_strategy config))
         else if t = L ''list'' then Some (ListConverter vb)
         else if t = L ''set'' then Some (SetConverter vb)
         else if t = L ''zset'' then Some (ZSetConverter vb) else None)"
  by (simp add: default_converters_def Let_def)

text \<open>Every converter is registered under the type it declares, which is not empty.\<close>

definition registry_wf :: "ConverterRegistry \<Rightarrow> bool" where
  "registry_wf reg \<longleftrightarrow> dict_wf (reg_converters reg) \<and>
     list_all (\<lambda>(t, c). redis_type c = t \<and> t \<noteq> []) (reg_converters reg)"

lemma registry_register_wf:
  "registry_wf reg \<Longrightarrow> registry_register reg c = Inr reg' \<Longrightarrow> registry_wf reg'"
  by (auto simp: registry_wf_def registry_register_def kwf_kset list_all_kset split: if_splits)

section \<open>How a conversion can fail\<close>

lemma coerce_error: "coerce_scalar (SBytes b) = Inl e \<Longrightarrow> e = ValueError"
  by (auto simp: coerce_text_raises split: option.splits)

lemma mapr_error: "mapr f xs = Inl e \<Longrightarrow> (\<And>x e. x \<in> set xs \<Longrightarrow> f x = Inl e \<Longrightarrow> e = E) \<Longrightarrow> e = E"
  by (induction xs arbitrary: e) (auto simp: rbind_eq_Inl rmap_eq_Inl)

lemma to_map_error:
  assumes "to_map (map (\<lambda>(f, v). (SBytes f, SBytes v)) d) = Inl e"
  shows "e = ValueError"
proof -
  have "mapr (\<lambda>(field, value). rmap (\<lambda>v. (SStr (decode_field field), PS v)) (coerce_scalar value))
      (map (\<lambda>(f, v). (SBytes f, SBytes v)) d) = Inl e"
    using assms by (simp add: to_map_def rmap_eq_Inl)
  then show ?thesis
    by (rule mapr_error) (auto simp: rmap_eq_Inl simp del: coerce_scalar.simps dest: coerce_error)
qed

lemma to_field_bins_error:
  assumes "to_field_bins (map (\<lambda>(f, v). (SBytes f, SBytes v)) d) = Inl e"
  shows "e = ValueError"
proof -
  have "e = ValueError"
    if "foldr_res (\<lambda>(field, value) bins.
       let name = decode_field field
       in if MAX_BIN_NAME_BYTES < length (utf8_encode name) then Inl ValueError
          else rmap (\<lambda>v. dict_set name (PS v) bins) (coerce_scalar value))
       (map (\<lambda>(f, v). (SBytes f, SBytes v)) d) bins = Inl e" for bins
    using that
    by (induction d arbitrary: bins)
      (auto simp: Let_def rbind_eq_Inl rmap_eq_Inl simp del: coerce_scalar.simps decode_field.simps
        dest: coerce_error split: if_splits)
  then show ?thesis using assms by (simp add: to_field_bins_def)
qed

lemma list_items_error: "mapr coerce_scalar (map SBytes xs) = Inl e \<Longrightarrow> e = ValueError"
  by (erule mapr_error) (auto simp del: coerce_scalar.simps dest: coerce_error)

text \<open>Redis reports no TTL, or a non-negative 64-bit number of milliseconds.\<close>

definition ttl_in_range :: "RedisRecord \<Rightarrow> bool" where
  "ttl_in_range r \<longleftrightarrow> (case rr_ttl_ms r of None \<Rightarrow> True | Some t \<Rightarrow> 0 \<le> t \<and> t < 2 ^ 63)"

lemma to_ttl_error:
  assumes "ttl_in_range r" "fst (to_ttl p (rr_ttl_ms r)) = Inl e"
  shows "e = TtlTooLongError \<and> tp_mode p = REJECT"
proof (cases "rr_ttl_ms r")
  case None
  then show ?thesis using assms(2) by simp
next
  case (Some t)
  then have t: "0 \<le> t" "t < 2 ^ 63" using assms(1) by (auto simp: ttl_in_range_def)
  obtain c where "ceil_seconds t = Inr c"
    using ceil_seconds_small [OF t(1)] ceil_seconds_large [OF _ t(2)] by (cases "t < 1000 * 2 ^ 44") auto
  then show ?thesis using assms(2)
    by (auto simp: Some Let_def fst_handle_overflow split: if_splits TtlOverflowPolicy.splits)
qed

lemma build_cases:
  assumes "fst (build tp r bins ps) = out"
  shows "(\<exists>e. bins = Inl e \<and> out = Inl e) \<or> (\<exists>e. fst (to_ttl tp (rr_ttl_ms r)) = Inl e \<and> out = Inl e) \<or>
    (\<exists>bs ttl. bins = Inr bs \<and> fst (to_ttl tp (rr_ttl_ms r)) = Inr ttl \<and>
       out = Inr \<lparr>ar_key = rr_key r, ar_bins = bs, ar_ttl_s = Some ttl, ar_bin_policies = ps, ar_set_name = None\<rparr>)"
  using assms by (auto simp: build_def split: sum.splits prod.splits)

text \<open>The bins computed from the value of a well-shaped record, by the type of the record.\<close>

lemma bins_error:
  assumes "well_shaped r"
  shows "rr_type r = L ''string'' \<Longrightarrow> convert_string_value (rr_value r) = Inl e \<Longrightarrow> e = ValueError"
    and "rr_type r = L ''list'' \<Longrightarrow> rbind (iter_scalars (rr_value r)) (mapr coerce_scalar) = Inl e \<Longrightarrow> e = ValueError"
    and "rr_type r = L ''set'' \<Longrightarrow> iter_scalars (rr_value r) \<noteq> Inl e"
    and "rr_type r = L ''zset'' \<Longrightarrow> zset_pairs (rr_value r) \<noteq> Inl e"
    and "rr_type r = L ''hash'' \<Longrightarrow> rbind (hash_items (rr_value r)) to_map = Inl e \<Longrightarrow> e = ValueError"
    and "rr_type r = L ''hash'' \<Longrightarrow> rbind (hash_items (rr_value r)) to_field_bins = Inl e \<Longrightarrow> e = ValueError"
  using assms coerce_error list_items_error to_map_error to_field_bins_error
  by (auto simp: well_shaped_def rmap_eq_Inl simp del: coerce_scalar.simps)

lemma rbind_rmap_eq_Inl: "rbind m (\<lambda>x. rmap g (f x)) = Inl e \<longleftrightarrow> rbind m f = Inl e"
  by (cases m) (auto simp: rmap_eq_Inl)

lemmas converter_defs =
  StringConverter_convert_def ListConverter_convert_def SetConverter_convert_def
  ZSetConverter_convert_def HashConverter_convert_def Let_def

text \<open>What a conversion of a record may return.\<close>

definition conversion_ok :: "TtlPolicy \<Rightarrow> RedisRecord \<Rightarrow> AerospikeRecord res \<Rightarrow> bool" where
  "conversion_ok tp r out \<longleftrightarrow>
     (case out of
        Inl e \<Rightarrow> e = ValueError \<or> (e = TtlTooLongError \<and> tp_mode tp = REJECT)
      | Inr ar \<Rightarrow> ar_key ar = rr_key r \<and> ar_set_name ar = None \<and>
          fst (to_ttl tp (rr_ttl_ms r)) = Inr (the (ar_ttl_s ar)) \<and> ar_ttl_s ar \<noteq> None)"

lemma build_ok:
  assumes "ttl_in_range r" "\<And>e. bins = Inl e \<Longrightarrow> e = ValueError"
  shows "conversion_ok tp r (fst (build tp r bins ps))"
  using build_cases [where out = "fst (build tp r bins ps)", OF refl] assms(2) to_ttl_error [OF assms(1), of tp]
  by (auto simp: conversion_ok_def)

lemma convert_ok:
  assumes "well_shaped r" "ttl_in_range r"
  shows "rr_type r = L ''string'' \<Longrightarrow> conversion_ok tp r (fst (StringConverter_convert vb tp r))"
    and "rr_type r = L ''list'' \<Longrightarrow> conversion_ok tp r (fst (ListConverter_convert vb tp r))"
    and "rr_type r = L ''set'' \<Longrightarrow> conversion_ok tp r (fst (SetConverter_convert vb tp r))"
    and "rr_type r = L ''zset'' \<Longrightarrow> conversion_ok tp r (fst (ZSetConverter_convert vb tp r))"
    and "rr_type r = L ''hash'' \<Longrightarrow> conversion_ok tp r (fst (HashConverter_convert vb st tp r hs ovb))"
  using bins_error [OF assms(1)]
  by (auto simp: converter_defs rmap_eq_Inl rbind_rmap_eq_Inl intro!: build_ok [OF assms(2)])

section \<open>Properties\<close>

text \<open>
  A registry made from any configuration supports exactly the five Redis types string, hash,
  list, set and zset, each with the converter that declares that type.
\<close>

lemma registry_default_types:
  "\<exists>reg. registry_from_config config = Inr reg \<and> registry_wf reg \<and>
     (\<forall>t. registry_supports reg t \<longleftrightarrow> t \<in> set supported_types)"
proof -
  have "registry_wf \<lparr>reg_converters = default_converters config, reg_ttl_policy = tp\<rparr>" for tp
    by (simp add: registry_wf_def default_converters_def Let_def kwf_def text_simps)
  moreover have "registry_supports \<lparr>reg_converters = default_converters config, reg_ttl_policy = tp\<rparr> t \<longleftrightarrow>
      t \<in> set supported_types" for tp t
    by (simp add: registry_supports_def default_get supported_types_def Let_def)
  ultimately show ?thesis by (simp add: registry_from_config_eq)
qed

lemma registry_convert_default:
  assumes "reg_converters reg = default_converters config" "well_shaped r" "ttl_in_range r"
    and "rr_type r \<in> set supported_types"
  shows "conversion_ok (reg_ttl_policy reg) r (fst (registry_convert reg r hs vb))"
  using assms(4) convert_ok [OF assms(2,3)]
  by (auto simp: registry_convert_def registry_get_def assms(1) default_get supported_types_def Let_def
      text_simps split: prod.splits) (metis fst_conv)+

lemma registry_convert_ok:
  assumes "registry_from_config config = Inr reg" "well_shaped r" "ttl_in_range r"
    and "rr_type r \<in> set supported_types"
  shows "case fst (registry_convert reg r hs vb) of
     Inr ar \<Rightarrow> ar_key ar = rr_key r \<and> ar_set_name ar = None \<and>
       (\<exists>ttl. ar_ttl_s ar = Some ttl \<and> fst (to_ttl (reg_ttl_policy reg) (rr_ttl_ms r)) = Inr ttl)
   | Inl e \<Rightarrow> e = ValueError \<or> (e = TtlTooLongError \<and> mc_ttl_overflow_policy config = REJECT)"
proof -
  have reg: "reg_converters reg = default_converters config"
      "tp_mode (reg_ttl_policy reg) = mc_ttl_overflow_policy config"
    using assms(1) by (auto simp: registry_from_config_eq TtlPolicy_init_def)
  show ?thesis using registry_convert_default [OF reg(1) assms(2-4), of hs vb] reg(2)
    by (auto simp: conversion_ok_def split: sum.splits)
qed

text \<open>
  C18 Converting a record of one of the five types, with the value its type has, either yields a
  record with the same key, the TTL the policy computes and no set yet, or fails in one of two
  ways: ValueError (a bin name or an integer literal that is too long), or TtlTooLongError, which
  needs the rejecting policy.
\<close>

theorem registry_convert_outcome:
  assumes "registry_from_config config = Inr reg" "well_shaped r" "ttl_in_range r"
    and "rr_type r \<in> set supported_types"
  shows "case fst (registry_convert reg r hs vb) of
     Inr ar \<Rightarrow> ar_key ar = rr_key r \<and> ar_set_name ar = None \<and>
       (\<exists>ttl. ar_ttl_s ar = Some ttl \<and> fst (to_ttl (reg_ttl_policy reg) (rr_ttl_ms r)) = Inr ttl)
   | Inl e \<Rightarrow> e = ValueError \<or> (e = TtlTooLongError \<and> mc_ttl_overflow_policy config = REJECT)"
  by (rule registry_convert_ok [OF assms])

theorem registry_convert_outcome_witness:
  "\<exists>reg. registry_from_config MigrationConfig_default = Inr reg \<and>
     (case fst (registry_convert reg \<lparr>rr_key = KStr [107], rr_type = L ''set'', rr_value = RSet [SBytes [97]], rr_ttl_ms = None\<rparr> None None) of
        Inr ar \<Rightarrow> ar_key ar = KStr [107] | Inl e \<Rightarrow> e = ValueError \<or> e = TtlTooLongError)"
proof -
  let ?r = "\<lparr>rr_key = KStr [107], rr_type = L ''set'', rr_value = RSet [SBytes [97]], rr_ttl_ms = None\<rparr>"
  obtain reg where reg: "registry_from_config MigrationConfig_default = Inr reg"
    by (simp add: registry_from_config_eq)
  have "well_shaped ?r" by (auto simp: well_shaped_def text_simps intro!: exI [of _ "[[97]]"])
  moreover have "ttl_in_range ?r" "rr_type ?r \<in> set supported_types"
    by (simp_all add: ttl_in_range_def supported_types_def)
  ultimately show ?thesis using registry_convert_outcome [OF reg, of ?r None None] reg
    by (auto split: sum.splits)
qed

text \<open>
  A type without a converter is refused with UnsupportedTypeError, whatever the value, and the
  registry is unchanged.
\<close>

lemma registry_convert_unsupported:
  assumes "\<not> registry_supports reg (rr_type r)"
  shows "registry_convert reg r hs vb = (Inl UnsupportedTypeError, reg)"
  using assms by (simp add: registry_convert_def registry_get_def registry_supports_def)

end
