(* ===== verification/Sink_Facts.thy ===== *)
theory Sink_Facts
  imports Sink
begin

text \<open>
  The sink: a batch reports one outcome per record, sends each key once and from its last record,
  and an oversized record never reaches the client.
\<close>

section \<open>Planning a batch\<close>

definition sendable :: "'c AerospikeSink \<Rightarrow> AerospikeRecord \<Rightarrow> bool" where
  "sendable self r \<longleftrightarrow> int (record_size r) \<le> ac_max_record_size (sk_config self)"

lemma too_large_reason_iff: "too_large_reason self r = None \<longleftrightarrow> sendable self r"
  by (simp add: too_large_reason_def sendable_def Let_def not_less)

text \<open>The positions of the records to send, with their keys.\<close>

definition slots :: "'c AerospikeSink \<Rightarrow> nat \<Rightarrow> AerospikeRecord list \<Rightarrow> (AerospikeKeyTuple \<times> nat) list" where
  "slots self i rs = map (\<lambda>(r, j). (sink_key self r, j)) (filter (\<lambda>(r, j). sendable self r) (zip rs [i ..< i + length rs]))"

lemma slots_Cons:
  "slots self i (r # rs) = (if sendable self r then (sink_key self r, i) # slots self (Suc i) rs else slots self (Suc i) rs)"
proof -
  have "[i ..< i + length (r # rs)] = i # [Suc i ..< Suc i + length rs]" by (simp add: upt_rec)
  then show ?thesis by (simp only: slots_def zip_Cons_Cons) (simp add: slots_def)
qed

lemma slots_Nil [simp]: "slots self i [] = []"
  by (simp add: slots_def)

lemma plan_batch_eq:
  "plan_batch self i rs last_slot =
     (map (\<lambda>r. if sendable self r then None else Some (L ''RecordTooLargeError'')) rs,
      map (\<lambda>r. if sendable self r then Some (sink_key self r) else None) rs,
      kset_all (\<lambda>k. k) (slots self i rs) last_slot)"
  by (induction rs arbitrary: i last_slot)
    (auto simp: slots_Cons too_large_reason_iff kset_all_def Let_def)

lemma slots_mem:
  "(k, j) \<in> set (slots self i rs) \<longleftrightarrow>
     (\<exists>m < length rs. j = i + m \<and> sendable self (rs ! m) \<and> k = sink_key self (rs ! m))"
  by (auto simp: slots_def set_zip image_iff) (metis nth_upt add_less_cancel_left)

lemma slots_sorted: "sorted_wrt (\<lambda>p q. snd p < snd q) (slots self i rs)"
  by (induction rs arbitrary: i) (auto simp: slots_Cons slots_mem)

text \<open>What the dictionary of last positions holds.\<close>

definition last_slots :: "'c AerospikeSink \<Rightarrow> AerospikeRecord list \<Rightarrow> (AerospikeKeyTuple, nat) dict" where
  "last_slots self rs = kset_all (\<lambda>k. k) (slots self 0 rs) []"

lemma last_slots_wf: "dict_wf (last_slots self rs)"
  unfolding last_slots_def by (rule kset_all_wf) (simp add: kwf_def)

lemma last_slots_keys: "fst ` set (last_slots self rs) = fst ` set (slots self 0 rs)"
  using kset_all_keys [where nf = "\<lambda>k. k", of "slots self 0 rs" "[]"] by (simp add: last_slots_def)

lemma find_rev_last:
  assumes "sorted_wrt (\<lambda>p q. snd p < snd q) xs" "find (\<lambda>(k', v). k' = k) (rev xs) = Some (k', j)"
  shows "(k, j) \<in> set xs \<and> (\<forall>j'. (k, j') \<in> set xs \<longrightarrow> j' \<le> (j :: nat))"
  using assms
proof (induction xs rule: rev_induct)
  case (snoc p xs)
  show ?case
  proof (cases "fst p = k")
    case True
    then show ?thesis using snoc.prems
      by (cases p) (auto simp: sorted_wrt_append dest: less_imp_le)
  next
    case False
    then have "(k, j) \<in> set xs \<and> (\<forall>j'. (k, j') \<in> set xs \<longrightarrow> j' \<le> j)"
      using snoc by (cases p) (auto simp: sorted_wrt_append)
    then show ?thesis using False by auto
  qed
qed simp

lemma last_slots_get:
  assumes "(k, j) \<in> set (last_slots self rs)"
  shows "j < length rs \<and> sendable self (rs ! j) \<and> sink_key self (rs ! j) = k \<and>
    (\<forall>i < length rs. sendable self (rs ! i) \<and> sink_key self (rs ! i) = k \<longrightarrow> i \<le> j)"
proof -
  have "dict_get (last_slots self rs) k = Some j"
    using kget_in_set [OF last_slots_wf assms] by simp
  then obtain k' where "find (\<lambda>(k', v). k' = k) (rev (slots self 0 rs)) = Some (k', j)"
    unfolding last_slots_def kset_all_get by (auto split: option.splits)
  from find_rev_last [OF slots_sorted this] show ?thesis by (auto simp: slots_mem)
qed

lemma last_slots_key_set: "fst ` set (last_slots self rs) = sink_key self ` {r \<in> set rs. sendable self r}"
proof (rule set_eqI)
  fix k
  have "k \<in> fst ` set (slots self 0 rs) \<longleftrightarrow> (\<exists>j. (k, j) \<in> set (slots self 0 rs))" by force
  also have "\<dots> \<longleftrightarrow> (\<exists>r. r \<in> set rs \<and> sendable self r \<and> k = sink_key self r)"
    by (simp only: slots_mem) (auto simp: in_set_conv_nth)
  finally show "k \<in> fst ` set (last_slots self rs) \<longleftrightarrow> k \<in> sink_key self ` {r \<in> set rs. sendable self r}"
    unfolding last_slots_keys by blast
qed

lemma last_slots_Nil: "last_slots self rs = [] \<longleftrightarrow> (\<forall>r \<in> set rs. \<not> sendable self r)"
proof -
  have "last_slots self rs = [] \<longleftrightarrow> fst ` set (last_slots self rs) = {}" by simp
  then show ?thesis unfolding last_slots_key_set by auto
qed

section \<open>The writes of a batch\<close>

lemma batch_item_for_key: "batch_item_for self r k = Inr b \<Longrightarrow> bw_key b = k"
  by (auto simp: batch_item_for_def rbind_eq_Inr rmap_eq_Inr)

lemma batch_writes_keys:
  assumes "batch_writes self rs ls = Inr writes"
  shows "map bw_key writes = map fst ls"
  using assms unfolding batch_writes_def mapr_eq_Inr
  by (induction rule: list_all2_induct) (auto dest: batch_item_for_key)

lemma batch_writes_nth:
  assumes "batch_writes self rs ls = Inr writes" "j < length ls"
  shows "batch_item_for self (rs ! snd (ls ! j)) (fst (ls ! j)) = Inr (writes ! j)"
  using assms unfolding batch_writes_def mapr_eq_Inr
  by (auto simp: list_all2_conv_all_nth case_prod_beta)

text \<open>The whole batch, with the plan replaced by what it computes.\<close>

lemma write_many_eq:
  assumes "sk_client self = Some c"
  shows "write_many self w rs =
    (if last_slots self rs = [] then (Inr (map (\<lambda>r. Some (L ''RecordTooLargeError'')) rs), w)
     else case batch_writes self rs (last_slots self rs) of
       Inl e \<Rightarrow> (Inl e, w)
     | Inr writes \<Rightarrow>
         (case cl_batch_write c w writes of
            (Inl e, w') \<Rightarrow> (Inl e, w')
          | (Inr replies, w') \<Rightarrow>
              (Inr (map (\<lambda>r. if sendable self r
                      then (case dict_get (kset_all (\<lambda>k. k) (map (\<lambda>(key, reply). (key, batch_reason self reply))
                                    (zip (map fst (last_slots self rs)) replies)) []) (sink_key self r)
                            of Some out \<Rightarrow> out | None \<Rightarrow> None)
                      else Some (L ''RecordTooLargeError'')) rs), w')))"
proof -
  have m2: "map2 f (map g rs) (map h rs) = map (\<lambda>r. f (g r) (h r)) rs" for f :: "'x \<Rightarrow> 'y \<Rightarrow> 'z" and g h
    by (induction rs) auto
  have "\<forall>r \<in> set rs. \<not> sendable self r" if "last_slots self rs = []"
    using that last_slots_Nil by blast
  then show ?thesis
    using assms
    by (auto simp: write_many_def plan_batch_eq last_slots_def [symmetric] Let_def m2
        split: sum.splits prod.splits)
qed

section \<open>Properties\<close>

text \<open>
  C14 The writes of a batch: each key that a sendable record has is sent exactly once, and what is
  sent is built from the last record of the batch that has the key.
\<close>

theorem batch_last_wins:
  assumes "snd (snd (plan_batch self 0 rs [])) = last_slot" "batch_writes self rs last_slot = Inr writes"
  shows "distinct (map bw_key writes) \<and>
    set (map bw_key writes) = sink_key self ` {r \<in> set rs. too_large_reason self r = None} \<and>
    (\<forall>b \<in> set writes. \<exists>i < length rs. too_large_reason self (rs ! i) = None \<and>
       sink_key self (rs ! i) = bw_key b \<and> batch_item_for self (rs ! i) (bw_key b) = Inr b \<and>
       (\<forall>j < length rs. i < j \<longrightarrow> too_large_reason self (rs ! j) \<noteq> None \<or> sink_key self (rs ! j) \<noteq> bw_key b))"
proof -
  have ls: "last_slot = last_slots self rs" using assms(1) by (simp add: plan_batch_eq last_slots_def)
  have keys: "map bw_key writes = map fst (last_slots self rs)"
    using batch_writes_keys assms(2) ls by blast
  have "distinct (map bw_key writes)" using last_slots_wf [of self rs] keys by (simp add: kwf_def)
  moreover have "set (map bw_key writes) = sink_key self ` {r \<in> set rs. too_large_reason self r = None}"
    by (simp only: keys set_map last_slots_key_set too_large_reason_iff)
  moreover have "\<exists>i < length rs. too_large_reason self (rs ! i) = None \<and>
       sink_key self (rs ! i) = bw_key b \<and> batch_item_for self (rs ! i) (bw_key b) = Inr b \<and>
       (\<forall>j < length rs. i < j \<longrightarrow> too_large_reason self (rs ! j) \<noteq> None \<or> sink_key self (rs ! j) \<noteq> bw_key b)"
    if b: "b \<in> set writes" for b
  proof -
    obtain j where j: "j < length writes" "b = writes ! j" using b by (auto simp: in_set_conv_nth)
    have len: "length writes = length (last_slots self rs)" using keys by (metis length_map)
    let ?p = "last_slots self rs ! j"
    have p: "(fst ?p, snd ?p) \<in> set (last_slots self rs)" using j len by simp
    have item: "batch_item_for self (rs ! snd ?p) (fst ?p) = Inr b"
      using batch_writes_nth [OF assms(2) [unfolded ls]] j len by auto
    have key: "bw_key b = fst ?p" using batch_item_for_key [OF item] .
    show ?thesis using last_slots_get [OF p] item
      by (intro exI [of _ "snd ?p"]) (auto simp: key too_large_reason_iff not_le [symmetric])
  qed
  ultimately show ?thesis by blast
qed

text \<open>
  C13 A batch that returns reports one outcome per record: an oversized record is reported as such
  and not sent, and every other record gets the outcome of the reply to the one write of its key.
  A batch of oversized records only does not contact the server. The client is assumed to return
  one reply per write.
\<close>

theorem write_many_aligned:
  assumes "sk_client self = Some c" "write_many self w rs = (Inr out, w')"
    and "\<And>v ws reps v'. cl_batch_write c v ws = (Inr reps, v') \<Longrightarrow> length reps = length ws"
  shows "length out = length rs \<and>
    (\<forall>i < length rs. too_large_reason self (rs ! i) \<noteq> None \<longrightarrow> out ! i = Some (L ''RecordTooLargeError'')) \<and>
    ((\<forall>r \<in> set rs. too_large_reason self r \<noteq> None) \<and> w' = w \<or>
     (\<exists>writes replies. cl_batch_write c w writes = (Inr replies, w') \<and>
        batch_writes self rs (snd (snd (plan_batch self 0 rs []))) = Inr writes \<and>
        (\<forall>i < length rs. too_large_reason self (rs ! i) = None \<longrightarrow>
           (\<exists>j < length writes. bw_key (writes ! j) = sink_key self (rs ! i) \<and>
              out ! i = batch_reason self (replies ! j)))))"
proof (cases "last_slots self rs = []")
  case True
  then have "\<forall>r \<in> set rs. too_large_reason self r \<noteq> None"
    using last_slots_Nil by (auto simp: too_large_reason_iff)
  then show ?thesis using assms(2) True by (auto simp: write_many_eq [OF assms(1)])
next
  case False
  let ?ls = "last_slots self rs"
  obtain writes replies where w: "batch_writes self rs ?ls = Inr writes"
    and r: "cl_batch_write c w writes = (Inr replies, w')"
    using assms(2) False by (auto simp: write_many_eq [OF assms(1)] split: sum.splits prod.splits)
  have keys: "map bw_key writes = map fst ?ls" using batch_writes_keys [OF w] .
  have len: "length replies = length ?ls" using assms(3) [OF r] keys by (metis length_map)
  let ?items = "map (\<lambda>(key, reply). (key, batch_reason self reply)) (zip (map fst ?ls) replies)"
  have "map fst ?items = map fst ?ls" using len by (simp add: case_prod_beta comp_def)
  then have d: "kset_all (\<lambda>k. k) ?items [] = ?items" "dict_wf ?items"
    using kset_all_fresh [where nf = "\<lambda>k. k", of "[]" ?items] last_slots_wf [of self rs]
    by (auto simp: kwf_def)
  have "out = map (\<lambda>r. if sendable self r
      then (case dict_get (kset_all (\<lambda>k. k) ?items []) (sink_key self r) of Some out \<Rightarrow> out | None \<Rightarrow> None)
      else Some (L ''RecordTooLargeError'')) rs"
    using assms(2) False w r by (simp add: write_many_eq [OF assms(1)])
  note out = this [unfolded d(1)]
  have "\<exists>j < length writes. bw_key (writes ! j) = sink_key self (rs ! i) \<and>
      out ! i = batch_reason self (replies ! j)"
    if i: "i < length rs" "too_large_reason self (rs ! i) = None" for i
  proof -
    have s: "sendable self (rs ! i)" using i too_large_reason_iff by blast
    then have "sink_key self (rs ! i) \<in> fst ` set ?ls" using i last_slots_key_set by fastforce
    then obtain j where j: "j < length ?ls" "fst (?ls ! j) = sink_key self (rs ! i)"
      by (auto simp: in_set_conv_nth)
    have "(sink_key self (rs ! i), batch_reason self (replies ! j)) \<in> set ?items"
      using nth_mem [of j ?items] j len by (simp add: case_prod_beta)
    then have "dict_get ?items (sink_key self (rs ! i)) = Some (batch_reason self (replies ! j))"
      using kget_in_set d(2) by fastforce
    then have "out ! i = batch_reason self (replies ! j)" using i(1) s by (simp add: out)
    then show ?thesis using j keys by (metis length_map nth_map)
  qed
  then show ?thesis using w r by (auto simp: out too_large_reason_iff plan_batch_eq last_slots_def)
qed

section \<open>Batched and sequential writes\<close>

text \<open>The records of a server, and storing one of them.\<close>

definition store :: "AerospikeKeyTuple \<Rightarrow> 'r \<Rightarrow> (AerospikeKeyTuple \<Rightarrow> 'r option) \<Rightarrow> AerospikeKeyTuple \<Rightarrow> 'r option" where
  "store k v m = m(k \<mapsto> v)"

lemma fold_store:
  "fold (\<lambda>x. store (f x) (g x)) xs m k =
     (case find (\<lambda>x. f x = k) (rev xs) of Some x \<Rightarrow> Some (g x) | None \<Rightarrow> m k)"
  by (induction xs rule: rev_induct) (auto simp: store_def)

lemma kget_kset_all:
  "kget nf (kset_all nf items d) k = Some v \<Longrightarrow> v \<in> snd ` set items \<or> kget nf d k = Some v"
proof (induction items arbitrary: d)
  case (Cons p items)
  then have "v \<in> snd ` set items \<or> kget nf (kset nf (fst p) (snd p) d) k = Some v"
    by (simp add: kset_all_def case_prod_beta)
  then show ?case by (auto simp: kget_kset split: if_splits)
qed (simp add: kset_all_def)

lemma find_in_set: "find P (rev xs) = Some x \<Longrightarrow> x \<in> set xs \<and> P x"
  by (auto simp: find_Some_iff rev_nth)

lemma find_rev_Some_iff:
  "find P (rev xs) = Some x \<longleftrightarrow> (\<exists>i < length xs. xs ! i = x \<and> P x \<and> (\<forall>j < length xs. i < j \<longrightarrow> \<not> P (xs ! j)))"
proof (induction xs rule: rev_induct)
  case (snoc y xs)
  show ?case
  proof (cases "P y")
    case True
    then show ?thesis
      by (auto simp: nth_append less_Suc_eq intro!: exI [of _ "length xs"])
  next
    case False
    then show ?thesis using snoc by (auto simp: nth_append less_Suc_eq)
  qed
qed simp

text \<open>Writing the records one after the other, as a worker without batching does.\<close>

definition write_all :: "'c AerospikeSink \<Rightarrow> 'c \<Rightarrow> AerospikeRecord list \<Rightarrow> 'c" where
  "write_all self w rs = fold (\<lambda>r w. snd (sink_write self w r)) rs w"

definition pol_ttl :: "policy \<Rightarrow> int option" where
  "pol_ttl pol = dict_get pol (L ''ttl'')"

text \<open>
  What the library documents of writes whose policy is to create or replace: they succeed, and the
  record then holds what the operations of this write produce and nothing else. \<open>look\<close> reads the
  records of the server, \<open>content\<close> is the record that operations and a TTL produce from nothing, and
  \<open>code\<close> is the constant of the policy. Of a batch nothing is said when it has two writes with one key,
  which can contend for the record.
\<close>

definition replace_laws ::
    "'c aclient \<Rightarrow> int \<Rightarrow> ('c \<Rightarrow> AerospikeKeyTuple \<Rightarrow> 'r option) \<Rightarrow> (operation list \<Rightarrow> int option \<Rightarrow> 'r) \<Rightarrow> bool"
where
  "replace_laws c code look content \<longleftrightarrow>
     (\<forall>w key bins pol. dict_get pol (L ''exists'') = Some code \<longrightarrow>
        (\<exists>w'. cl_put c w key bins pol = (Inr (), w') \<and>
           look w' = store key (content (map (\<lambda>(n, v). OpWrite n v) bins) (pol_ttl pol)) (look w))) \<and>
     (\<forall>w key ops pol. dict_get pol (L ''exists'') = Some code \<longrightarrow>
        (\<exists>w'. cl_operate c w key ops pol = (Inr (), w') \<and>
           look w' = store key (content ops (pol_ttl pol)) (look w))) \<and>
     (\<forall>w writes. list_all (\<lambda>b. dict_get (bw_policy b) (L ''exists'') = Some code) writes \<and> distinct (map bw_key writes) \<longrightarrow>
        (\<exists>w' replies. cl_batch_write c w writes = (Inr replies, w') \<and> length replies = length writes \<and>
           list_all (\<lambda>r. rp_result r = Some 0) replies \<and>
           look w' = fold (\<lambda>b. store (bw_key b) (content (bw_ops b) (pol_ttl (bw_policy b)))) writes (look w)))"

text \<open>The records whose operations can be built with this module.\<close>

definition buildable :: "'c AerospikeSink \<Rightarrow> AerospikeRecord \<Rightarrow> bool" where
  "buildable self r \<longleftrightarrow> (\<exists>ops. ops_for (sk_module self) r = Inr ops)"

definition ttl_or_default :: "AerospikeRecord \<Rightarrow> int" where
  "ttl_or_default r = (case ar_ttl_s r of Some t \<Rightarrow> t | None \<Rightarrow> 0)"

definition stored :: "'c AerospikeSink \<Rightarrow> (operation list \<Rightarrow> int option \<Rightarrow> 'r) \<Rightarrow> AerospikeRecord \<Rightarrow> 'r" where
  "stored self content r = content (projr (ops_for (sk_module self) r)) (Some (ttl_or_default r))"

lemma write_policy_replace:
  assumes "ac_record_exists_policy (sk_config self) = REPLACE"
    and "am_const (sk_module self) (L ''POLICY_EXISTS_CREATE_OR_REPLACE'') = Some code"
  shows "write_policy self r = Inr [(L ''ttl'', ttl_or_default r), (L ''exists'', code)]"
  using assms by (simp add: write_policy_def am_attr_def ttl_or_default_def)

lemma batch_item_replace:
  assumes "ac_record_exists_policy (sk_config self) = REPLACE"
    and "am_const (sk_module self) (L ''POLICY_EXISTS_CREATE_OR_REPLACE'') = Some code"
    and "buildable self r"
  shows "\<exists>b. batch_item_for self r k = Inr b \<and> bw_key b = k \<and>
    content (bw_ops b) (pol_ttl (bw_policy b)) = stored self content r \<and>
    dict_get (bw_policy b) (L ''exists'') = Some code"
  using assms(3)
  by (auto simp: batch_item_for_def batch_policy_def write_policy_replace [OF assms(1,2)] buildable_def
      stored_def pol_ttl_def text_simps split: option.splits)

lemma sink_write_replace:
  assumes "sk_client self = Some c" "ac_record_exists_policy (sk_config self) = REPLACE"
    and "am_const (sk_module self) (L ''POLICY_EXISTS_CREATE_OR_REPLACE'') = Some code"
    and "replace_laws c code look content" "sendable self r" "buildable self r"
  shows "\<exists>w'. sink_write self w r = (Inr (), w') \<and> look w' = store (sink_key self r) (stored self content r) (look w)"
proof -
  let ?pol = "[(L ''ttl'', ttl_or_default r), (L ''exists'', code)]"
  have pol: "write_policy self r = Inr ?pol" "dict_get ?pol (L ''exists'') = Some code"
    "pol_ttl ?pol = Some (ttl_or_default r)"
    using write_policy_replace [OF assms(2,3)] by (simp_all add: pol_ttl_def text_simps)
  have fits: "too_large_reason self r = None" using assms(5) by (simp add: too_large_reason_iff)
  show ?thesis
  proof (cases "unique_bins r = []")
    case True
    let ?bins = "encode_bins_for_write (sk_module self) (ar_bins r)"
    have ops: "ops_for (sk_module self) r = Inr (map (\<lambda>(n, v). OpWrite n v) ?bins)"
      using True by (simp add: ops_for_def encode_bins_for_write_def case_prod_beta)
    obtain w' where "cl_put c w (sink_key self r) ?bins ?pol = (Inr (), w')"
      "look w' = store (sink_key self r) (content (map (\<lambda>(n, v). OpWrite n v) ?bins) (pol_ttl ?pol)) (look w)"
      using assms(4) pol(2) unfolding replace_laws_def by blast
    then show ?thesis using True ops by (simp add: sink_write_def assms(1) fits pol stored_def)
  next
    case False
    obtain ops where ops: "build_ops (sk_module self) r (unique_bins r) = Inr ops"
      using assms(6) False by (auto simp: buildable_def ops_for_def)
    obtain w' where "cl_operate c w (sink_key self r) ops ?pol = (Inr (), w')"
      "look w' = store (sink_key self r) (content ops (pol_ttl ?pol)) (look w)"
      using assms(4) pol(2) unfolding replace_laws_def by blast
    then show ?thesis using False ops by (simp add: sink_write_def assms(1) fits pol stored_def ops_for_def)
  qed
qed

lemma write_all_replace:
  assumes "sk_client self = Some c" "ac_record_exists_policy (sk_config self) = REPLACE"
    and "am_const (sk_module self) (L ''POLICY_EXISTS_CREATE_OR_REPLACE'') = Some code"
    and "replace_laws c code look content" "\<forall>r \<in> set rs. buildable self r"
  shows "look (write_all self w rs) =
    fold (\<lambda>r. store (sink_key self r) (stored self content r)) (filter (sendable self) rs) (look w)"
  using assms(5)
proof (induction rs arbitrary: w)
  case (Cons r rs)
  show ?case
  proof (cases "sendable self r")
    case True
    then obtain w' where "sink_write self w r = (Inr (), w')"
      "look w' = store (sink_key self r) (stored self content r) (look w)"
      using sink_write_replace [OF assms(1-4)] Cons.prems by fastforce
    then show ?thesis using Cons True by (simp add: write_all_def)
  next
    case False
    then have "sink_write self w r = (Inl RecordTooLargeError, w)"
      using too_large_reason_iff [of self r] by (simp add: sink_write_def assms(1))
    then show ?thesis using Cons False by (simp add: write_all_def)
  qed
qed (simp add: write_all_def)

lemma batch_writes_replace:
  assumes "ac_record_exists_policy (sk_config self) = REPLACE"
    and "am_const (sk_module self) (L ''POLICY_EXISTS_CREATE_OR_REPLACE'') = Some code"
    and "\<forall>(k, j) \<in> set ls. buildable self (rs ! j)"
  shows "\<exists>writes. batch_writes self rs ls = Inr writes \<and>
    list_all (\<lambda>b. dict_get (bw_policy b) (L ''exists'') = Some code) writes \<and>
    (\<forall>m. fold (\<lambda>b. store (bw_key b) (content (bw_ops b) (pol_ttl (bw_policy b)))) writes m =
       fold (\<lambda>(k, j). store k (stored self content (rs ! j))) ls m)"
  using assms(3)
proof (induction ls)
  case (Cons p ls)
  obtain k j where p: "p = (k, j)" by (cases p)
  obtain b where b: "batch_item_for self (rs ! j) k = Inr b" "bw_key b = k"
    "content (bw_ops b) (pol_ttl (bw_policy b)) = stored self content (rs ! j)"
    "dict_get (bw_policy b) (L ''exists'') = Some code"
    using batch_item_replace [OF assms(1,2), of "rs ! j" k content] Cons.prems p by auto
  have "\<forall>(k, j) \<in> set ls. buildable self (rs ! j)" using Cons.prems by simp
  from Cons.IH [OF this] obtain writes where writes: "batch_writes self rs ls = Inr writes"
    "list_all (\<lambda>b. dict_get (bw_policy b) (L ''exists'') = Some code) writes"
    "\<forall>m. fold (\<lambda>b. store (bw_key b) (content (bw_ops b) (pol_ttl (bw_policy b)))) writes m =
       fold (\<lambda>(k, j). store k (stored self content (rs ! j))) ls m"
    by blast
  have "batch_writes self rs (p # ls) = Inr (b # writes)"
    using b(1) writes(1) by (simp add: batch_writes_def p)
  moreover have "fold (\<lambda>b. store (bw_key b) (content (bw_ops b) (pol_ttl (bw_policy b)))) (b # writes) m =
       fold (\<lambda>(k, j). store k (stored self content (rs ! j))) (p # ls) m" for m
    unfolding fold_Cons comp_apply p prod.case b(2,3) using writes(3) by blast
  ultimately show ?case using b(4) writes(2) by (intro exI [of _ "b # writes"]) (simp only: list.pred_inject simp_thms)
qed (simp add: batch_writes_def)

lemma find_filter: "find P (filter Q xs) = find (\<lambda>x. Q x \<and> P x) xs"
  by (induction xs) auto

lemma fold_last_slots:
  "fold (\<lambda>(k, j). store k (g (rs ! j))) (last_slots self rs) m =
    fold (\<lambda>r. store (sink_key self r) (g r)) (filter (sendable self) rs) m"
proof
  fix k
  let ?L = "last_slots self rs" and ?P = "\<lambda>r. sendable self r \<and> sink_key self r = k"
  have split: "(\<lambda>(k, j). store k (g (rs ! j))) = (\<lambda>p. store (fst p) (g (rs ! snd p)))"
    by (simp add: fun_eq_iff case_prod_beta)
  have rhs: "fold (\<lambda>r. store (sink_key self r) (g r)) (filter (sendable self) rs) m k =
      (case find ?P (rev rs) of Some r \<Rightarrow> Some (g r) | None \<Rightarrow> m k)"
    by (simp add: fold_store rev_filter find_filter)
  show "fold (\<lambda>(k, j). store k (g (rs ! j))) ?L m k =
      fold (\<lambda>r. store (sink_key self r) (g r)) (filter (sendable self) rs) m k"
  proof (cases "find (\<lambda>p. fst p = k) (rev ?L)")
    case None
    then have "k \<notin> fst ` set ?L" unfolding find_None_iff set_rev by blast
    then have "find ?P (rev rs) = None"
      unfolding last_slots_key_set by (auto simp: find_None_iff)
    then show ?thesis unfolding rhs using None by (simp add: split fold_store)
  next
    case (Some p)
    then obtain j where p: "p = (k, j)" "(k, j) \<in> set ?L" using find_in_set [OF Some] by (cases p) auto
    then have "find ?P (rev rs) = Some (rs ! j)"
      using last_slots_get [OF p(2)]
      by (auto simp: find_rev_Some_iff intro!: exI [of _ j])
    then show ?thesis unfolding rhs using Some by (simp add: split fold_store p)
  qed
qed

lemma write_many_replace:
  assumes "sk_client self = Some c" "ac_record_exists_policy (sk_config self) = REPLACE"
    and "am_const (sk_module self) (L ''POLICY_EXISTS_CREATE_OR_REPLACE'') = Some code"
    and "replace_laws c code look content" "\<forall>r \<in> set rs. buildable self r"
  shows "\<exists>w'. write_many self w rs =
      (Inr (map (\<lambda>r. if sendable self r then None else Some (L ''RecordTooLargeError'')) rs), w') \<and>
    look w' = fold (\<lambda>r. store (sink_key self r) (stored self content r)) (filter (sendable self) rs) (look w)"
proof (cases "last_slots self rs = []")
  case True
  then have "\<forall>r \<in> set rs. \<not> sendable self r" using last_slots_Nil by blast
  then show ?thesis by (simp add: write_many_eq [OF assms(1)] True)
next
  case False
  let ?ls = "last_slots self rs"
  have "\<forall>(k, j) \<in> set ?ls. buildable self (rs ! j)" using last_slots_get assms(5) by fastforce
  from batch_writes_replace [OF assms(2,3) this, of content] obtain writes where
    w: "batch_writes self rs ?ls = Inr writes"
    and pol: "list_all (\<lambda>b. dict_get (bw_policy b) (L ''exists'') = Some code) writes"
    and f: "\<And>m. fold (\<lambda>b. store (bw_key b) (content (bw_ops b) (pol_ttl (bw_policy b)))) writes m =
       fold (\<lambda>(k, j). store k (stored self content (rs ! j))) ?ls m" by blast
  have "distinct (map bw_key writes)" using batch_writes_keys [OF w] last_slots_wf [of self rs] by (simp add: kwf_def)
  then obtain w' replies where r: "cl_batch_write c w writes = (Inr replies, w')"
    and rs0: "list_all (\<lambda>r. rp_result r = Some 0) replies"
    and look: "look w' = fold (\<lambda>b. store (bw_key b) (content (bw_ops b) (pol_ttl (bw_policy b)))) writes (look w)"
    using assms(4) pol unfolding replace_laws_def by blast
  let ?items = "map (\<lambda>(key, reply). (key, batch_reason self reply)) (zip (map fst ?ls) replies)"
  have vals: "snd ` set ?items \<subseteq> {None}"
    using rs0 by (auto simp: batch_reason_def list_all_iff dest!: set_zip_rightD)
  have none: "(case dict_get (kset_all (\<lambda>k. k) ?items []) k of Some out \<Rightarrow> out | None \<Rightarrow> None) = None" for k
  proof (cases "dict_get (kset_all (\<lambda>k. k) ?items []) k")
    case (Some v)
    then have "v \<in> snd ` set ?items" using kget_kset_all [OF Some] by simp
    then have "v = None" using subsetD [OF vals] by simp
    then show ?thesis using Some by simp
  qed simp
  have "write_many self w rs =
      (Inr (map (\<lambda>r. if sendable self r then None else Some (L ''RecordTooLargeError'')) rs), w')"
    unfolding write_many_eq [OF assms(1)] if_not_P [OF False] w r sum.case prod.case none by (rule refl)
  then show ?thesis using look by (simp add: f fold_last_slots)
qed

text \<open>
  C7 With the replacing policy, a batch leaves the server with exactly the records that writing its
  records one after the other would leave, although it sends every key once only. It reports
  success for every record, but for the oversized ones, which neither way writes. The client is
  assumed to create or replace as documented.
\<close>

theorem write_many_sequential:
  assumes "sk_client self = Some c" "ac_record_exists_policy (sk_config self) = REPLACE"
    and "am_const (sk_module self) (L ''POLICY_EXISTS_CREATE_OR_REPLACE'') = Some code"
    and "replace_laws c code look content" "\<forall>r \<in> set rs. buildable self r"
  shows "\<exists>w'. write_many self w rs =
      (Inr (map (\<lambda>r. if too_large_reason self r = None then None else Some (L ''RecordTooLargeError'')) rs), w') \<and>
    look w' = look (write_all self w rs)"
  using write_many_replace [OF assms] write_all_replace [OF assms] by (simp add: too_large_reason_iff)

section \<open>A reference server\<close>

text \<open>
  An in-memory server that follows the documented policies: it keeps for each key the operations
  that made the record and its TTL. Under the create policy an existing record is refused, under
  replace it is overwritten and under ignore its operations are extended.
\<close>

type_synonym ref_store = "AerospikeKeyTuple \<Rightarrow> (operation list \<times> int option) option"

definition ref_module :: aerospike_module where
  "ref_module =
     \<lparr>am_const = map_of
        [(L ''POLICY_EXISTS_IGNORE'', 0), (L ''POLICY_EXISTS_CREATE'', 1),
         (L ''POLICY_EXISTS_CREATE_OR_REPLACE'', 4), (L ''AEROSPIKE_ERR_RECORD_EXISTS'', 5),
         (L ''LIST_ORDERED'', 1), (L ''LIST_WRITE_ADD_UNIQUE'', 1), (L ''LIST_WRITE_NO_FAIL'', 4),
         (L ''LIST_WRITE_PARTIAL'', 8)],
      am_has_kod = True, am_exists_exn_code = Some 5\<rparr>"

definition ref_exists_exn :: client_exn where
  "ref_exists_exn = \<lparr>cx_name = L ''RecordExistsError'', cx_module = L ''aerospike.exception'', cx_code = Some 5\<rparr>"

definition ref_apply :: "ref_store \<Rightarrow> AerospikeKeyTuple \<Rightarrow> operation list \<Rightarrow> policy \<Rightarrow> int \<times> ref_store" where
  "ref_apply w key ops pol =
     (if dict_get pol (L ''exists'') = Some 1 \<and> w key \<noteq> None then (5, w)
      else if dict_get pol (L ''exists'') = Some 0 \<and> w key \<noteq> None
      then (0, store key (fst (the (w key)) @ ops, pol_ttl pol) w)
      else (0, store key (ops, pol_ttl pol) w))"

definition ref_single :: "ref_store \<Rightarrow> AerospikeKeyTuple \<Rightarrow> operation list \<Rightarrow> policy \<Rightarrow> unit res \<times> ref_store" where
  "ref_single w key ops pol =
     (case ref_apply w key ops pol of
        (code, w') \<Rightarrow> (if code = 0 then Inr () else Inl (ClientError ref_exists_exn), w'))"

fun ref_batch :: "ref_store \<Rightarrow> batch_item list \<Rightarrow> batch_reply list \<times> ref_store" where
  "ref_batch w [] = ([], w)"
| "ref_batch w (b # bs) =
     (let (code, w') = ref_apply w (bw_key b) (bw_ops b) (bw_policy b); (replies, w'') = ref_batch w' bs
      in (\<lparr>rp_result = Some code, rp_in_doubt = None\<rparr> # replies, w''))"

definition ref_client :: "ref_store aclient" where
  "ref_client =
     \<lparr>cl_put = (\<lambda>w key bins pol. ref_single w key (map (\<lambda>(n, v). OpWrite n v) bins) pol),
      cl_operate = ref_single,
      cl_batch_write = (\<lambda>w bs. case ref_batch w bs of (replies, w') \<Rightarrow> (Inr replies, w')),
      cl_info_all = (\<lambda>w cmd. (Inr (PS (SStr (L ''nsup-period=120''))), w)),
      cl_close = (\<lambda>w. (Inr (), w))\<rparr>"

lemma ref_batch_length: "ref_batch w bs = (replies, w') \<Longrightarrow> length replies = length bs"
  by (induction bs arbitrary: w replies) (auto simp: Let_def split: prod.splits)

lemma ref_batch_replace:
  "list_all (\<lambda>b. dict_get (bw_policy b) (L ''exists'') = Some 4) bs \<Longrightarrow>
   ref_batch w bs = (map (\<lambda>b. \<lparr>rp_result = Some 0, rp_in_doubt = None\<rparr>) bs,
     fold (\<lambda>b. store (bw_key b) (bw_ops b, pol_ttl (bw_policy b))) bs w)"
  by (induction bs arbitrary: w) (auto simp: ref_apply_def)

lemma ref_client_replace_laws: "replace_laws ref_client 4 (\<lambda>w. w) (\<lambda>ops ttl. (ops, ttl))"
  by (simp add: replace_laws_def ref_client_def ref_single_def ref_apply_def ref_batch_replace list_all_iff)

definition ref_sink :: "RecordExistsPolicy \<Rightarrow> ref_store AerospikeSink" where
  "ref_sink mode =
     \<lparr>sk_config = AerospikeConfig_default\<lparr>ac_record_exists_policy := mode\<rparr>,
      sk_client = Some ref_client, sk_module = ref_module\<rparr>"

definition ref_record :: "int \<Rightarrow> AerospikeRecord" where
  "ref_record v =
     \<lparr>ar_key = KStr [107], ar_bins = [([118], PS (SInt v))], ar_ttl_s = Some 60, ar_bin_policies = [],
      ar_set_name = None\<rparr>"

lemma ref_record_fits: "too_large_reason (ref_sink mode) (ref_record v) = None"
  by (simp add: too_large_reason_iff sendable_def record_size_def ref_record_def ref_sink_def
      AerospikeConfig_default_def utf8_encode_def enc1_def)

lemma ref_record_buildable: "buildable (ref_sink mode) (ref_record v)"
  by (simp add: buildable_def ops_for_def unique_bins_def ref_record_def policy_for_def)

theorem write_many_sequential_witness:
  "\<exists>w'. write_many (ref_sink REPLACE) (\<lambda>k. None) [ref_record 1, ref_record 2] = (Inr [None, None], w') \<and>
     w' = write_all (ref_sink REPLACE) (\<lambda>k. None) [ref_record 1, ref_record 2]"
  using write_many_sequential [of "ref_sink REPLACE" ref_client 4 "\<lambda>w. w" "\<lambda>ops ttl. (ops, ttl)"
      "[ref_record 1, ref_record 2]" "\<lambda>k. None"]
    ref_client_replace_laws ref_record_fits ref_record_buildable
  by (simp add: ref_sink_def ref_module_def AerospikeConfig_default_def text_simps)

lemma ref_batch_writes:
  assumes "\<forall>r \<in> set rs. buildable (ref_sink REPLACE) r"
  shows "\<exists>writes. batch_writes (ref_sink REPLACE) rs (last_slots (ref_sink REPLACE) rs) = Inr writes"
proof -
  have "\<forall>(k, j) \<in> set (last_slots (ref_sink REPLACE) rs). buildable (ref_sink REPLACE) (rs ! j)"
    using last_slots_get assms by fastforce
  from batch_writes_replace [OF _ _ this, of 4] show ?thesis
    by (simp add: ref_sink_def ref_module_def AerospikeConfig_default_def text_simps) blast
qed

theorem batch_last_wins_witness:
  "\<exists>writes. batch_writes (ref_sink REPLACE) [ref_record 1, ref_record 2]
      (snd (snd (plan_batch (ref_sink REPLACE) 0 [ref_record 1, ref_record 2] []))) = Inr writes \<and>
     distinct (map bw_key writes)"
proof -
  let ?rs = "[ref_record 1, ref_record 2]"
  have "\<forall>r \<in> set ?rs. buildable (ref_sink REPLACE) r" using ref_record_buildable by simp
  from ref_batch_writes [OF this] obtain writes where
    "batch_writes (ref_sink REPLACE) ?rs (snd (snd (plan_batch (ref_sink REPLACE) 0 ?rs []))) = Inr writes"
    by (auto simp: plan_batch_eq last_slots_def)
  then show ?thesis using batch_last_wins [OF refl] by blast
qed

theorem write_many_aligned_witness:
  "\<exists>out w'. write_many (ref_sink REPLACE) (\<lambda>k. None) [ref_record 1, ref_record 2] = (Inr out, w') \<and> length out = 2"
proof -
  let ?rs = "[ref_record 1, ref_record 2]"
  have c: "sk_client (ref_sink REPLACE) = Some ref_client" by (simp add: ref_sink_def)
  have "\<forall>r \<in> set ?rs. buildable (ref_sink REPLACE) r" using ref_record_buildable by simp
  from ref_batch_writes [OF this] obtain writes where
    ws: "batch_writes (ref_sink REPLACE) ?rs (last_slots (ref_sink REPLACE) ?rs) = Inr writes" by blast
  have "\<exists>replies w'. cl_batch_write ref_client w writes = (Inr replies, w')" for w
    by (cases "ref_batch w writes") (simp add: ref_client_def)
  then have "\<exists>out w'. write_many (ref_sink REPLACE) (\<lambda>k. None) ?rs = (Inr out, w')"
    unfolding write_many_eq [OF c] ws sum.case by (metis (no_types, lifting) old.sum.simps(6) prod.case)
  then obtain out w' where o: "write_many (ref_sink REPLACE) (\<lambda>k. None) ?rs = (Inr out, w')" by blast
  have "length reps = length ws" if "cl_batch_write ref_client v ws = (Inr reps, v')" for v ws reps v'
    using that ref_batch_length by (auto simp: ref_client_def split: prod.splits)
  from write_many_aligned [OF c o this] have "length out = 2" by simp
  then show ?thesis using o by blast
qed

text \<open>
  With the create-only policy the two ways of writing disagree when a batch has a key twice: one
  after the other, the first record is kept and the second one is refused; in a batch, the last
  record is the one that is created.
\<close>

lemma create_only_batch_differs:
  assumes "a \<noteq> b"
  shows "snd (write_many (ref_sink CREATE_ONLY) (\<lambda>k. None) [ref_record a, ref_record b]) \<noteq>
    write_all (ref_sink CREATE_ONLY) (\<lambda>k. None) [ref_record a, ref_record b]"
proof -
  let ?s = "ref_sink CREATE_ONLY" and ?k = "(L ''test'', L ''redis'', KStr [107])"
  have key: "sink_key ?s (ref_record v) = ?k" for v
    by (simp add: sink_key_def ref_sink_def ref_record_def opt_text_def AerospikeConfig_default_def Let_def)
  have pol: "write_policy ?s (ref_record v) = Inr [(L ''ttl'', 60), (L ''exists'', 1)]" for v
    by (simp add: write_policy_def am_attr_def ref_sink_def ref_module_def ref_record_def
        AerospikeConfig_default_def text_simps)
  have ubins: "unique_bins (ref_record v) = []" for v
    by (simp add: unique_bins_def ref_record_def policy_for_def)
  have s: "sk_client ?s = Some ref_client" "sk_module ?s = ref_module" "ac_send_key (sk_config ?s) = False"
    by (simp_all add: ref_sink_def AerospikeConfig_default_def)
  have "write_all ?s (\<lambda>k. None) [ref_record a, ref_record b] ?k = Some ([OpWrite [118] (PS (SInt a))], Some 60)"
    by (simp add: write_all_def sink_write_def s ref_record_fits ubins pol key ref_client_def ref_single_def
        ref_apply_def encode_bins_for_write_def store_def pol_ttl_def text_simps)
      (simp add: ref_record_def)
  moreover have "snd (write_many ?s (\<lambda>k. None) [ref_record a, ref_record b]) ?k =
      Some ([OpWrite [118] (PS (SInt b))], Some 60)"
  proof -
    let ?item = "\<lparr>bw_key = ?k, bw_ops = [OpWrite [118] (PS (SInt b))], bw_policy = [(L ''ttl'', 60), (L ''exists'', 1)]\<rparr>"
    have "plan_batch ?s 0 [ref_record a, ref_record b] [] = ([None, None], [Some ?k, Some ?k], [(?k, 1)])"
      by (simp add: ref_record_fits key Let_def)
    moreover have "ops_for ref_module (ref_record b) = Inr [OpWrite [118] (PS (SInt b))]"
      using ubins by (simp add: ops_for_def) (simp add: ref_record_def)
    then have "batch_writes ?s [ref_record a, ref_record b] [(?k, 1)] = Inr [?item]"
      by (simp add: batch_writes_def batch_item_for_def batch_policy_def pol s)
    moreover have "cl_batch_write ref_client (\<lambda>k. None) [?item] =
        (Inr [\<lparr>rp_result = Some 0, rp_in_doubt = None\<rparr>], store ?k ([OpWrite [118] (PS (SInt b))], Some 60) (\<lambda>k. None))"
      by (simp add: ref_client_def ref_apply_def pol_ttl_def text_simps)
    ultimately show ?thesis by (simp add: write_many_def s(1) store_def Let_def)
  qed
  ultimately show ?thesis using assms by auto
qed

end
