(* ===== verification/Migrator_Facts.thy ===== *)
theory Migrator_Facts
  imports Migrator Registry_Facts Sink_Facts
begin

text \<open>
  The pipeline: every scanned record is counted exactly once, the queue and the buffers are bounded,
  a run cannot get stuck and always ends as long as no transform raises, and what happens when one
  does. The contract between the migrator and its sink is a locale, interpreted on the sink of the
  program.
\<close>

section \<open>Counting\<close>

definition counted :: "MigrationStats \<Rightarrow> int" where
  "counted s = st_migrated s + st_skipped s + st_errors s"

lemma counted_ops [simp]:
  "counted (record_skipped r s) = counted s + 1" "counted (record_error r s) = counted s + 1"
  "counted (record_migrated n s) = counted s + n" "counted (record_scanned n s) = counted s"
  "counted (stats_finish t s) = counted s" "counted (stats_start t s) = counted s"
  by (simp_all add: counted_def stat_ops stats_finish_def stats_start_def)

lemma scanned_ops [simp]:
  "st_scanned (record_skipped r s) = st_scanned s" "st_scanned (record_error r s) = st_scanned s"
  "st_scanned (record_migrated n s) = st_scanned s" "st_scanned (record_scanned n s) = st_scanned s + n"
  "st_scanned (stats_finish t s) = st_scanned s" "st_scanned (stats_start t s) = st_scanned s"
  by (simp_all add: stat_ops stats_finish_def stats_start_def)

lemma prepare_counts:
  assumes "prepare mg reg st r = (out, reg', st')"
  shows "st_scanned st' = st_scanned st \<and> counted st' = counted st + (if out = Inr None then 1 else 0)"
  using assms
  by (auto simp: prepare_def Let_def rmap_eq_Inr split: prod.splits sum.splits if_splits)

lemma write_one_counts:
  assumes "write_one fl now mg tb st w ar = (tb', st', w')"
  shows "st_scanned st' = st_scanned st \<and> counted st' = counted st + 1"
  using assms by (auto simp: write_one_def Let_def split: prod.splits sum.splits if_splits)

lemma count_outcome_counts:
  "st_scanned (count_outcome mg out st) = st_scanned st \<and> counted (count_outcome mg out st) = counted st + 1"
  by (simp add: count_outcome_def split: option.splits)

lemma fold_counts:
  assumes "\<And>x st. x \<in> set xs \<Longrightarrow> st_scanned (f x st) = st_scanned st \<and> counted (f x st) = counted st + 1"
  shows "st_scanned (fold f xs st) = st_scanned st \<and> counted (fold f xs st) = counted st + int (length xs)"
  using assms by (induction xs arbitrary: st) auto

section \<open>The contract of the sink\<close>

text \<open>What the migrator needs of a sink: a batch reports one outcome per record.\<close>

locale sink_contract =
  fixes snk :: "'c sink_ops"
  assumes aligned: "sn_write_many snk w rs = (Inr out, w') \<Longrightarrow> length out = length rs"
begin

lemma flush_counts:
  assumes "mg_sink mg = snk" "flush fl now mg tb st w buf = (tb', st', w')"
  shows "st_scanned st' = st_scanned st \<and> counted st' = counted st + int (length buf)"
proof (cases "sn_write_many snk w (map fst buf)")
  case (Pair r v)
  show ?thesis
  proof (cases r)
    case (Inl e)
    then have "st' = fold (\<lambda>p. record_error (L ''write:'' @ exn_name e)) buf st"
      using assms Pair by (simp add: flush_def Let_def)
    then show ?thesis using fold_counts [of buf "\<lambda>p. record_error (L ''write:'' @ exn_name e)"] by simp
  next
    case (Inr results)
    then have st': "st' = fold (\<lambda>(p, outcome). count_outcome mg outcome) (zip buf results) st"
      using assms Pair by (simp add: flush_def Let_def)
    have "length (zip buf results) = length buf" using aligned [of w "map fst buf"] Pair Inr by simp
    moreover have "st_scanned st' = st_scanned st \<and> counted st' = counted st + int (length (zip buf results))"
      unfolding st' by (rule fold_counts) (simp add: case_prod_beta count_outcome_counts)
    ultimately show ?thesis by simp
  qed
qed

end

text \<open>The sink of the program keeps the contract, whatever its client replies.\<close>

lemma write_many_length:
  assumes "write_many self w rs = (Inr out, w')"
  shows "length out = length rs"
proof (cases "sk_client self")
  case None
  then show ?thesis using assms by (simp add: write_many_def)
next
  case (Some c)
  then show ?thesis using assms by (auto simp: write_many_eq [OF Some] split: if_splits sum.splits prod.splits)
qed

interpretation asink: sink_contract "aerospike_sink_ops self" for self :: "'c AerospikeSink"
  by unfold_locales (auto simp: aerospike_sink_ops_def dest: write_many_length)

section \<open>The balance of records\<close>

fun buffered :: "buffer option \<Rightarrow> nat" where
  "buffered None = 0"
| "buffered (Some b) = length b"

text \<open>The records a worker holds.\<close>

fun in_flight :: "worker \<Rightarrow> nat" where
  "in_flight (WIdle b) = buffered b"
| "in_flight (WGot r b) = buffered b + 1"
| "in_flight (WWrite ar k) = 1"
| "in_flight (WFlush b af) = length b"
| "in_flight WDone = 0"
| "in_flight WCrashed = 0"

text \<open>A worker that an exception has ended, or is ending, has lost the record it was preparing.\<close>

fun lost :: "worker \<Rightarrow> nat" where
  "lost WCrashed = 1"
| "lost (WFlush b EndCrashed) = 1"
| "lost w = 0"

definition load :: "worker \<Rightarrow> nat" where
  "load w = in_flight w + lost w"

fun held :: "producer \<Rightarrow> nat" where
  "held (Holding r) = 1"
| "held p = 0"

definition queued :: "item list \<Rightarrow> nat" where
  "queued q = length (filter (\<lambda>x. x \<noteq> STOP) q)"

definition balanced :: "'c run_state \<Rightarrow> bool" where
  "balanced s \<longleftrightarrow>
     st_scanned (rn_stats s) =
       int (held (rn_producer s) + queued (rn_queue s) + sum_list (map load (rn_workers s))) + counted (rn_stats s)"

lemma queued_simps [simp]: "queued [] = 0" "queued (q @ [Rec r]) = queued q + 1" "queued (q @ [STOP]) = queued q"
  "queued (Rec r # q) = queued q + 1" "queued (STOP # q) = queued q"
  by (simp_all add: queued_def)

lemma load_finish [simp]: "load (finish_worker buf c) = buffered buf + (if c then 1 else 0)"
  by (cases buf rule: buffered.cases) (auto simp: finish_worker_def load_def split: list.splits)

lemma load_take [simp]: "load (take_item it buf) = buffered buf + (if it = STOP then 0 else 1)"
  by (cases it) (simp_all add: take_item_def load_def [of "WGot _ _"])

lemma load_after_prepare:
  "load (after_prepare mg r buf out) = buffered buf + (if out = Inr None then 0 else 1)"
  by (auto simp: after_prepare_def Let_def load_def [of "WIdle _"] load_def [of "WWrite _ _"]
      load_def [of "WFlush _ Continue"] split: sum.splits option.splits)

lemma load_after_flush: "load (WFlush b af) = length b + load (after_flush_worker af)"
  by (cases af) (simp_all add: load_def)

lemma load_states: "load (WIdle buf) = buffered buf" "load (WGot r buf) = buffered buf + 1" "load (WWrite ar k) = 1"
  by (simp_all add: load_def)

lemma start_workers_load: "sum_list (map load (start_workers mg)) = 0"
  by (simp add: start_workers_def load_states sum_list_replicate)

lemma run_init_balanced: "balanced (run_init mg reg now rs e w)"
  by (simp add: balanced_def run_init_def start_workers_load)
    (simp add: MigrationStats_init_def stats_start_def counted_def)

locale migration = sink_contract +
  fixes mg :: "'a Migrator" and fl :: "rat \<Rightarrow> rat"
  assumes sink_is: "mg_sink mg = snk"
begin

lemma step_balanced:
  assumes "step mg fl s s'" "balanced s"
  shows "balanced s'"
  using assms
proof (induction rule: step.induct)
  case (get i s buf it q)
  then show ?case
    using sum_list_map_update [of i "rn_workers s" load "take_item it buf"]
    by (cases it) (simp_all add: balanced_def load_states)
next
  case (convert i s r buf out registry' stats')
  then show ?case
    using sum_list_map_update [of i "rn_workers s" load "after_prepare mg r buf out"] prepare_counts [OF convert(3)]
    by (auto simp: balanced_def load_states load_after_prepare split: if_splits)
next
  case (write_single i s ar key now limiter' stats' w')
  then show ?case
    using sum_list_map_update [of i "rn_workers s" load "WIdle None"] write_one_counts [OF write_single(3)]
    by (simp add: balanced_def load_states)
next
  case (flush_batch i s buf af now limiter' stats' w')
  then show ?case
    using sum_list_map_update [of i "rn_workers s" load "after_flush_worker af"]
      flush_counts [OF sink_is flush_batch(3)]
    by (simp add: balanced_def load_after_flush)
qed (auto simp: balanced_def)

end

section \<open>Buffers and the queue\<close>

text \<open>Without batching there is no buffer; with batching a buffer is flushed as soon as it is full.\<close>

fun worker_wf :: "int \<Rightarrow> worker \<Rightarrow> bool" where
  "worker_wf n (WIdle None) = (n = 1)"
| "worker_wf n (WIdle (Some b)) = (1 < n \<and> int (length b) < n)"
| "worker_wf n (WGot r None) = (n = 1)"
| "worker_wf n (WGot r (Some b)) = (1 < n \<and> int (length b) < n)"
| "worker_wf n (WWrite ar k) = (n = 1)"
| "worker_wf n (WFlush b af) = (1 < n \<and> b \<noteq> [] \<and> int (length b) \<le> n)"
| "worker_wf n WDone = True"
| "worker_wf n WCrashed = True"

definition queue_bounded :: "'c Migrator \<Rightarrow> item list \<Rightarrow> bool" where
  "queue_bounded mg q \<longleftrightarrow> 0 < mc_queue_size (mg_config mg) \<longrightarrow> int (length q) \<le> mc_queue_size (mg_config mg)"

definition bounded :: "'c Migrator \<Rightarrow> 'c run_state \<Rightarrow> bool" where
  "bounded mg s \<longleftrightarrow> queue_bounded mg (rn_queue s) \<and> list_all (worker_wf (mg_batch_size mg)) (rn_workers s) \<and>
     length (rn_workers s) = nat (max 1 (mc_workers (mg_config mg)))"

lemma list_all_update: "list_all P xs \<Longrightarrow> P y \<Longrightarrow> list_all P (xs[i := y])"
  using set_update_subset_insert [of xs i y] by (auto simp: list_all_iff)

lemma batch_size_pos: "1 \<le> mg_batch_size mg"
  by (simp add: mg_batch_size_def)

lemma take_item_wf: "worker_wf n (WIdle buf) \<Longrightarrow> worker_wf n (take_item it buf)"
  by (cases buf; cases it) (auto simp: take_item_def finish_worker_def split: list.splits)

lemma after_prepare_wf:
  "worker_wf (mg_batch_size mg) (WGot r buf) \<Longrightarrow> worker_wf (mg_batch_size mg) (after_prepare mg r buf out)"
  by (cases buf) (auto simp: after_prepare_def finish_worker_def Let_def split: sum.splits option.splits list.splits)

lemma after_flush_wf: "worker_wf n (WFlush b af) \<Longrightarrow> worker_wf n (after_flush_worker af)"
  by (cases af) auto

lemma run_init_bounded: "bounded mg (run_init mg reg now rs e w)"
  using batch_size_pos [of mg]
  by (auto simp: bounded_def run_init_def queue_bounded_def start_workers_def list_all_iff)

lemma step_bounded:
  assumes "step mg fl s s'" "bounded mg s"
  shows "bounded mg s'"
  using assms
proof (induction rule: step.induct)
  case (get i s buf it q)
  then have "worker_wf (mg_batch_size mg) (WIdle buf)" by (auto simp: bounded_def list_all_length)
  then show ?case using get by (auto simp: bounded_def queue_bounded_def intro!: list_all_update take_item_wf)
next
  case (convert i s r buf out registry' stats')
  then have "worker_wf (mg_batch_size mg) (WGot r buf)" by (auto simp: bounded_def list_all_length)
  then show ?case using convert by (auto simp: bounded_def intro!: list_all_update after_prepare_wf)
next
  case (write_single i s ar key now limiter' stats' w')
  then have "worker_wf (mg_batch_size mg) (WWrite ar key)" by (auto simp: bounded_def list_all_length)
  then show ?case using write_single by (auto simp: bounded_def intro!: list_all_update)
next
  case (flush_batch i s buf af now limiter' stats' w')
  then have "worker_wf (mg_batch_size mg) (WFlush buf af)" by (auto simp: bounded_def list_all_length)
  then show ?case using flush_batch by (auto simp: bounded_def intro!: list_all_update after_flush_wf)
qed (auto simp: bounded_def queue_bounded_def queue_has_room_def)

section \<open>Sentinels\<close>

text \<open>A worker that has taken its sentinel.\<close>

fun stopped :: "worker \<Rightarrow> nat" where
  "stopped WDone = 1"
| "stopped (WFlush b EndDone) = 1"
| "stopped w = 0"

fun sent :: "nat \<Rightarrow> producer \<Rightarrow> nat" where
  "sent n (Stopping k) = n - k"
| "sent n Finished = n"
| "sent n p = 0"

text \<open>
  The queue holds records and then sentinels; those in it and those taken are the ones sent, which
  are at most one per worker; no sentinel is taken before the records; when the run is finished
  every worker has ended.
\<close>

definition sentinels_ok :: "'c run_state \<Rightarrow> bool" where
  "sentinels_ok s \<longleftrightarrow>
     (\<exists>rs m. rn_queue s = map Rec rs @ replicate m STOP \<and>
        m + sum_list (map stopped (rn_workers s)) = sent (length (rn_workers s)) (rn_producer s) \<and>
        (rs = [] \<or> sum_list (map stopped (rn_workers s)) = 0)) \<and>
     (\<forall>k. rn_producer s = Stopping k \<longrightarrow> k \<le> length (rn_workers s)) \<and>
     (rn_producer s = Finished \<longrightarrow> list_all worker_ended (rn_workers s)) \<and>
     (rn_producer s \<in> {Finished} \<union> range Stopping \<longrightarrow> rn_source s = [])"

lemma stopped_finish [simp]: "stopped (finish_worker buf c) = (if c then 0 else 1)"
  by (cases buf rule: buffered.cases) (auto simp: finish_worker_def split: list.splits)

lemma stopped_take [simp]: "stopped (take_item it buf) = (if it = STOP then 1 else 0)"
  by (cases it) (simp_all add: take_item_def)

lemma stopped_after_prepare [simp]: "stopped (after_prepare mg r buf out) = 0"
  by (auto simp: after_prepare_def Let_def split: sum.splits option.splits)

lemma stopped_after_flush: "stopped (WFlush b af) = stopped (after_flush_worker af)"
  by (cases af) auto

lemma run_init_sentinels: "sentinels_ok (run_init mg reg now rs e w)"
  by (auto simp: sentinels_ok_def run_init_def start_workers_def sum_list_replicate intro!: exI [of _ "[]"] exI [of _ 0])

lemma active_not_finished:
  "sentinels_ok s \<Longrightarrow> i < length (rn_workers s) \<Longrightarrow> \<not> worker_ended (rn_workers s ! i) \<Longrightarrow> rn_producer s \<noteq> Finished"
  by (auto simp: sentinels_ok_def list_all_length)

text \<open>A step of a worker that neither takes an item nor its sentinel keeps the bookkeeping.\<close>

lemma sentinels_worker_step:
  assumes "sentinels_ok s" "i < length (rn_workers s)" "\<not> worker_ended (rn_workers s ! i)"
    and "stopped x = stopped (rn_workers s ! i)"
    and "rn_queue s' = rn_queue s" "rn_producer s' = rn_producer s" "rn_workers s' = (rn_workers s)[i := x]"
    "rn_source s' = rn_source s"
  shows "sentinels_ok s'"
proof -
  have "sum_list (map stopped (rn_workers s')) = sum_list (map stopped (rn_workers s))"
    using sum_list_map_update [OF assms(2), of stopped x] assms(4,7) by simp
  then show ?thesis using assms(1) active_not_finished [OF assms(1-3)] assms(5-8)
    by (auto simp: sentinels_ok_def)
qed

lemma sentinels_get:
  assumes "sentinels_ok s" "i < length (rn_workers s)" "rn_workers s ! i = WIdle buf" "rn_queue s = it # q"
  shows "sentinels_ok (s\<lparr>rn_queue := q, rn_workers := (rn_workers s)[i := take_item it buf]\<rparr>)"
proof -
  obtain rs m where q: "rn_queue s = map Rec rs @ replicate m STOP"
    and m: "m + sum_list (map stopped (rn_workers s)) = sent (length (rn_workers s)) (rn_producer s)"
      "rs = [] \<or> sum_list (map stopped (rn_workers s)) = 0"
    using assms(1) by (auto simp: sentinels_ok_def)
  have u: "sum_list (map stopped ((rn_workers s)[i := take_item it buf])) =
      sum_list (map stopped (rn_workers s)) + (if it = STOP then 1 else 0)"
    using sum_list_map_update [OF assms(2), of stopped "take_item it buf"] assms(3) by simp
  have "\<exists>rs' m'. q = map Rec rs' @ replicate m' STOP \<and>
      m' + sum_list (map stopped ((rn_workers s)[i := take_item it buf])) = sent (length (rn_workers s)) (rn_producer s) \<and>
      (rs' = [] \<or> sum_list (map stopped ((rn_workers s)[i := take_item it buf])) = 0)"
  proof (cases rs)
    case Nil
    then obtain m0 where m0: "m = Suc m0" using q assms(4) by (cases m) auto
    then have "it = STOP" "q = replicate m0 STOP" using q Nil assms(4) by auto
    then show ?thesis using m m0 u by (intro exI [of _ "[]"] exI [of _ m0]) simp
  next
    case (Cons r rs')
    then have "it = Rec r" "q = map Rec rs' @ replicate m STOP" using q assms(4) by auto
    then show ?thesis using m u Cons by (intro exI [of _ rs'] exI [of _ m]) simp
  qed
  moreover have "rn_producer s \<noteq> Finished" using active_not_finished [OF assms(1,2)] assms(3) by simp
  ultimately show ?thesis using assms(1) by (auto simp: sentinels_ok_def)
qed

lemma finished_stuck:
  assumes "sentinels_ok s" "rn_producer s = Finished"
  shows "\<nexists>s'. step mg fl s s'"
proof -
  have "worker_ended (rn_workers s ! i)" if "i < length (rn_workers s)" for i
    using assms that by (auto simp: sentinels_ok_def list_all_length)
  then show ?thesis using assms(2) by (fastforce elim!: stepE)
qed

lemma sentinels_no_stop: "sentinels_ok s \<Longrightarrow> sent (length (rn_workers s)) (rn_producer s) = 0 \<Longrightarrow>
    (\<exists>rs. rn_queue s = map Rec rs) \<and> sum_list (map stopped (rn_workers s)) = 0"
  by (auto simp: sentinels_ok_def)

lemma step_sentinels:
  assumes "step mg fl s s'" "sentinels_ok s"
  shows "sentinels_ok s'"
  using assms
proof (induction rule: step.induct)
  case (put s r)
  then obtain rs where "rn_queue s = map Rec rs" "sum_list (map stopped (rn_workers s)) = 0"
    using sentinels_no_stop [of s] by auto
  then show ?case by (auto simp: sentinels_ok_def intro!: exI [of _ "rs @ [r]"] exI [of _ 0])
next
  case (put_stop s k)
  then obtain rs m where q: "rn_queue s = map Rec rs @ replicate m STOP"
    "m + sum_list (map stopped (rn_workers s)) = length (rn_workers s) - Suc k" "Suc k \<le> length (rn_workers s)"
    "rs = [] \<or> sum_list (map stopped (rn_workers s)) = 0"
    by (auto simp: sentinels_ok_def)
  then have "rn_queue s @ [STOP] = map Rec rs @ replicate (Suc m) STOP" by (simp add: replicate_append_same)
  then show ?case using put_stop q by (auto simp: sentinels_ok_def intro!: exI [of _ rs] exI [of _ "Suc m"])
next
  case (get i s buf it q)
  then show ?case by (intro sentinels_get)
next
  case (convert i s r buf out registry' stats')
  then show ?case by (elim sentinels_worker_step [where i = i and x = "after_prepare mg r buf out"]) auto
next
  case (write_single i s ar key now limiter' stats' w')
  then show ?case by (elim sentinels_worker_step [where i = i and x = "WIdle None"]) auto
next
  case (flush_batch i s buf af now limiter' stats' w')
  then show ?case
    by (elim sentinels_worker_step [where i = i and x = "after_flush_worker af"]) (auto simp: stopped_after_flush)
qed (auto simp: sentinels_ok_def)

section \<open>Termination\<close>

fun worker_weight :: "worker \<Rightarrow> nat" where
  "worker_weight (WIdle b) = 2 * buffered b"
| "worker_weight (WGot r b) = 2 * buffered b + 5"
| "worker_weight (WWrite ar k) = 3"
| "worker_weight (WFlush b af) = 2 * length b + 1"
| "worker_weight w = 0"

fun item_weight :: "item \<Rightarrow> nat" where
  "item_weight (Rec r) = 6"
| "item_weight STOP = 2"

fun producer_weight :: "nat \<Rightarrow> producer \<Rightarrow> nat" where
  "producer_weight n Producing = 3 * n + 2"
| "producer_weight n (Holding r) = 3 * n + 9"
| "producer_weight n (Stopping k) = 3 * k + 1"
| "producer_weight n Finished = 0"

text \<open>The steps a run can still make, at most.\<close>

definition remaining :: "'c run_state \<Rightarrow> nat" where
  "remaining s = 8 * length (rn_source s) + producer_weight (length (rn_workers s)) (rn_producer s) +
     sum_list (map item_weight (rn_queue s)) + sum_list (map worker_weight (rn_workers s))"

lemma weight_finish: "worker_weight (finish_worker buf c) \<le> 2 * buffered buf + 1"
  "worker_weight (finish_worker buf c) < 2 * buffered buf + 2"
  by (cases buf rule: buffered.cases; auto simp: finish_worker_def split: list.splits)+

lemma weight_take: "worker_weight (take_item it buf) < item_weight it + worker_weight (WIdle buf)"
  using weight_finish(2) [of buf False] by (cases it) (auto simp: take_item_def)

lemma weight_after_prepare: "worker_weight (after_prepare mg r buf out) < worker_weight (WGot r buf)"
  using weight_finish(2) [of buf True]
  by (cases buf) (auto simp: after_prepare_def Let_def split: sum.splits option.splits)

lemma weight_after_flush: "worker_weight (after_flush_worker af) < worker_weight (WFlush b af)"
  by (cases af) auto

lemma worker_step_remaining:
  assumes "i < length (rn_workers s)" "worker_weight x < worker_weight (rn_workers s ! i)"
    "rn_queue s' = rn_queue s" "rn_producer s' = rn_producer s" "rn_workers s' = (rn_workers s)[i := x]"
    "rn_source s' = rn_source s"
  shows "remaining s' < remaining s"
  using sum_list_map_update [OF assms(1), of worker_weight x] assms by (simp add: remaining_def)

lemma step_remaining: "step mg fl s s' \<Longrightarrow> remaining s' < remaining s"
proof (induction rule: step.induct)
  case (get i s buf it q)
  then show ?case
    using sum_list_map_update [of i "rn_workers s" worker_weight "take_item it buf"] weight_take [of it buf]
    by (simp add: remaining_def)
next
  case (convert i s r buf out registry' stats')
  then show ?case
    using weight_after_prepare [of mg r buf out]
    by (elim worker_step_remaining [where x = "after_prepare mg r buf out"]) auto
next
  case (write_single i s ar key now limiter' stats' w')
  then show ?case by (elim worker_step_remaining [where x = "WIdle None"]) auto
next
  case (flush_batch i s buf af now limiter' stats' w')
  then show ?case
    using weight_after_flush [of af buf]
    by (elim worker_step_remaining [where x = "after_flush_worker af"]) auto
qed (auto simp: remaining_def)

lemma remaining_init:
  "remaining (run_init mg reg now rs e w) = 8 * length rs + 3 * nat (max 1 (mc_workers (mg_config mg))) + 2"
  by (simp add: remaining_def run_init_def start_workers_def sum_list_replicate)

lemma steps_remaining: "(step mg fl ^^ n) s s' \<Longrightarrow> n + remaining s' \<le> remaining s"
proof (induction n arbitrary: s')
  case (Suc n)
  then obtain t where t: "(step mg fl ^^ n) s t" "step mg fl t s'" by auto
  then show ?case using Suc.IH [OF t(1)] step_remaining [OF t(2)] by simp
qed simp

section \<open>Scanned records\<close>

definition scanned_ok :: "nat \<Rightarrow> 'c run_state \<Rightarrow> bool" where
  "scanned_ok n s \<longleftrightarrow> st_scanned (rn_stats s) + int (length (rn_source s)) = int n"

lemma reachable_source_exn: "reachable mg fl s s' \<Longrightarrow> rn_source_exn s' = rn_source_exn s"
  unfolding reachable_def by (induction rule: rtranclp_induct) (auto elim!: stepE)

context migration
begin

lemma step_scanned:
  assumes "step mg fl s s'" "scanned_ok n s"
  shows "scanned_ok n s'"
  using assms
proof (induction rule: step.induct)
  case (convert i s r buf out registry' stats')
  then show ?case using prepare_counts [OF convert(3)] by (simp add: scanned_ok_def)
next
  case (write_single i s ar key now limiter' stats' w')
  then show ?case using write_one_counts [OF write_single(3)] by (simp add: scanned_ok_def)
next
  case (flush_batch i s buf af now limiter' stats' w')
  then show ?case using flush_counts [OF sink_is flush_batch(3)] by (simp add: scanned_ok_def)
qed (auto simp: scanned_ok_def)

text \<open>The invariant of a run.\<close>

lemma reachable_inv:
  assumes "reachable mg fl (run_init mg reg now rs e w) s"
  shows "balanced s \<and> bounded mg s \<and> sentinels_ok s \<and> scanned_ok (length rs) s"
  using assms unfolding reachable_def
proof (induction rule: rtranclp_induct)
  case base
  have "scanned_ok (length rs) (run_init mg reg now rs e w)"
    by (simp add: scanned_ok_def run_init_def stats_start_def MigrationStats_init_def)
  then show ?case by (simp add: run_init_balanced run_init_bounded run_init_sentinels)
next
  case (step s s')
  then show ?case using step_balanced step_bounded step_sentinels step_scanned by blast
qed

end

section \<open>Runs without escaping exceptions\<close>

definition crash_free :: "'c run_state \<Rightarrow> bool" where
  "crash_free s \<longleftrightarrow> list_all (\<lambda>w. lost w = 0) (rn_workers s)"

lemma lost_finish [simp]: "lost (finish_worker buf c) = (if c then 1 else 0)"
  by (cases buf rule: buffered.cases) (auto simp: finish_worker_def split: list.splits)

lemma lost_take [simp]: "lost (take_item it buf) = 0"
  by (cases it) (simp_all add: take_item_def)

lemma lost_after_prepare [simp]: "lost (after_prepare mg r buf (Inr out)) = 0"
  by (auto simp: after_prepare_def Let_def split: option.splits)

lemma lost_after_flush: "lost (WFlush b af) = lost (after_flush_worker af)"
  by (cases af) auto

lemma prepare_raises:
  assumes "prepare mg reg st r = (Inl e, reg', st')"
  shows "\<exists>ar. apply_all ar (mg_transforms mg) = Inl e"
  using assms by (auto simp: prepare_def Let_def rmap_eq_Inl split: prod.splits sum.splits if_splits)

text \<open>A step is possible as long as there is something left to do.\<close>

lemma active_worker_step:
  assumes "i < length (rn_workers s)" "\<not> worker_ended (rn_workers s ! i)" "\<And>b. rn_workers s ! i \<noteq> WIdle b"
  shows "\<exists>s'. step mg fl s s'"
proof (cases "rn_workers s ! i")
  case (WGot r b)
  then show ?thesis using step.convert [OF assms(1) WGot] by (metis prod_cases3)
next
  case (WWrite ar k)
  then show ?thesis using step.write_single [OF assms(1) WWrite] by (metis prod_cases3)
next
  case (WFlush b af)
  then show ?thesis using step.flush_batch [OF assms(1) WFlush] by (metis prod_cases3)
qed (use assms in auto)

lemma sum_stopped_ended:
  assumes "list_all (\<lambda>w. lost w = 0) ws" "list_all (\<lambda>w. worker_ended w \<or> (\<exists>b. w = WIdle b)) ws"
  shows "sum_list (map stopped ws) + length (filter (\<lambda>w. \<not> worker_ended w) ws) = length ws"
proof -
  have "stopped w = (if worker_ended w then 1 else 0)"
    if "lost w = 0" "worker_ended w \<or> (\<exists>b. w = WIdle b)" for w
    using that by (cases w) auto
  then show ?thesis using assms by (induction ws) auto
qed

lemma progress:
  assumes "bounded mg s" "sentinels_ok s" "crash_free s" "rn_producer s \<noteq> Finished"
  shows "\<exists>s'. step mg fl s s'"
proof (cases "\<exists>i < length (rn_workers s). \<not> worker_ended (rn_workers s ! i) \<and> (\<forall>b. rn_workers s ! i \<noteq> WIdle b)")
  case True
  then show ?thesis using active_worker_step by blast
next
  case False
  let ?ws = "rn_workers s" and ?idle = "\<exists>i < length (rn_workers s). \<exists>b. rn_workers s ! i = WIdle b"
  have quiet: "list_all (\<lambda>w. worker_ended w \<or> (\<exists>b. w = WIdle b)) ?ws"
    using False by (auto simp: list_all_length)
  have sum: "sum_list (map stopped ?ws) + length (filter (\<lambda>w. \<not> worker_ended w) ?ws) = length ?ws"
    using sum_stopped_ended [OF _ quiet] assms(3) by (simp add: crash_free_def)
  have idle: ?idle if "sum_list (map stopped ?ws) < length ?ws"
  proof -
    have "filter (\<lambda>w. \<not> worker_ended w) ?ws \<noteq> []" using sum that by auto
    then obtain w where "w \<in> set ?ws" "\<not> worker_ended w" by (auto simp: filter_empty_conv)
    moreover from this have "\<exists>b. w = WIdle b" using quiet by (auto simp: list_all_iff)
    ultimately show ?thesis by (auto simp: in_set_conv_nth)
  qed
  obtain rs m where q: "rn_queue s = map Rec rs @ replicate m STOP"
    and m: "m + sum_list (map stopped ?ws) = sent (length ?ws) (rn_producer s)"
    using assms(2) by (auto simp: sentinels_ok_def)
  have ne: "?ws \<noteq> []" using assms(1) by (auto simp: bounded_def)
  have get: "\<exists>s'. step mg fl s s'" if "rn_queue s \<noteq> []" ?idle
    using that step.get by (metis neq_Nil_conv)
  have full: "rn_queue s \<noteq> []" if "\<not> queue_has_room mg (rn_queue s)"
    using that by (auto simp: queue_has_room_def)
  show ?thesis
  proof (cases "rn_producer s")
    case Producing
    then show ?thesis using step.scan step.source_end by (metis neq_Nil_conv)
  next
    case (Holding r)
    show ?thesis
    proof (cases "queue_has_room mg (rn_queue s)")
      case True
      then show ?thesis using step.put [OF Holding] by blast
    next
      case False
      have "sum_list (map stopped ?ws) = 0" using m unfolding Holding by (simp del: sum_list_eq_0_iff)
      then have "sum_list (map stopped ?ws) < length ?ws" using ne by (simp del: sum_list_eq_0_iff)
      then show ?thesis using get full [OF False] idle by blast
    qed
  next
    case (Stopping k)
    show ?thesis
    proof (cases k)
      case 0
      show ?thesis
      proof (cases "list_all worker_ended ?ws")
        case True
        then show ?thesis using step.join Stopping 0 by blast
      next
        case False
        then have "filter (\<lambda>w. \<not> worker_ended w) ?ws \<noteq> []" by (auto simp: filter_empty_conv list_all_iff)
        then have "sum_list (map stopped ?ws) < length ?ws" using sum by (cases "filter (\<lambda>w. \<not> worker_ended w) ?ws") auto
        then show ?thesis using get idle m q by (simp add: Stopping 0)
      qed
    next
      case (Suc k')
      have "Suc k' \<le> length ?ws" using assms(2) Stopping Suc by (auto simp: sentinels_ok_def)
      then have "sum_list (map stopped ?ws) < length ?ws" using m by (simp add: Stopping Suc)
      then show ?thesis using step.put_stop [OF Stopping [unfolded Suc]] get full idle by blast
    qed
  qed (use assms(4) in simp)
qed

locale safe_migration = migration +
  assumes safe: "\<exists>ar'. apply_all ar (mg_transforms mg) = Inr ar'"
begin

lemma step_crash_free:
  assumes "step mg fl s s'" "crash_free s"
  shows "crash_free s'"
  using assms
proof (induction rule: step.induct)
  case (convert i s r buf out registry' stats')
  then obtain x where "out = Inr x" using prepare_raises safe by (metis Inl_Inr_False sum.exhaust)
  then show ?case using convert by (auto simp: crash_free_def intro!: list_all_update)
next
  case (flush_batch i s buf af now limiter' stats' w')
  then have "lost (WFlush buf af) = 0" by (auto simp: crash_free_def list_all_length)
  then show ?case using flush_batch lost_after_flush by (auto simp: crash_free_def intro!: list_all_update)
qed (auto simp: crash_free_def intro!: list_all_update)

lemma reachable_crash_free:
  assumes "reachable mg fl (run_init mg reg now rs e w) s"
  shows "crash_free s"
  using assms unfolding reachable_def
proof (induction rule: rtranclp_induct)
  case base
  then show ?case by (simp add: crash_free_def run_init_def start_workers_def list_all_iff)
next
  case (step s s')
  then show ?case using step_crash_free by blast
qed

lemma finished_complete:
  assumes "reachable mg fl (run_init mg reg now rs e w) s" "\<nexists>s'. step mg fl s s'"
  shows "rn_producer s = Finished \<and> rn_queue s = [] \<and> st_scanned (rn_stats s) = int (length rs) \<and>
    counted (rn_stats s) = int (length rs)"
proof -
  have inv: "balanced s" "bounded mg s" "sentinels_ok s" "scanned_ok (length rs) s"
    using reachable_inv [OF assms(1)] by auto
  have cf: "crash_free s" using reachable_crash_free [OF assms(1)] .
  have fin: "rn_producer s = Finished" using progress [OF inv(2,3) cf] assms(2) by blast
  have src: "rn_source s = []" using inv(3) fin by (auto simp: sentinels_ok_def)
  have ended: "list_all worker_ended (rn_workers s)" using inv(3) fin by (auto simp: sentinels_ok_def)
  then have load: "sum_list (map load (rn_workers s)) = 0"
    using cf by (auto simp: crash_free_def list_all_iff load_def sum_list_eq_0_iff elim!: worker_ended.elims)
  have "list_all (\<lambda>w. worker_ended w \<or> (\<exists>b. w = WIdle b)) (rn_workers s)" using ended by (simp add: list_all_iff)
  then have "sum_list (map stopped (rn_workers s)) = length (rn_workers s)"
    using sum_stopped_ended [of "rn_workers s"] ended cf by (simp add: crash_free_def filter_False list_all_iff)
  moreover have "0 < length (rn_workers s)" using inv(2) by (simp add: bounded_def)
  ultimately have q: "rn_queue s = []" using inv(3) fin by (auto simp: sentinels_ok_def)
  show ?thesis using inv(1,4) fin q src load by (simp add: balanced_def scanned_ok_def)
qed

lemma can_finish:
  assumes "reachable mg fl (run_init mg reg now rs e w) s"
  shows "\<exists>s'. reachable mg fl s s' \<and> rn_producer s' = Finished"
  using assms
proof (induction "remaining s" arbitrary: s rule: less_induct)
  case less
  show ?case
  proof (cases "\<exists>s'. step mg fl s s'")
    case True
    then obtain s' where s': "step mg fl s s'" by blast
    then have "reachable mg fl (run_init mg reg now rs e w) s'" using less.prems by (simp add: reachable_def)
    then obtain t where "reachable mg fl s' t" "rn_producer t = Finished"
      using less.hyps [OF step_remaining [OF s']] by blast
    then show ?thesis using s' unfolding reachable_def by (meson converse_rtranclp_into_rtranclp)
  next
    case False
    then show ?thesis using finished_complete [OF less.prems] by (auto simp: reachable_def)
  qed
qed

end

text \<open>The migrator of the program, with any transforms, and as the command line builds it, with none.\<close>

lemma Migrator_init_sink [simp]: "mg_sink (Migrator_init config ts self) = aerospike_sink_ops self"
  by (simp add: Migrator_init_def)

interpretation am: migration "aerospike_sink_ops self" "Migrator_init config ts self" fl
  for self :: "'c AerospikeSink" and config ts fl
  by unfold_locales simp

interpretation cm: safe_migration "aerospike_sink_ops self" "Migrator_init config None self" fl
  for self :: "'c AerospikeSink" and config fl
  by unfold_locales (simp add: Migrator_init_def)

lemma Migrator_init_safe:
  fixes self :: "'c AerospikeSink"
  assumes "\<forall>ar. \<exists>ar'. apply_all ar ts = Inr ar'"
  shows "safe_migration (aerospike_sink_ops self) (Migrator_init config (Some ts) self)"
  using assms by unfold_locales (simp add: Migrator_init_def)

section \<open>Properties\<close>

text \<open>
  C1 At every moment of every run, whatever the threads do, the transforms raise and the server
  answers, each scanned record is in exactly one place: held by the producer, in the queue, with a
  worker, counted as migrated, skipped or failed, or lost with a worker that an exception ended,
  one record for each such worker.
\<close>

theorem run_accounting:
  fixes self :: "'c AerospikeSink"
  assumes "reachable (Migrator_init config ts self) fl (run_init (Migrator_init config ts self) reg now rs exn w) s"
  shows "st_scanned (rn_stats s) =
    int (held (rn_producer s)) + int (queued (rn_queue s)) + int (sum_list (map in_flight (rn_workers s))) +
    st_migrated (rn_stats s) + st_skipped (rn_stats s) + st_errors (rn_stats s) +
    int (sum_list (map lost (rn_workers s)))"
proof -
  have "sum_list (map load ws) = sum_list (map in_flight ws) + sum_list (map lost ws)" for ws
    by (induction ws) (auto simp: load_def)
  then show ?thesis using am.reachable_inv [OF assms] by (simp add: balanced_def counted_def)
qed

text \<open>
  C15 The pipeline uses bounded memory: the queue never holds more items than its size, and a worker
  never holds more records than the batch size, so at most workers times batch size records are in
  flight besides the queue.
\<close>

theorem run_bounds:
  fixes self :: "'c AerospikeSink"
  assumes "reachable (Migrator_init config ts self) fl (run_init (Migrator_init config ts self) reg now rs exn w) s"
  shows "(mc_queue_size config \<le> 0 \<or> int (length (rn_queue s)) \<le> mc_queue_size config) \<and>
    list_all (\<lambda>x. int (in_flight x) \<le> max 1 (mc_write_batch_size config)) (rn_workers s) \<and>
    int (sum_list (map in_flight (rn_workers s))) \<le> max 1 (mc_workers config) * max 1 (mc_write_batch_size config)"
proof -
  let ?n = "max 1 (mc_write_batch_size config)"
  have b: "bounded (Migrator_init config ts self) s" using am.reachable_inv [OF assms] by blast
  have "int (in_flight x) \<le> n" if "worker_wf n x" "1 \<le> n" for x n
    using that by (cases "(n, x)" rule: worker_wf.cases) auto
  then have w: "list_all (\<lambda>x. int (in_flight x) \<le> ?n) (rn_workers s)"
    using b by (auto simp: bounded_def list_all_iff mg_batch_size_def Migrator_init_def)
  have "int (sum_list (map in_flight ws)) \<le> int (length ws) * ?n" if "list_all (\<lambda>x. int (in_flight x) \<le> ?n) ws" for ws
    using that by (induction ws) (auto simp: algebra_simps)
  moreover have "int (length (rn_workers s)) = max 1 (mc_workers config)"
    using b by (auto simp: bounded_def Migrator_init_def)
  ultimately have "int (sum_list (map in_flight (rn_workers s))) \<le> max 1 (mc_workers config) * ?n"
    using w by metis
  then show ?thesis using b w by (auto simp: bounded_def queue_bounded_def Migrator_init_def)
qed

text \<open>
  C16 Every run ends: a run makes at most eight steps per record, three per worker and two more,
  whatever the order in which the threads are scheduled.
\<close>

theorem run_step_bound:
  assumes "(step mg fl ^^ n) (run_init mg reg now rs exn w) s"
  shows "n \<le> 8 * length rs + 3 * nat (max 1 (mc_workers (mg_config mg))) + 2"
  using steps_remaining [OF assms] by (simp add: remaining_init)

text \<open>
  C2 When no transform raises, a run cannot get stuck: it ends in the finished state, with every
  record that the source yielded scanned and counted exactly once as migrated, skipped or failed,
  and an empty queue; and from every state it can reach, it can still get there.
\<close>

theorem run_completes:
  fixes self :: "'c AerospikeSink"
  assumes "\<forall>ar. \<exists>ar'. apply_all ar ts = Inr ar'"
    and "reachable (Migrator_init config (Some ts) self) fl
           (run_init (Migrator_init config (Some ts) self) reg now rs exn w) s"
  shows "(\<exists>s'. reachable (Migrator_init config (Some ts) self) fl s s' \<and> rn_producer s' = Finished) \<and>
    ((\<nexists>s'. step (Migrator_init config (Some ts) self) fl s s') \<longrightarrow>
       rn_producer s = Finished \<and> rn_queue s = [] \<and> st_scanned (rn_stats s) = int (length rs) \<and>
       st_migrated (rn_stats s) + st_skipped (rn_stats s) + st_errors (rn_stats s) = int (length rs))"
proof -
  note fin = safe_migration.finished_complete [OF Migrator_init_safe [OF assms(1)]]
  show ?thesis
    using safe_migration.can_finish [OF Migrator_init_safe [OF assms(1)] assms(2)] fin [OF assms(2)]
    by (simp add: counted_def)
qed

text \<open>A migrator over the reference server and its finished runs, for the witnesses.\<close>

abbreviation run_ends :: "'c Migrator \<Rightarrow> 'c run_state \<Rightarrow> 'c run_state \<Rightarrow> bool" where
  "run_ends mg s0 s \<equiv> reachable mg exact s0 s \<and> (\<nexists>s'. step mg exact s s')"

definition ref_migrator :: "ref_store Migrator" where
  "ref_migrator = Migrator_init MigrationConfig_default (Some [IdentityTransform]) (ref_sink UPDATE)"

definition ref_redis_record :: "nat \<Rightarrow> RedisRecord" where
  "ref_redis_record k = \<lparr>rr_key = KStr [k], rr_type = L ''list'', rr_value = RList [], rr_ttl_ms = None\<rparr>"

definition ref_registry :: ConverterRegistry where
  "ref_registry = projr (registry_from_config MigrationConfig_default)"

definition ref_run :: "ref_store run_state" where
  "ref_run = run_init ref_migrator ref_registry 0 [ref_redis_record 1, ref_redis_record 2] None (\<lambda>k. None)"

lemma ref_run_reachable:
  "reachable (Migrator_init MigrationConfig_default (Some [IdentityTransform]) (ref_sink UPDATE)) exact
     (run_init (Migrator_init MigrationConfig_default (Some [IdentityTransform]) (ref_sink UPDATE)) ref_registry 0
        [ref_redis_record 1, ref_redis_record 2] None (\<lambda>k. None)) ref_run"
  by (simp add: reachable_def ref_run_def ref_migrator_def)

text \<open>After the first scan, the scanned record is held by the producer.\<close>

theorem run_accounting_witness:
  "\<exists>s. reachable ref_migrator exact ref_run s \<and> st_scanned (rn_stats s) = 1 \<and>
    1 = int (held (rn_producer s)) + int (queued (rn_queue s)) + int (sum_list (map in_flight (rn_workers s))) +
      st_migrated (rn_stats s) + st_skipped (rn_stats s) + st_errors (rn_stats s) + int (sum_list (map lost (rn_workers s)))"
proof -
  let ?s = "ref_run\<lparr>rn_source := [ref_redis_record 2], rn_producer := Holding (ref_redis_record 1),
      rn_scan_limiter := fst (tb_acquire exact (rn_scan_limiter ref_run) 0 1),
      rn_stats := record_scanned 1 (rn_stats ref_run)\<rparr>"
  have "rn_producer ref_run = Producing" "rn_source ref_run = [ref_redis_record 1, ref_redis_record 2]"
    by (simp_all add: ref_run_def run_init_def)
  then have s: "reachable ref_migrator exact ref_run ?s" unfolding reachable_def by (intro r_into_rtranclp step.scan)
  moreover have "st_scanned (rn_stats ?s) = 1"
    by (simp add: record_scanned_def ref_run_def run_init_def stats_start_def MigrationStats_init_def)
  ultimately show ?thesis using run_accounting [OF s [unfolded ref_run_def ref_migrator_def]]
    unfolding ref_run_def ref_migrator_def by (metis (no_types, lifting))
qed

theorem run_bounds_witness: "int (sum_list (map in_flight (rn_workers ref_run))) \<le> 8"
  using run_bounds [OF ref_run_reachable] by (simp add: MigrationConfig_default_def)

theorem run_step_bound_witness:
  "\<exists>s. (step ref_migrator exact ^^ 1) ref_run s \<and> (1 :: nat) \<le> 8 * 2 + 3 * 8 + 2"
proof -
  have "rn_producer ref_run = Producing" "rn_source ref_run = [ref_redis_record 1, ref_redis_record 2]"
    by (simp_all add: ref_run_def run_init_def)
  from step.scan [OF this, of ref_migrator exact 0] obtain s where s: "(step ref_migrator exact ^^ 1) ref_run s"
    by (auto simp: eq_OO)
  from run_step_bound [OF s [unfolded ref_run_def]] have "(1 :: nat) \<le> 8 * 2 + 3 * 8 + 2"
    by (simp add: ref_migrator_def Migrator_init_def MigrationConfig_default_def)
  then show ?thesis using s by blast
qed

theorem run_completes_witness:
  "\<exists>s'. reachable ref_migrator exact ref_run s' \<and> rn_producer s' = Finished"
proof -
  have "\<forall>ar. \<exists>ar'. apply_all ar [IdentityTransform] = Inr ar'" by (simp add: apply_all_def)
  from run_completes [OF this ref_run_reachable] show ?thesis by (simp add: ref_migrator_def)
qed

text \<open>
  C17 A transform that raises is not isolated to its record: with one worker and a queue of one, the
  exception ends the worker, nobody empties the queue, and the run reaches a state from which no
  step is possible although it is not finished; the producer waits forever to enqueue the next
  record.
\<close>

theorem run_deadlocks_on_raise:
  assumes "mc_workers (mg_config mg) \<le> 1" "mc_queue_size (mg_config mg) = 1" "mc_write_batch_size (mg_config mg) \<le> 1"
    and "prepare mg reg (record_scanned 1 (stats_start now MigrationStats_init)) r1 = (Inl e, reg', st')"
  shows "\<exists>s. reachable mg fl (run_init mg reg now (r1 # r2 # r3 # rs) exn w) s \<and>
    rn_producer s = Holding r3 \<and> (\<nexists>s'. step mg fl s s')"
proof -
  have mode: "start_workers mg = [WIdle None]"
    using assms(1,3) by (simp add: start_workers_def mg_batch_size_def max_def)
  let ?acq = "\<lambda>b. fst (tb_acquire fl b now 1)"
  let ?s0 = "run_init mg reg now (r1 # r2 # r3 # rs) exn w"
  let ?s1 = "?s0\<lparr>rn_source := r2 # r3 # rs, rn_producer := Holding r1, rn_scan_limiter := ?acq (rn_scan_limiter ?s0),
    rn_stats := record_scanned 1 (rn_stats ?s0)\<rparr>"
  let ?s2 = "?s1\<lparr>rn_queue := rn_queue ?s1 @ [Rec r1], rn_producer := Producing\<rparr>"
  let ?s3 = "?s2\<lparr>rn_queue := [], rn_workers := (rn_workers ?s2)[0 := take_item (Rec r1) None]\<rparr>"
  let ?s4 = "?s3\<lparr>rn_registry := reg', rn_stats := st', rn_workers := (rn_workers ?s3)[0 := after_prepare mg r1 None (Inl e)]\<rparr>"
  let ?s5 = "?s4\<lparr>rn_source := r3 # rs, rn_producer := Holding r2, rn_scan_limiter := ?acq (rn_scan_limiter ?s4),
    rn_stats := record_scanned 1 (rn_stats ?s4)\<rparr>"
  let ?s6 = "?s5\<lparr>rn_queue := rn_queue ?s5 @ [Rec r2], rn_producer := Producing\<rparr>"
  let ?s7 = "?s6\<lparr>rn_source := rs, rn_producer := Holding r3, rn_scan_limiter := ?acq (rn_scan_limiter ?s6),
    rn_stats := record_scanned 1 (rn_stats ?s6)\<rparr>"
  have room: "queue_has_room mg []" "\<not> queue_has_room mg [Rec r2]"
    using assms(2) by (simp_all add: queue_has_room_def)
  have "step mg fl ?s0 ?s1" by (rule step.scan) (simp_all add: run_init_def)
  moreover have "step mg fl ?s1 ?s2" by (rule step.put) (simp_all add: run_init_def room)
  moreover have "step mg fl ?s2 ?s3" by (rule step.get) (simp_all add: run_init_def mode)
  moreover have "step mg fl ?s3 ?s4"
    by (rule step.convert) (use assms(4) in \<open>simp_all add: run_init_def mode take_item_def\<close>)
  moreover have "step mg fl ?s4 ?s5" by (rule step.scan) (simp_all add: run_init_def)
  moreover have "step mg fl ?s5 ?s6" by (rule step.put) (simp_all add: run_init_def room)
  moreover have "step mg fl ?s6 ?s7" by (rule step.scan) (simp_all add: run_init_def)
  ultimately have "reachable mg fl ?s0 ?s7" unfolding reachable_def by (meson converse_rtranclp_into_rtranclp rtranclp.rtrancl_refl)
  moreover have "rn_workers ?s7 = [WCrashed]" "rn_queue ?s7 = [Rec r2]" "rn_producer ?s7 = Holding r3"
    by (simp_all add: run_init_def mode after_prepare_def finish_worker_def)
  then have "\<nexists>s'. step mg fl ?s7 s'" using room(2) by (auto elim!: stepE)
  ultimately show ?thesis by (intro exI [of _ ?s7]) simp
qed

definition raising_migrator :: "ref_store Migrator" where
  "raising_migrator = Migrator_init (MigrationConfig_default\<lparr>mc_workers := 1, mc_queue_size := 1\<rparr>)
     (Some [CustomTransform (\<lambda>ar. Inl ValueError)]) (ref_sink UPDATE)"

lemma ref_convert:
  "\<exists>ar. registry_convert ref_registry (ref_redis_record k) None None = (Inr ar, ref_registry)"
  by (simp add: ref_registry_def registry_from_config_eq registry_convert_def registry_get_def default_get
      ref_redis_record_def Let_def text_simps ListConverter_convert_def build_def)

theorem run_deadlocks_on_raise_witness:
  "\<exists>s. reachable raising_migrator exact
      (run_init raising_migrator ref_registry 0 [ref_redis_record 1, ref_redis_record 2, ref_redis_record 3] None (\<lambda>k. None)) s \<and>
    rn_producer s = Holding (ref_redis_record 3) \<and> (\<nexists>s'. step raising_migrator exact s s')"
proof -
  obtain ar where ar: "registry_convert ref_registry (ref_redis_record 1) None None = (Inr ar, ref_registry)"
    using ref_convert by blast
  have t: "rr_type (ref_redis_record 1) \<noteq> L ''hash''" by (simp add: ref_redis_record_def)
  have "prepare raising_migrator ref_registry st (ref_redis_record 1) = (Inl ValueError, ref_registry, st)" for st
    using ar t by (simp add: prepare_def convert_routed_def Let_def) (simp add: raising_migrator_def Migrator_init_def apply_all_def)
  then show ?thesis
    by (intro run_deadlocks_on_raise [where e = ValueError])
      (simp_all add: raising_migrator_def Migrator_init_def MigrationConfig_default_def)
qed

end
