(* ===== verification/Source_Facts.thy ===== *)
theory Source_Facts
  imports Source Registry_Facts
begin

text \<open>
  The source: distinct Redis keys stay distinct, the records have the shape their type promises,
  every live key of a batch is yielded, the batches of a cluster partition the keys, and the scan
  ends when the server's cursor does.
\<close>

section \<open>Keys\<close>

lemma decode_key_inject: "decode_key a = decode_key b \<longleftrightarrow> a = b"
  using utf8_decode_inject by (auto simp: decode_key_def split: option.splits)

section \<open>Types and values of a batch\<close>

lemma dict_at_eq_Inr: "dict_at d k = Inr v \<longleftrightarrow> dict_get d k = Some v"
  by (simp add: dict_at_def split: option.splits)

text \<open>What the client library documents of the replies to the commands of a pipeline.\<close>

fun reply_ok :: "command \<Rightarrow> redis_value \<Rightarrow> bool" where
  "reply_ok (CType k) r = (\<exists>b. r = RScalar (SBytes b))"
| "reply_ok (CPttl k) r = (\<exists>i. r = RScalar (SInt i) \<and> - 2 \<le> i \<and> i < 2 ^ 63)"
| "reply_ok (CGet k) r = (r = RScalar SNone \<or> (\<exists>b. r = RScalar (SBytes b)))"
| "reply_ok (CHgetall k) r =
     (\<exists>d. r = RHash (map (\<lambda>(f, v). (SBytes f, SBytes v)) d) \<and> distinct (map fst d))"
| "reply_ok (CLrange k) r = (\<exists>xs. r = RList (map SBytes xs))"
| "reply_ok (CSmembers k) r = (\<exists>xs. r = RSet (map SBytes xs) \<and> distinct xs)"
| "reply_ok (CZrange k) r =
     (\<exists>ps. r = RZset (map (\<lambda>(m, s). (SBytes m, SFloat s)) ps) \<and> distinct (map fst ps))"
| "reply_ok (CExists k) r = (\<exists>i. r = RScalar (SInt i))"

definition pipeline_ok :: "'w rclient \<Rightarrow> bool" where
  "pipeline_ok c \<longleftrightarrow>
     (\<forall>w cmds rs w'. rd_pipeline c w cmds = (Inr rs, w') \<longrightarrow> list_all2 reply_ok cmds rs)"

definition types_ok :: "bytes list \<Rightarrow> types_dict \<Rightarrow> bool" where
  "types_ok keys types \<longleftrightarrow> (\<forall>k \<in> set keys. \<exists>s. dict_get types k = Some (SStr s))"

definition ttls_ok :: "bytes list \<Rightarrow> ttls_dict \<Rightarrow> bool" where
  "ttls_ok keys ttls \<longleftrightarrow>
     (\<forall>k \<in> set keys. \<exists>t. dict_get ttls k = Some t \<and> (case t of None \<Rightarrow> True | Some i \<Rightarrow> 0 \<le> i \<and> i < 2 ^ 63))"

text \<open>The replies to the first pipeline, two per key.\<close>

definition meta_cmds :: "bytes list \<Rightarrow> command list" where
  "meta_cmds keys = concat (map (\<lambda>key. [CType key, CPttl key]) keys)"

lemma meta_replies:
  assumes "list_all2 reply_ok (meta_cmds keys) rs"
  shows "length rs = 2 * length keys \<and>
    (\<forall>i < length keys. (\<exists>b. rs ! (2 * i) = RScalar (SBytes b)) \<and>
       (\<exists>j. rs ! (2 * i + 1) = RScalar (SInt j) \<and> - 2 \<le> j \<and> j < 2 ^ 63))"
  using assms
proof (induction keys arbitrary: rs)
  case (Cons k keys)
  then obtain r1 r2 rs' where rs: "rs = r1 # r2 # rs'" and r: "reply_ok (CType k) r1" "reply_ok (CPttl k) r2"
    and rest: "list_all2 reply_ok (meta_cmds keys) rs'"
    by (auto simp: meta_cmds_def list_all2_Cons1)
  show ?case using Cons.IH [OF rest] r by (auto simp: rs nth_Cons' less_Suc_eq_0_disj)
qed (simp add: meta_cmds_def)

lemma ttl_of_reply_ok:
  "- 2 \<le> j \<Longrightarrow> j < 2 ^ 63 \<Longrightarrow>
     (case ttl_of_reply (RScalar (SInt j)) of None \<Rightarrow> True | Some i \<Rightarrow> 0 \<le> i \<and> i < 2 ^ 63)"
  by (simp add: ttl_of_reply_def)

lemma collect_types_ok:
  assumes "\<And>j. i \<le> j \<Longrightarrow> j < i + length keys \<Longrightarrow> 2 * j + 1 < length rs \<and>
      (\<exists>b. rs ! (2 * j) = RScalar (SBytes b)) \<and>
      (\<exists>t. rs ! (2 * j + 1) = RScalar (SInt t) \<and> - 2 \<le> t \<and> t < 2 ^ 63)"
    and "types_ok done types" "ttls_ok done ttls"
  shows "\<exists>types' ttls'. collect_types rs i keys types ttls = Inr (types', ttls') \<and>
    types_ok (done @ keys) types' \<and> ttls_ok (done @ keys) ttls'"
  using assms
proof (induction keys arbitrary: i types ttls "done")
  case (Cons k keys)
  obtain b t where len: "2 * i + 1 < length rs" and b: "rs ! (2 * i) = RScalar (SBytes b)"
    and t: "rs ! (2 * i + 1) = RScalar (SInt t)" "- 2 \<le> t" "t < 2 ^ 63"
    using Cons.prems(1) [of i] by auto
  let ?types = "dict_set k (source_decode (SBytes b)) types"
  let ?ttls = "dict_set k (ttl_of_reply (RScalar (SInt t))) ttls"
  have "types_ok (done @ [k]) ?types" using Cons.prems(2) by (auto simp: types_ok_def kget_kset source_decode_def)
  moreover have "ttls_ok (done @ [k]) ?ttls"
    using Cons.prems(3) ttl_of_reply_ok [OF t(2,3)] by (auto simp: ttls_ok_def kget_kset)
  moreover have "2 * j + 1 < length rs \<and> (\<exists>b. rs ! (2 * j) = RScalar (SBytes b)) \<and>
      (\<exists>t. rs ! (2 * j + 1) = RScalar (SInt t) \<and> - 2 \<le> t \<and> t < 2 ^ 63)"
    if "i + 1 \<le> j" "j < i + 1 + length keys" for j
    using that Cons.prems(1) [of j] by simp
  ultimately obtain types' ttls' where
    "collect_types rs (i + 1) keys ?types ?ttls = Inr (types', ttls')"
    "types_ok ((done @ [k]) @ keys) types'" "ttls_ok ((done @ [k]) @ keys) ttls'"
    using Cons.IH [of "i + 1" "done @ [k]" ?types ?ttls] by blast
  then show ?case using len b t by (simp add: reply_at_def mult.commute)
qed simp

lemma fetch_types_ok:
  assumes "pipeline_ok c" "fetch_types_and_ttls c w keys = (out, w')"
  shows "(\<exists>e. out = Inl e \<and> rd_pipeline c w (meta_cmds keys) = (Inl e, w')) \<or>
    (\<exists>types ttls. out = Inr (types, ttls) \<and> types_ok keys types \<and> ttls_ok keys ttls)"
proof (cases "rd_pipeline c w (meta_cmds keys)")
  case (Pair r v)
  show ?thesis
  proof (cases r)
    case (Inl e)
    then show ?thesis using assms(2) Pair by (auto simp: fetch_types_and_ttls_def meta_cmds_def)
  next
    case (Inr rs)
    then have "list_all2 reply_ok (meta_cmds keys) rs" using assms(1) Pair by (auto simp: pipeline_ok_def)
    from meta_replies [OF this] have "\<exists>types ttls. collect_types rs 0 keys [] [] = Inr (types, ttls) \<and>
        types_ok ([] @ keys) types \<and> ttls_ok ([] @ keys) ttls"
      by (intro collect_types_ok) (auto simp: types_ok_def ttls_ok_def)
    then show ?thesis using assms(2) Pair Inr by (auto simp: fetch_types_and_ttls_def meta_cmds_def)
  qed
qed

text \<open>The keys that are read, with their types.\<close>

definition typed_keys :: "types_dict \<Rightarrow> bytes list \<Rightarrow> (bytes \<times> pyscalar) list" where
  "typed_keys types keys =
     filter (\<lambda>(k, t). t \<noteq> SStr (L ''none'')) (map (\<lambda>k. (k, the (dict_get types k))) keys)"

lemma fetch_values_eq:
  assumes "types_ok keys types"
  shows "fetch_values c w keys types =
    (case rd_pipeline c w (map (\<lambda>(key, t). value_command t key) (typed_keys types keys)) of
       (Inl e, w') \<Rightarrow> (Inl e, w')
     | (Inr results, w') \<Rightarrow>
         (Inr (kset_all (\<lambda>k. k) (zip (map fst (typed_keys types keys)) results) []), w'))"
proof -
  have "dict_at types k = Inr (the (dict_get types k))" if "k \<in> set keys" for k
    using assms that by (auto simp: types_ok_def dict_at_def)
  then have "mapr (\<lambda>key. rmap (\<lambda>t. (key, t)) (dict_at types key)) keys =
      Inr (map (\<lambda>k. (k, the (dict_get types k))) keys)"
    by (intro mapr_total) simp
  then show ?thesis unfolding fetch_values_def typed_keys_def Let_def by simp
qed

lemma kget_kset_all_P:
  assumes "\<And>k v. (k, v) \<in> set items \<Longrightarrow> P k v" "dict_get (kset_all (\<lambda>k. k) items []) k = Some v"
  shows "P k v"
proof -
  have "P k v" if "\<forall>k v. dict_get d k = Some v \<longrightarrow> P k v" "\<forall>p \<in> set items. P (fst p) (snd p)"
    "dict_get (kset_all (\<lambda>k. k) items d) k = Some v" for d k v
    using that
  proof (induction items arbitrary: d)
    case (Cons p items)
    have "\<forall>k v. dict_get (dict_set (fst p) (snd p) d) k = Some v \<longrightarrow> P k v"
      using Cons.prems(1,2) by (simp add: kget_kset)
    then show ?case using Cons.IH Cons.prems(2,3) by (simp add: kset_all_def case_prod_beta)
  qed (simp add: kset_all_def)
  then show ?thesis using assms by (metis kget.simps(1) option.distinct(1) prod.collapse)
qed

lemma values_ok:
  assumes "types_ok keys types" "list_all2 reply_ok (map (\<lambda>(key, t). value_command t key) (typed_keys types keys)) results"
    and "dict_get (kset_all (\<lambda>k. k) (zip (map fst (typed_keys types keys)) results) []) k = Some v"
  shows "reply_ok (value_command (the (dict_get types k)) k) v"
proof (rule kget_kset_all_P [OF _ assms(3)])
  fix k v
  assume "(k, v) \<in> set (zip (map fst (typed_keys types keys)) results)"
  then obtain j where j: "j < length (typed_keys types keys)" "j < length results"
    "k = fst (typed_keys types keys ! j)" "v = results ! j" by (auto simp: set_zip)
  then have "reply_ok (value_command (snd (typed_keys types keys ! j)) k) v"
    using assms(2) by (simp add: list_all2_conv_all_nth case_prod_beta)
  moreover have "snd (typed_keys types keys ! j) = the (dict_get types k)"
    using nth_mem [OF j(1)] j(3) by (auto simp: typed_keys_def)
  ultimately show "reply_ok (value_command (the (dict_get types k)) k) v" by simp
qed

text \<open>What a record yielded for a key satisfies.\<close>

definition yielded_ok :: "bytes list \<Rightarrow> RedisRecord \<Rightarrow> bool" where
  "yielded_ok keys r \<longleftrightarrow>
     well_shaped r \<and> ttl_in_range r \<and> rr_key r \<in> decode_key ` set keys \<and>
     \<not> is_vanished (SStr (rr_type r)) (rr_value r)"

lemma record_of_key_ok:
  assumes "types_ok keys types" "ttls_ok keys ttls" "k \<in> set keys"
    and vals: "\<And>v. dict_get vals k = Some v \<Longrightarrow> reply_ok (value_command (the (dict_get types k)) k) v"
  shows "\<exists>out. record_of_key types ttls vals k = Inr out \<and> (\<forall>r. out = Some r \<longrightarrow> yielded_ok keys r)"
proof -
  obtain s where s: "dict_get types k = Some (SStr s)" using assms(1,3) by (auto simp: types_ok_def)
  obtain t where t: "dict_get ttls k = Some t" "case t of None \<Rightarrow> True | Some i \<Rightarrow> 0 \<le> i \<and> i < 2 ^ 63"
    using assms(2,3) by (auto simp: ttls_ok_def)
  show ?thesis
  proof (cases "s = L ''none'' \<or> dict_get vals k = None")
    case True
    then show ?thesis by (auto simp: record_of_key_def dict_at_def s)
  next
    case False
    then obtain v where v: "dict_get vals k = Some v" "s \<noteq> L ''none''" by blast
    have ok: "reply_ok (value_command (SStr s) k) v" using vals [OF v(1)] s by simp
    let ?r = "\<lparr>rr_key = decode_key k, rr_type = s, rr_value = v, rr_ttl_ms = t\<rparr>"
    have out: "record_of_key types ttls vals k = Inr (if is_vanished (SStr s) v then None else Some ?r)"
      using v t by (simp add: record_of_key_def dict_at_def s)
    have "yielded_ok keys ?r" if nv: "\<not> is_vanished (SStr s) v"
    proof -
      have "well_shaped ?r" using ok nv
        by (auto simp: well_shaped_def value_command_def is_vanished_def text_simps split: if_splits)
      then show ?thesis using t assms(3) nv by (simp add: yielded_ok_def ttl_in_range_def)
    qed
    then show ?thesis using out by auto
  qed
qed

lemma yield_records_ok:
  assumes "\<And>k. k \<in> set ks \<Longrightarrow> \<exists>out. record_of_key types ttls vals k = Inr out \<and> (\<forall>r. out = Some r \<longrightarrow> P r)"
  shows "\<exists>rs. yield_records types ttls vals ks = (rs, None) \<and> list_all P rs"
  using assms
proof (induction ks)
  case (Cons k ks)
  obtain out where out: "record_of_key types ttls vals k = Inr out" "\<forall>r. out = Some r \<longrightarrow> P r"
    using Cons.prems [of k] by auto
  obtain rs where "yield_records types ttls vals ks = (rs, None)" "list_all P rs"
    using Cons.IH Cons.prems by auto
  then show ?case using out by (cases out) auto
qed simp

section \<open>Properties\<close>

text \<open>
  C19 Reading a batch of keys yields only records whose value has the shape of their type, whose
  TTL is absent or a non-negative 64-bit number, which are keys of the batch and not vanished; and
  the reading raises nothing of its own, it only passes on what a pipeline raised. The client is
  assumed to reply to every command in the documented form.
\<close>

theorem batch_records_shaped:
  assumes "pipeline_ok c" "batch_records c w keys = ((rs, e), w')"
  shows "list_all (\<lambda>r. well_shaped r \<and> ttl_in_range r \<and> rr_key r \<in> decode_key ` set keys \<and>
      \<not> is_vanished (SStr (rr_type r)) (rr_value r)) rs \<and>
    (case e of None \<Rightarrow> True | Some x \<Rightarrow> \<exists>v v' cmds. rd_pipeline c v cmds = (Inl x, v'))"
proof (cases "keys = []")
  case True
  then show ?thesis using assms(2) by (simp add: batch_records_def)
next
  case False
  obtain m w1 where m: "fetch_types_and_ttls c w keys = (m, w1)" by (cases "fetch_types_and_ttls c w keys")
  show ?thesis
  proof (cases m)
    case (Inl x)
    then show ?thesis using fetch_types_ok [OF assms(1) m] assms(2) m False
      by (auto simp: batch_records_def) blast
  next
    case (Inr p)
    then obtain types ttls where p: "m = Inr (types, ttls)" "types_ok keys types" "ttls_ok keys ttls"
      using fetch_types_ok [OF assms(1) m] by auto
    let ?cmds = "map (\<lambda>(key, t). value_command t key) (typed_keys types keys)"
    obtain r w2 where r: "rd_pipeline c w1 ?cmds = (r, w2)" by (cases "rd_pipeline c w1 ?cmds")
    show ?thesis
    proof (cases r)
      case (Inl x)
      then show ?thesis using r p m assms(2) False
        by (auto simp: batch_records_def fetch_values_eq) blast
    next
      case (Inr results)
      then have ok: "list_all2 reply_ok ?cmds results" using assms(1) r unfolding pipeline_ok_def by blast
      let ?vals = "kset_all (\<lambda>k. k) (zip (map fst (typed_keys types keys)) results) []"
      have "\<exists>rs. yield_records types ttls ?vals keys = (rs, None) \<and> list_all (yielded_ok keys) rs"
        by (intro yield_records_ok record_of_key_ok p(2,3) values_ok [OF p(2) ok])
      then show ?thesis using Inr r p m assms(2) False
        by (auto simp: batch_records_def fetch_values_eq yielded_ok_def list_all_iff)
    qed
  qed
qed

text \<open>
  C29 Keys are decoded without loss: two Redis keys give the same record key only when they are the
  same bytes, valid UTF-8 or not.
\<close>

theorem decode_key_injective: "decode_key a = decode_key b \<longleftrightarrow> a = b"
  by (rule decode_key_inject)

section \<open>Cluster batches\<close>

lemma cluster_batches_concat:
  "concat (cluster_batches n False batch keys) = batch @ keys"
  by (induction n False batch keys rule: cluster_batches.induct) auto

lemma cluster_batches_sizes:
  assumes "0 < n" "length batch < n" "bs \<in> set (cluster_batches (int n) raised batch keys)"
  shows "bs \<noteq> [] \<and> length bs \<le> n"
  using assms
  by (induction "int n" raised batch keys rule: cluster_batches.induct)
    (auto split: if_splits simp: not_le)

lemma cluster_batches_full:
  assumes "0 < n" "length batch < n"
  shows "list_all (\<lambda>bs. length bs = n) (butlast (cluster_batches (int n) raised batch keys))"
  using assms
proof (induction "int n" raised batch keys rule: cluster_batches.induct)
  case (2 raised batch key keys)
  then show ?case by (cases "n \<le> length batch + 1") (auto simp: not_le)
qed simp

text \<open>
  The batches of a cluster scan partition the stream of keys: concatenated they are the stream,
  none is empty or larger than the batch size, and all but the last are full.
\<close>

theorem cluster_batches_partition:
  assumes "0 < n"
  shows "concat (cluster_batches (int n) False [] keys) = keys \<and>
    list_all (\<lambda>bs. bs \<noteq> [] \<and> length bs \<le> n) (cluster_batches (int n) False [] keys) \<and>
    list_all (\<lambda>bs. length bs = n) (butlast (cluster_batches (int n) False [] keys))"
  using assms cluster_batches_concat [of "int n" "[]"] cluster_batches_sizes [of n "[]"] cluster_batches_full [of n "[]"]
  by (auto simp: list_all_iff)

theorem cluster_batches_partition_witness:
  "concat (cluster_batches 2 False [] [[1], [2], [3]]) = [[1], [2], [3]]"
  using cluster_batches_partition [of 2 "[[1], [2], [3]]"] by simp

section \<open>A quiet database\<close>

text \<open>
  The replies of a server whose database \<open>db\<close> does not change during the scan: for each key its type,
  its value and its time to live.
\<close>

type_synonym database = "bytes \<Rightarrow> (pystr \<times> redis_value \<times> int option) option"

fun answer :: "database \<Rightarrow> command \<Rightarrow> redis_value" where
  "answer db (CType k) = RScalar (SBytes (utf8_encode (case db k of None \<Rightarrow> L ''none'' | Some (t, v, x) \<Rightarrow> t)))"
| "answer db (CPttl k) = RScalar (SInt (case db k of None \<Rightarrow> - 2 | Some (t, v, x) \<Rightarrow> (case x of None \<Rightarrow> - 1 | Some i \<Rightarrow> i)))"
| "answer db (CExists k) = RScalar (SInt (if db k = None then 0 else 1))"
| "answer db (CGet k) = (case db k of None \<Rightarrow> RScalar SNone | Some (t, v, x) \<Rightarrow> v)"
| "answer db (CHgetall k) = (case db k of None \<Rightarrow> RHash [] | Some (t, v, x) \<Rightarrow> v)"
| "answer db (CLrange k) = (case db k of None \<Rightarrow> RList [] | Some (t, v, x) \<Rightarrow> v)"
| "answer db (CSmembers k) = (case db k of None \<Rightarrow> RSet [] | Some (t, v, x) \<Rightarrow> v)"
| "answer db (CZrange k) = (case db k of None \<Rightarrow> RZset [] | Some (t, v, x) \<Rightarrow> v)"

text \<open>
  Types are names other than \<^verbatim>\<open>none\<close>, values are not empty, TTLs are not negative; the value of a
  type without a converter is the reply to the placeholder command.
\<close>

definition db_ok :: "database \<Rightarrow> bool" where
  "db_ok db \<longleftrightarrow> (\<forall>k t v x. db k = Some (t, v, x) \<longrightarrow>
     wf_text t \<and> t \<noteq> L ''none'' \<and> \<not> is_vanished (SStr t) v \<and> (\<forall>i. x = Some i \<longrightarrow> 0 \<le> i) \<and>
     (t \<notin> set supported_types \<longrightarrow> v = RScalar (SInt 1)))"

text \<open>
  A command that reads the value of a key is only answered for keys of its type and for missing keys;
  on any other key the server replies with a \<^verbatim>\<open>WRONGTYPE\<close> error, and executing the pipeline raises.
\<close>

fun accepts :: "database \<Rightarrow> command \<Rightarrow> bool" where
  "accepts db (CGet k) \<longleftrightarrow> (case db k of None \<Rightarrow> True | Some (t, v, x) \<Rightarrow> t = L ''string'')"
| "accepts db (CHgetall k) \<longleftrightarrow> (case db k of None \<Rightarrow> True | Some (t, v, x) \<Rightarrow> t = L ''hash'')"
| "accepts db (CLrange k) \<longleftrightarrow> (case db k of None \<Rightarrow> True | Some (t, v, x) \<Rightarrow> t = L ''list'')"
| "accepts db (CSmembers k) \<longleftrightarrow> (case db k of None \<Rightarrow> True | Some (t, v, x) \<Rightarrow> t = L ''set'')"
| "accepts db (CZrange k) \<longleftrightarrow> (case db k of None \<Rightarrow> True | Some (t, v, x) \<Rightarrow> t = L ''zset'')"
| "accepts db cmd \<longleftrightarrow> True"

definition quiet :: "'w rclient \<Rightarrow> database \<Rightarrow> bool" where
  "quiet c db \<longleftrightarrow> (\<forall>w cmds.
     if list_all (accepts db) cmds then rd_pipeline c w cmds = (Inr (map (answer db) cmds), w)
     else \<exists>e. rd_pipeline c w cmds = (Inl e, w))"

lemma quiet_replies:
  "quiet c db \<Longrightarrow> list_all (accepts db) cmds \<Longrightarrow> rd_pipeline c w cmds = (Inr (map (answer db) cmds), w)"
  by (simp add: quiet_def)

definition db_record :: "database \<Rightarrow> bytes \<Rightarrow> RedisRecord" where
  "db_record db k =
     (case the (db k) of (t, v, x) \<Rightarrow> \<lparr>rr_key = decode_key k, rr_type = t, rr_value = v, rr_ttl_ms = x\<rparr>)"

definition db_type :: "database \<Rightarrow> bytes \<Rightarrow> pyscalar" where
  "db_type db k = SStr (case db k of None \<Rightarrow> L ''none'' | Some (t, v, x) \<Rightarrow> t)"

definition db_ttl :: "database \<Rightarrow> bytes \<Rightarrow> int option" where
  "db_ttl db k = (case db k of None \<Rightarrow> None | Some (t, v, x) \<Rightarrow> x)"

lemma kset_all_map_get:
  "dict_get (kset_all (\<lambda>k. k) (map (\<lambda>k. (k, f k)) ks) d) k = (if k \<in> set ks then Some (f k) else dict_get d k)"
  by (induction ks arbitrary: d) (auto simp: kset_all_def kget_kset)

lemma zip_self_map: "zip xs (map f xs) = map (\<lambda>x. (x, f x)) xs"
  by (induction xs) auto

lemma meta_cmds_nth:
  "i < length keys \<Longrightarrow> meta_cmds keys ! (2 * i) = CType (keys ! i) \<and> meta_cmds keys ! (2 * i + 1) = CPttl (keys ! i)"
proof (induction keys arbitrary: i)
  case (Cons k keys)
  then show ?case by (cases i) (auto simp: meta_cmds_def)
qed simp

lemma length_meta_cmds: "length (meta_cmds keys) = 2 * length keys"
  by (induction keys) (auto simp: meta_cmds_def)

lemma answer_meta:
  assumes "db_ok db"
  shows "source_decode (reply_scalar (answer db (CType k))) = db_type db k"
    and "ttl_of_reply (answer db (CPttl k)) = db_ttl db k"
proof -
  have none: "wf_text (L ''none'')" by (simp add: wf_text_def scalar_def L_def)
  have wf: "wf_text (case db k of None \<Rightarrow> L ''none'' | Some (t, v, x) \<Rightarrow> t)"
    using assms none by (auto simp: db_ok_def split: option.splits)
  show "source_decode (reply_scalar (answer db (CType k))) = db_type db k"
    using utf8_decode_replace_valid [OF utf8_decode_encode [OF wf]] by (simp add: source_decode_def db_type_def)
  show "ttl_of_reply (answer db (CPttl k)) = db_ttl db k"
    using assms by (auto simp: ttl_of_reply_def db_ttl_def db_ok_def split: option.splits prod.splits)
qed

lemma collect_types_quiet:
  assumes "db_ok db" "drop i all = keys"
  shows "collect_types (map (answer db) (meta_cmds all)) i keys types ttls =
    Inr (kset_all (\<lambda>k. k) (map (\<lambda>k. (k, db_type db k)) keys) types,
         kset_all (\<lambda>k. k) (map (\<lambda>k. (k, db_ttl db k)) keys) ttls)"
  using assms(2)
proof (induction keys arbitrary: i types ttls)
  case (Cons k keys)
  have i: "i < length all" using Cons.prems by (metis drop_all list.distinct(1) not_le)
  have k: "all ! i = k" "drop (Suc i) all = keys"
    using Cons.prems i by (metis hd_drop_conv_nth list.sel(1)) (metis Cons.prems drop_Suc list.sel(3) tl_drop)
  have "reply_at (map (answer db) (meta_cmds all)) (i * 2) = Inr (answer db (CType k))"
    "reply_at (map (answer db) (meta_cmds all)) (i * 2 + 1) = Inr (answer db (CPttl k))"
    using meta_cmds_nth [OF i] i k by (simp_all add: reply_at_def length_meta_cmds mult.commute)
  then show ?case using Cons.IH [of "i + 1"] k answer_meta [OF assms(1), of k]
    by (simp add: kset_all_def del: answer.simps)
qed (simp add: kset_all_def)

lemma meta_accepted: "list_all (accepts db) (meta_cmds keys)"
  by (auto simp: meta_cmds_def list_all_iff)

text \<open>The command that the source picks by the type of a key is one that the server accepts.\<close>

lemma value_command_accepted: "accepts db (value_command (db_type db k) k)"
  by (auto simp: value_command_def db_type_def text_simps split: option.splits)

lemma answer_value:
  assumes "db_ok db" "db k = Some (t, v, x)"
  shows "answer db (value_command (SStr t) k) = v"
  using assms by (auto simp: value_command_def db_ok_def supported_types_def)

lemma typed_keys_quiet:
  assumes "db_ok db" "\<And>k. k \<in> set keys \<Longrightarrow> dict_get types k = Some (db_type db k)"
  shows "typed_keys types keys = map (\<lambda>k. (k, db_type db k)) (filter (\<lambda>k. db k \<noteq> None) keys)"
  using assms(2)
proof (induction keys)
  case (Cons k keys)
  have "db_type db k = SStr (L ''none'') \<longleftrightarrow> db k = None"
    using assms(1) by (auto simp: db_type_def db_ok_def split: option.splits)
  then show ?case using Cons by (auto simp: typed_keys_def)
qed (simp add: typed_keys_def)

lemma record_of_key_quiet:
  assumes "db_ok db" "dict_get types k = Some (db_type db k)" "dict_get ttls k = Some (db_ttl db k)"
    and "dict_get vals k = (if db k = None then None else Some (answer db (value_command (db_type db k) k)))"
  shows "record_of_key types ttls vals k = Inr (if db k = None then None else Some (db_record db k))"
proof (cases "db k")
  case None
  then show ?thesis using assms by (simp add: record_of_key_def dict_at_def db_type_def)
next
  case (Some p)
  obtain t v x where p: "p = (t, v, x)" by (cases p)
  have "\<not> is_vanished (SStr t) v" "t \<noteq> L ''none''" using assms(1) Some p by (auto simp: db_ok_def)
  then show ?thesis
    using assms answer_value [OF assms(1) Some [unfolded p]] Some p
    by (simp add: record_of_key_def dict_at_def db_type_def db_ttl_def db_record_def)
qed

lemma yield_records_quiet:
  assumes "\<And>k. k \<in> set ks \<Longrightarrow> record_of_key types ttls vals k = Inr (if db k = None then None else Some (db_record db k))"
  shows "yield_records types ttls vals ks = (map (db_record db) (filter (\<lambda>k. db k \<noteq> None) ks), None)"
  using assms by (induction ks) auto

lemma batch_records_quiet:
  assumes "db_ok db" "quiet c db"
  shows "batch_records c w keys = ((map (db_record db) (filter (\<lambda>k. db k \<noteq> None) keys), None), w)"
proof (cases "keys = []")
  case True
  then show ?thesis by (simp add: batch_records_def)
next
  case False
  let ?types = "kset_all (\<lambda>k. k) (map (\<lambda>k. (k, db_type db k)) keys) []"
  let ?ttls = "kset_all (\<lambda>k. k) (map (\<lambda>k. (k, db_ttl db k)) keys) []"
  let ?live = "filter (\<lambda>k. db k \<noteq> None) keys"
  let ?vals = "kset_all (\<lambda>k. k) (map (\<lambda>k. (k, answer db (value_command (db_type db k) k))) ?live) []"
  have "fetch_types_and_ttls c w keys = (Inr (?types, ?ttls), w)"
    using assms(2) collect_types_quiet [OF assms(1), of 0 keys keys "[]" "[]"]
      quiet_replies [OF assms(2) meta_accepted]
    by (simp add: fetch_types_and_ttls_def meta_cmds_def)
  moreover have types: "dict_get ?types k = Some (db_type db k)" "dict_get ?ttls k = Some (db_ttl db k)"
    if "k \<in> set keys" for k
    using that by (simp_all add: kset_all_map_get)
  then have tok: "types_ok keys ?types" by (auto simp: types_ok_def db_type_def)
  have typed: "typed_keys ?types keys = map (\<lambda>k. (k, db_type db k)) ?live"
    using types by (intro typed_keys_quiet [OF assms(1)])
  have "fetch_values c w keys ?types = (Inr ?vals, w)"
    using quiet_replies [OF assms(2), of "map (\<lambda>k. value_command (db_type db k) k) ?live"] value_command_accepted
    by (simp add: fetch_values_eq [OF tok] typed comp_def zip_self_map list_all_iff del: not_None_eq)
  moreover have "yield_records ?types ?ttls ?vals keys = (map (db_record db) ?live, None)"
    using types by (intro yield_records_quiet record_of_key_quiet [OF assms(1)]) (simp_all add: kset_all_map_get)
  ultimately show ?thesis using False by (simp add: batch_records_def)
qed

section \<open>The scan\<close>

text \<open>
  A server walks its cursors: \<open>pages\<close> are the pages from cursor \<open>cur\<close> on, each with the cursor that
  follows it, and the last one returns the cursor zero.
\<close>

fun pages_from :: "'w rclient \<Rightarrow> pystr \<Rightarrow> int \<Rightarrow> int \<Rightarrow> (int \<times> bytes list) list \<Rightarrow> bool" where
  "pages_from c m n cur [] = False"
| "pages_from c m n cur [(next_cur, keys)] \<longleftrightarrow>
     next_cur = 0 \<and> (\<forall>w. rd_scan c w cur m n = (Inr (next_cur, keys), w))"
| "pages_from c m n cur ((next_cur, keys) # pages) \<longleftrightarrow>
     next_cur \<noteq> 0 \<and> (\<forall>w. rd_scan c w cur m n = (Inr (next_cur, keys), w)) \<and> pages_from c m n next_cur pages"

lemma scan_loop_quiet:
  assumes "db_ok db" "quiet (rs_client self) db"
    and "pages_from (rs_client self) (rc_scan_match (rs_config self)) n cur pages" "length pages \<le> fuel"
  shows "scan_loop fuel self w n cur =
    Some ((map (db_record db) (filter (\<lambda>k. db k \<noteq> None) (concat (map snd pages))), None), w)"
  using assms(3,4)
proof (induction "rs_client self" "rc_scan_match (rs_config self)" n cur pages arbitrary: fuel rule: pages_from.induct)
  case (2 n cur next_cur keys)
  then obtain f where f: "fuel = Suc f" by (cases fuel) auto
  show ?case using 2 batch_records_quiet [OF assms(1,2)] by (simp add: f)
next
  case (3 n cur next_cur keys p pages)
  then obtain f where f: "fuel = Suc f" by (cases fuel) auto
  show ?case using 3 batch_records_quiet [OF assms(1,2)] by (simp add: f)
qed simp

lemma read_batches_quiet:
  assumes "db_ok db" "quiet c db"
  shows "read_batches c w batches = ((map (db_record db) (filter (\<lambda>k. db k \<noteq> None) (concat batches)), None), w)"
  using batch_records_quiet [OF assms] by (induction batches) auto

text \<open>
  C10 A standalone scan of a database that does not change ends and yields exactly its records: for
  each key of each page that exists, in order, one record with its key, type, value and TTL. As much
  fuel as there are pages is enough. The server refuses a pipeline with a command that does not fit the type of
  its key, so this also says that every value is read with the command of its type.
\<close>

theorem iter_records_standalone:
  assumes "\<not> rs_cluster self" "db_ok db" "quiet (rs_client self) db"
    and "pages_from (rs_client self) (rc_scan_match (rs_config self)) n 0 pages" "length pages \<le> fuel"
  shows "iter_records fuel self w n =
    Some ((map (db_record db) (filter (\<lambda>k. db k \<noteq> None) (concat (map snd pages))), None), w)"
  using scan_loop_quiet [OF assms(2-5)] assms(1) by (simp add: iter_records_def)

text \<open>
  A cluster scan of a database that does not change yields exactly its records, whatever the
  batch size: the same records in the same order as the stream of keys of the client's iterator.
\<close>

lemma iter_records_cluster:
  assumes "rs_cluster self" "db_ok db" "quiet (rs_client self) db"
    and "rd_scan_iter (rs_client self) w (rc_scan_match (rs_config self)) n = ((keys, None), w1)"
  shows "iter_records fuel self w n =
    Some ((map (db_record db) (filter (\<lambda>k. db k \<noteq> None) keys), None), w1)"
  using assms(1,4) read_batches_quiet [OF assms(2,3)] cluster_batches_concat [of n "[]" keys]
  by (simp add: iter_records_def)

text \<open>
  The scan ends whenever the server's cursors do: if every page that does not return the cursor
  zero brings the walk closer to its end, measured by \<open>rank\<close>, then as many iterations as the rank of
  the start, plus one, are enough, whatever the replies are.
\<close>

theorem scan_terminates:
  assumes "\<And>w cur m n cur' keys w'. rd_scan (rs_client self) w cur m n = (Inr (cur', keys), w') \<Longrightarrow> cur' \<noteq> 0 \<Longrightarrow>
      rank w' cur' < (rank w cur :: nat)"
    and "\<And>w cmds cur. rank (snd (rd_pipeline (rs_client self) w cmds)) cur = rank w cur"
    and "rank w cur < fuel"
  shows "\<exists>out. scan_loop fuel self w n cur = Some out"
proof -
  have pipe: "rank w' cur = rank w cur" if "rd_pipeline (rs_client self) w cmds = (r, w')" for w w' r cmds cur
    using assms(2) [of w cmds cur] that by simp
  have fetch: "rank w' cur = rank w cur" if "fetch_types_and_ttls (rs_client self) w ks = (r, w')" for w w' r ks cur
    using that pipe by (auto simp: fetch_types_and_ttls_def split: prod.splits sum.splits)
  have vals: "rank w' cur = rank w cur" if "fetch_values (rs_client self) w ks ts = (r, w')" for w w' r ks ts cur
    using that pipe by (auto simp: fetch_values_def Let_def split: prod.splits sum.splits)
  have batch: "rank w' cur = rank w cur" if "batch_records (rs_client self) w ks = (r, w')" for w w' r ks cur
    using that fetch vals by (auto simp: batch_records_def split: if_splits prod.splits sum.splits)
  show ?thesis using assms(3)
  proof (induction fuel arbitrary: w cur)
    case (Suc fuel)
    show ?case
    proof (cases "rd_scan (rs_client self) w cur (rc_scan_match (rs_config self)) n")
      case (Pair r w1)
      show ?thesis
      proof (cases r)
        case (Inl e)
        then show ?thesis using Pair by simp
      next
        case (Inr page)
        obtain cur' keys where page: "page = (cur', keys)" by (cases page)
        obtain rs e w2 where b: "batch_records (rs_client self) w1 keys = ((rs, e), w2)"
          by (metis prod.collapse)
        have "\<exists>out. scan_loop fuel self w2 n cur' = Some out" if "cur' \<noteq> 0"
          using assms(1) [OF Pair [unfolded Inr page] that] batch [OF b, of cur'] Suc by auto
        then show ?thesis using Pair Inr page b by (cases e) auto
      qed
    qed
  qed simp
qed

section \<open>A reference server\<close>

text \<open>A server with one string, walked in two pages; a second key of the scan has expired.\<close>

definition ref_db :: database where
  "ref_db = (\<lambda>k. if k = [107] then Some (L ''string'', RScalar (SBytes [118]), Some 1500) else None)"

text \<open>A strict server: it refuses a command on a value of another type.\<close>

definition serve :: "database \<Rightarrow> command list \<Rightarrow> redis_value list res" where
  "serve db cmds =
     (if list_all (accepts db) cmds then Inr (map (answer db) cmds)
      else Inl (ClientError \<lparr>cx_name = L ''ResponseError'', cx_module = L ''redis.exceptions'', cx_code = None\<rparr>))"

lemma serve_quiet: "(\<And>w cmds. rd_pipeline c w cmds = (serve db cmds, w)) \<Longrightarrow> quiet c db"
  by (simp add: quiet_def serve_def)

definition ref_redis :: "unit rclient" where
  "ref_redis =
     \<lparr>rd_scan = (\<lambda>w cur m n. (Inr (if cur = 0 then (7, [[107]]) else (0, [[120]])), w)),
      rd_scan_iter = (\<lambda>w m n. (([[107], [120]], None), w)),
      rd_pipeline = (\<lambda>w cmds. (serve ref_db cmds, w)),
      rd_dbsize = (\<lambda>w. (Inr (PS (SInt 1)), w)), rd_info = (\<lambda>w sect. (Inr (PDict []), w)),
      rd_ping = (\<lambda>w. (Inr (PS (SBool True)), w)), rd_close = (\<lambda>w. (Inr (), w))\<rparr>"

definition ref_source :: "bool \<Rightarrow> unit RedisSource" where
  "ref_source cluster = \<lparr>rs_config = RedisConfig_default\<lparr>rc_cluster := cluster\<rparr>, rs_client = ref_redis\<rparr>"

lemma ref_db_ok: "db_ok ref_db"
  by (auto simp: db_ok_def ref_db_def is_vanished_def supported_types_def wf_text_def scalar_def L_def split: if_splits)

lemma ref_quiet: "quiet ref_redis ref_db"
  by (rule serve_quiet) (simp add: ref_redis_def)

lemma ref_pages: "pages_from ref_redis m n 0 [(7, [[107]]), (0, [[120]])]"
  by (simp add: ref_redis_def)

theorem iter_records_standalone_witness:
  "iter_records 2 (ref_source False) () 500 = Some ((map (db_record ref_db) [[107]], None), ())"
  using iter_records_standalone [OF _ ref_db_ok, of "ref_source False" 500 "[(7, [[107]]), (0, [[120]])]" 2 "()"]
    ref_pages ref_quiet
  by (simp add: ref_source_def rs_cluster_def RedisConfig_default_def ref_db_def)

theorem scan_terminates_witness:
  "\<exists>out. scan_loop 3 (ref_source False) () 500 0 = Some out"
  by (rule scan_terminates [where rank = "\<lambda>w cur. if cur = 0 then 1 else 0"])
    (auto simp: ref_source_def ref_redis_def split: if_splits)

text \<open>Its replies have the documented form.\<close>

lemma ref_pipeline_ok: "pipeline_ok ref_redis"
proof -
  have "reply_ok cmd (answer ref_db cmd)" if "accepts ref_db cmd" for cmd
    using that by (cases cmd) (auto simp: ref_db_def text_simps)
  then show ?thesis
    by (auto simp: pipeline_ok_def ref_redis_def serve_def list_all2_map2 list_all_iff list.rel_refl_strong split: if_splits)
qed

theorem batch_records_shaped_witness:
  "\<exists>rs e w'. batch_records ref_redis () [[107]] = ((rs, e), w') \<and> list_all well_shaped rs"
proof -
  obtain rs e w' where b: "batch_records ref_redis () [[107]] = ((rs, e), w')" by (metis prod.collapse)
  from batch_records_shaped [OF ref_pipeline_ok b] show ?thesis using b by (auto simp: list_all_iff)
qed

end
