(* ===== verification/Cli_Facts.thy ===== *)
theory Cli_Facts
  imports Cli Config_Load_Facts Migrator_Facts Source_Facts
begin

text \<open>
  What the command line guarantees: a flag wins over the file and the file over the defaults, a
  route token yields a valid route, a dry run and a refused run leave the records of the database as
  they are, and the exit code tells whether every record was handled.
\<close>

section \<open>Flags over the file over the defaults\<close>

lemma field_set_field:
  "attr_get (section_of s (set_field s' f' a c)) f =
     (if s = s' \<and> f = f' then Some a else attr_get (section_of s c) f)"
  by (cases s; cases s') (auto simp: attr_get_def kget_kset)

definition targets :: "(string \<times> cfg_section \<times> string \<times> coercion) list \<Rightarrow> (cfg_section \<times> string) list" where
  "targets ms = map (\<lambda>(dest, s, f, co). (s, f)) ms"

text \<open>The attribute that a flag leaves: its coerced value, or the previous attribute.\<close>

definition overridden :: "namespace \<Rightarrow> string \<Rightarrow> coercion \<Rightarrow> cfg_attr option \<Rightarrow> cfg_attr option" where
  "overridden provided dest co old =
     (case attr_get provided dest of
        Some a \<Rightarrow> (case coerce_arg co a of Inr a' \<Rightarrow> Some a' | Inl e \<Rightarrow> None)
      | None \<Rightarrow> old)"

lemma apply_arg_get:
  assumes "apply_arg p (dest, s, f, co) b = Inr c"
  shows "attr_get (section_of s' c) f' =
    (if s' = s \<and> f' = f then overridden p dest co (attr_get (section_of s b) f) else attr_get (section_of s' b) f')"
  using assms by (auto simp: overridden_def rmap_eq_Inr field_set_field split: option.splits)

lemma apply_args_other:
  assumes "foldr_res (apply_arg p) ms b = Inr c" "(s, f) \<notin> set (targets ms)"
  shows "attr_get (section_of s c) f = attr_get (section_of s b) f"
  using assms
proof (induction ms arbitrary: b)
  case (Cons m ms)
  obtain dest s' f' co where m: "m = (dest, s', f', co)" by (cases m)
  obtain b1 where b1: "apply_arg p (dest, s', f', co) b = Inr b1" "foldr_res (apply_arg p) ms b1 = Inr c"
    using Cons.prems(1) by (auto simp only: m foldr_res.simps rbind_eq_Inr)
  have "attr_get (section_of s c) f = attr_get (section_of s b1) f"
    using Cons.IH [OF b1(2)] Cons.prems(2) by (simp add: targets_def m)
  also have "\<dots> = attr_get (section_of s b) f"
    using apply_arg_get [OF b1(1), of s f] Cons.prems(2) by (auto simp: targets_def m)
  finally show ?case .
qed simp

lemma apply_args_get:
  assumes "foldr_res (apply_arg p) ms b = Inr c" "distinct (targets ms)" "(dest, s, f, co) \<in> set ms"
  shows "attr_get (section_of s c) f = overridden p dest co (attr_get (section_of s b) f)"
  using assms
proof (induction ms arbitrary: b)
  case (Cons m ms)
  obtain d1 s1 f1 co1 where m: "m = (d1, s1, f1, co1)" by (cases m)
  obtain b1 where b1: "apply_arg p (d1, s1, f1, co1) b = Inr b1" "foldr_res (apply_arg p) ms b1 = Inr c"
    using Cons.prems(1) by (auto simp only: m foldr_res.simps rbind_eq_Inr)
  have fresh: "(s1, f1) \<notin> set (targets ms)" "distinct (targets ms)" using Cons.prems(2) by (auto simp: targets_def m)
  show ?case
  proof (cases "(dest, s, f, co) \<in> set ms")
    case True
    then have "(s, f) \<in> set (targets ms)" by (force simp: targets_def)
    then have "\<not> (s = s1 \<and> f = f1)" using fresh(1) by auto
    then show ?thesis using Cons.IH [OF b1(2) fresh(2) True] apply_arg_get [OF b1(1), of s f] by auto
  next
    case False
    then have "dest = d1" "s = s1" "f = f1" "co = co1" using Cons.prems(3) by (auto simp: m)
    then show ?thesis using apply_args_other [OF b1(2) fresh(1)] apply_arg_get [OF b1(1), of s f] by simp
  qed
qed simp

lemma ARG_MAP_distinct: "distinct (targets ARG_MAP)"
  by (simp add: targets_def ARG_MAP_def)

lemma ARG_MAP_free:
  "(SecAerospike, ''hosts'') \<notin> set (targets ARG_MAP)" "(SecAerospike, ''set_routes'') \<notin> set (targets ARG_MAP)"
  "(SecAerospike, ''max_record_size'') \<notin> set (targets ARG_MAP)"
  by (simp_all add: targets_def ARG_MAP_def)

lemma override_host_get:
  assumes "override_host p b = Inr c" "\<not> (s = SecAerospike \<and> f = ''hosts'')"
  shows "attr_get (section_of s c) f = attr_get (section_of s b) f"
  using assms by (auto simp: override_host_def rmap_eq_Inr field_set_field Let_def simp del: set_field.simps split: if_splits)

lemma append_routes_get:
  "attr_get (section_of s (append_routes p b)) f =
     (case (attr_get p ''set_route'', attr_get (mo_aerospike b) ''set_routes'') of
        (Some (ARoutes new), Some (ARoutes old)) \<Rightarrow>
          if s = SecAerospike \<and> f = ''set_routes'' then Some (ARoutes (old @ new)) else attr_get (section_of s b) f
      | _ \<Rightarrow> attr_get (section_of s b) f)"
  by (cases s) (auto simp: append_routes_def attr_get_def kget_kset split: option.splits cfg_attr.splits)

lemma alias_key_pattern_get:
  "attr_get (section_of s (alias_key_pattern p b)) f =
     (case (attr_get p ''redis_key_pattern'', attr_get p ''redis_match'') of
        (Some a, None) \<Rightarrow> if s = SecRedis \<and> f = ''scan_match'' then Some a else attr_get (section_of s b) f
      | _ \<Rightarrow> attr_get (section_of s b) f)"
  by (cases s) (auto simp: alias_key_pattern_def attr_get_def kget_kset split: option.splits)

text \<open>The stages of \<^verbatim>\<open>build_config\<close>, and what the later ones keep of an attribute.\<close>

lemma build_config_stages:
  assumes "build_config yaml provided = Inr c" "base_config yaml provided = Inr b"
  obtains b1 b2 where "override_host provided b = Inr b1" "foldr_res (apply_arg provided) ARG_MAP b1 = Inr b2"
    "c = alias_key_pattern provided (append_routes provided b2)"
  using assms by (auto simp: build_config_def rbind_eq_Inr)

lemma final_stages_keep:
  assumes "\<not> (s = SecRedis \<and> f = ''scan_match'')" "\<not> (s = SecAerospike \<and> f = ''set_routes'')"
  shows "attr_get (section_of s (alias_key_pattern p (append_routes p b))) f = attr_get (section_of s b) f"
proof -
  have "attr_get (section_of s (alias_key_pattern p c)) f = attr_get (section_of s c) f" for c
    using assms(1) by (auto simp: alias_key_pattern_get split: option.splits)
  moreover have "attr_get (section_of s (append_routes p b)) f = attr_get (section_of s b) f"
    using assms(2) by (auto simp: append_routes_get split: option.splits cfg_attr.splits)
  ultimately show ?thesis by simp
qed

lemma args_stages:
  assumes "override_host p b = Inr b1" "foldr_res (apply_arg p) ARG_MAP b1 = Inr b2" "(dest, s, f, co) \<in> set ARG_MAP"
  shows "attr_get (section_of s b2) f = overridden p dest co (attr_get (section_of s b) f)"
proof -
  have "(s, f) \<in> set (targets ARG_MAP)" using assms(3) by (force simp: targets_def)
  then have "\<not> (s = SecAerospike \<and> f = ''hosts'')" using ARG_MAP_free(1) by auto
  then show ?thesis
    using apply_args_get [OF assms(2) ARG_MAP_distinct assms(3)] override_host_get [OF assms(1)] by simp
qed

lemma build_config_flags:
  assumes "build_config yaml provided = Inr c" "base_config yaml provided = Inr b"
    and "(dest, s, f, co) \<in> set ARG_MAP" "dest \<noteq> ''redis_match''"
  shows "attr_get (section_of s c) f = overridden provided dest co (attr_get (section_of s b) f)"
proof -
  have "\<not> (s = SecRedis \<and> f = ''scan_match'')" "\<not> (s = SecAerospike \<and> f = ''set_routes'')"
    using assms(3,4) by (auto simp: ARG_MAP_def)
  moreover obtain b1 b2 where b: "override_host provided b = Inr b1" "foldr_res (apply_arg provided) ARG_MAP b1 = Inr b2"
    "c = alias_key_pattern provided (append_routes provided b2)"
    using build_config_stages [OF assms(1,2)] by blast
  ultimately show ?thesis using args_stages [OF b(1,2) assms(3)] final_stages_keep by (simp add: b(3))
qed

lemma build_config_scan_match:
  assumes "build_config yaml provided = Inr c" "base_config yaml provided = Inr b"
  shows "attr_get (mo_redis c) ''scan_match'' = overridden provided ''redis_match'' NoCoerce
    (overridden provided ''redis_key_pattern'' NoCoerce (attr_get (mo_redis b) ''scan_match''))"
proof -
  obtain b1 b2 where b: "override_host provided b = Inr b1" "foldr_res (apply_arg provided) ARG_MAP b1 = Inr b2"
    "c = alias_key_pattern provided (append_routes provided b2)"
    using build_config_stages [OF assms] by blast
  have scan: "(''redis_match'', SecRedis, ''scan_match'', NoCoerce) \<in> set ARG_MAP" by (simp add: ARG_MAP_def)
  show ?thesis
    using args_stages [OF b(1,2) scan] alias_key_pattern_get [of SecRedis provided "append_routes provided b2" "''scan_match''"]
      append_routes_get [of SecRedis provided b2 "''scan_match''"]
    by (auto simp: b(3) overridden_def split: option.splits cfg_attr.splits)
qed

lemma build_config_routes:
  assumes "build_config yaml provided = Inr c" "base_config yaml provided = Inr b"
  shows "attr_get (mo_aerospike c) ''set_routes'' =
    (case (attr_get provided ''set_route'', attr_get (mo_aerospike b) ''set_routes'') of
       (Some (ARoutes new), Some (ARoutes old)) \<Rightarrow> Some (ARoutes (old @ new))
     | _ \<Rightarrow> attr_get (mo_aerospike b) ''set_routes'')"
proof -
  obtain b1 b2 where b: "override_host provided b = Inr b1" "foldr_res (apply_arg provided) ARG_MAP b1 = Inr b2"
    "c = alias_key_pattern provided (append_routes provided b2)"
    using build_config_stages [OF assms] by blast
  have "attr_get (mo_aerospike b2) ''set_routes'' = attr_get (mo_aerospike b) ''set_routes''"
    using apply_args_other [OF b(2) ARG_MAP_free(2)] override_host_get [OF b(1), of SecAerospike "''set_routes''"] by simp
  then show ?thesis
    using alias_key_pattern_get [of SecAerospike provided "append_routes provided b2" "''set_routes''"]
      append_routes_get [of SecAerospike provided b2 "''set_routes''"]
    by (auto simp: b(3) split: option.splits cfg_attr.splits)
qed

lemma build_config_hosts:
  assumes "build_config yaml provided = Inr c" "base_config yaml provided = Inr b"
  obtains b1 where "override_host provided b = Inr b1" "attr_get (mo_aerospike c) ''hosts'' = attr_get (mo_aerospike b1) ''hosts''"
    "attr_get (mo_aerospike c) ''max_record_size'' = attr_get (mo_aerospike b) ''max_record_size''"
proof -
  obtain b1 b2 where b: "override_host provided b = Inr b1" "foldr_res (apply_arg provided) ARG_MAP b1 = Inr b2"
    "c = alias_key_pattern provided (append_routes provided b2)"
    using build_config_stages [OF assms] by blast
  show thesis
  proof (rule that [OF b(1)])
    show "attr_get (mo_aerospike c) ''hosts'' = attr_get (mo_aerospike b1) ''hosts''"
      using final_stages_keep [of SecAerospike "''hosts''" provided b2] apply_args_other [OF b(2) ARG_MAP_free(1)]
      by (simp add: b(3))
    show "attr_get (mo_aerospike c) ''max_record_size'' = attr_get (mo_aerospike b) ''max_record_size''"
      using final_stages_keep [of SecAerospike "''max_record_size''" provided b2] apply_args_other [OF b(2) ARG_MAP_free(3)]
        override_host_get [OF b(1), of SecAerospike "''max_record_size''"]
      by (simp add: b(3))
  qed
qed

text \<open>The hosts that the flags leave.\<close>

definition overridden_hosts :: "namespace \<Rightarrow> cfg_obj \<Rightarrow> cfg_attr option" where
  "overridden_hosts provided aero =
     (case (attr_get provided ''aerospike_host'', attr_get provided ''aerospike_port'', first_host aero) of
        (None, None, _) \<Rightarrow> attr_get aero ''hosts''
      | (Some h, Some p, _) \<Rightarrow> Some (AVal (PList [PTuple [attr_val h, attr_val p]]))
      | (Some h, None, Inr (h0, p0)) \<Rightarrow> Some (AVal (PList [PTuple [attr_val h, attr_val p0]]))
      | (None, Some p, Inr (h0, p0)) \<Rightarrow> Some (AVal (PList [PTuple [attr_val h0, attr_val p]]))
      | _ \<Rightarrow> None)"

lemma override_host_hosts:
  "override_host p b = Inr b1 \<Longrightarrow> attr_get (mo_aerospike b1) ''hosts'' = overridden_hosts p (mo_aerospike b)"
  by (auto simp: override_host_def overridden_hosts_def rmap_eq_Inr attr_get_def kget_kset Let_def split: if_splits option.splits)

text \<open>
  C31 The precedence of the configuration of a run, attribute by attribute: a flag that was passed
  wins, coerced to its enumeration where it has one; otherwise the attribute is that of the
  configuration file, and without a file the default. The alias of the scan filter counts only when
  the filter itself was not passed, routes of the flags follow those of the file, either half of the
  host and port pair falls back to the first host of the file, and no flag sets the record size.
\<close>

theorem build_config_precedence:
  assumes "build_config yaml provided = Inr c" "base_config yaml provided = Inr b"
  shows "(\<forall>dest s f co. (dest, s, f, co) \<in> set ARG_MAP \<longrightarrow> dest \<noteq> ''redis_match'' \<longrightarrow>
      attr_get (section_of s c) f = overridden provided dest co (attr_get (section_of s b) f))
    \<and> attr_get (mo_redis c) ''scan_match'' = overridden provided ''redis_match'' NoCoerce
        (overridden provided ''redis_key_pattern'' NoCoerce (attr_get (mo_redis b) ''scan_match''))
    \<and> attr_get (mo_aerospike c) ''set_routes'' =
        (case (attr_get provided ''set_route'', attr_get (mo_aerospike b) ''set_routes'') of
           (Some (ARoutes new), Some (ARoutes old)) \<Rightarrow> Some (ARoutes (old @ new))
         | _ \<Rightarrow> attr_get (mo_aerospike b) ''set_routes'')
    \<and> attr_get (mo_aerospike c) ''hosts'' = overridden_hosts provided (mo_aerospike b)
    \<and> attr_get (mo_aerospike c) ''max_record_size'' = attr_get (mo_aerospike b) ''max_record_size''"
proof (intro conjI allI impI)
  show "attr_get (section_of s c) f = overridden provided dest co (attr_get (section_of s b) f)"
    if "(dest, s, f, co) \<in> set ARG_MAP" "dest \<noteq> ''redis_match''" for dest s f co
    using build_config_flags [OF assms that] .
  obtain b1 where b1: "override_host provided b = Inr b1" "attr_get (mo_aerospike c) ''hosts'' = attr_get (mo_aerospike b1) ''hosts''"
    "attr_get (mo_aerospike c) ''max_record_size'' = attr_get (mo_aerospike b) ''max_record_size''"
    using build_config_hosts [OF assms] by blast
  show "attr_get (mo_aerospike c) ''hosts'' = overridden_hosts provided (mo_aerospike b)"
    "attr_get (mo_aerospike c) ''max_record_size'' = attr_get (mo_aerospike b) ''max_record_size''"
    using override_host_hosts [OF b1(1)] b1(2,3) by simp_all
qed (use build_config_scan_match [OF assms] build_config_routes [OF assms] in auto)

text \<open>Flags on top of a file.\<close>

definition ref_args :: namespace where
  "ref_args = [(L ''config'', AStr (L ''run.yaml'')), (L ''workers'', AInt 2), (L ''aerospike_port'', AInt 4000)]"

theorem build_config_precedence_witness:
  "\<exists>c. build_config (\<lambda>path. Inr (PDict ref_doc)) ref_args = Inr c \<and>
     attr_get (mo_top c) ''workers'' = Some (AInt 2) \<and> attr_get (mo_top c) ''hash_strategy'' = Some (AHash FIELD_BINS) \<and>
     attr_get (mo_redis c) ''scan_match'' = Some (AStr (L ''user:*'')) \<and>
     attr_get (mo_aerospike c) ''hosts'' = Some (AVal (PList [PTuple [PS (SStr (L ''localhost'')), PS (SInt 4000)]]))"
proof -
  let ?yaml = "\<lambda>path. Inr (PDict ref_doc)"
  obtain b where b: "MigrationConfig_from_dict (PDict ref_doc) = Inr b" "attr_get (mo_top b) ''workers'' = Some (AInt 4)"
    "attr_get (mo_top b) ''hash_strategy'' = Some (AHash FIELD_BINS)" "attr_get (mo_redis b) ''scan_match'' = Some (AStr (L ''user:*''))"
    "attr_get (mo_aerospike b) ''hosts'' = Some (AVal (PList [PTuple [PS (SStr (L ''localhost'')), PS (SInt 3000)]]))"
    using ref_doc_loaded by blast
  have base: "base_config ?yaml ref_args = Inr b"
    using b(1) by (simp add: base_config_def ref_args_def attr_get_def MigrationConfig_from_yaml_def)
  have host: "first_host (mo_aerospike b) = Inr (AStr (L ''localhost''), AInt 3000)" by (simp add: first_host_def b(5))
  obtain c where c: "build_config ?yaml ref_args = Inr c"
    using base host by (simp add: build_config_def override_host_def rmap_def ARG_MAP_def)
      (simp add: ref_args_def attr_get_def)
  note prec = build_config_precedence [OF c base]
  have mem: "(''workers'', SecTop, ''workers'', NoCoerce) \<in> set ARG_MAP"
    "(''hash_strategy'', SecTop, ''hash_strategy'', CoerceHash) \<in> set ARG_MAP" by (simp_all add: ARG_MAP_def)
  have "attr_get (mo_top c) ''workers'' = Some (AInt 2)" "attr_get (mo_top c) ''hash_strategy'' = Some (AHash FIELD_BINS)"
    using conjunct1 [OF prec] mem b by (force simp: overridden_def ref_args_def attr_get_def)+
  moreover have "attr_get (mo_redis c) ''scan_match'' = Some (AStr (L ''user:*''))"
    "attr_get (mo_aerospike c) ''hosts'' = Some (AVal (PList [PTuple [PS (SStr (L ''localhost'')), PS (SInt 4000)]]))"
    using prec b by (auto simp: overridden_def overridden_hosts_def first_host_def ref_args_def attr_get_def)
  ultimately show ?thesis using c by blast
qed

section \<open>Route tokens\<close>

lemma parse_set_route_cli_valid: "parse_set_route_cli token = Inr r \<Longrightarrow> valid_route r"
  by (auto simp: parse_set_route_cli_def parse_set_routes_def Let_def rbind_eq_Inr rmap_eq_Inr
      split: if_splits dest!: parse_set_route_valid)

text \<open>The token of a route, as the help of the flag describes it.\<close>

definition route_token :: "AerospikeSetRoute \<Rightarrow> pystr" where
  "route_token r =
     pattern r @ [61] @ destination r
     @ (case route_hash_strategy r of None \<Rightarrow> [] | Some h \<Rightarrow> [61] @ HashStrategy_value h)
     @ (case route_value_bin r of None \<Rightarrow> [] | Some b \<Rightarrow> [61] @ b)"

lemma py_split_max_first: "sep \<notin> set a \<Longrightarrow> py_split_max sep (Suc n) (a @ [sep] @ b) = a # py_split_max sep n b"
  by (induction a) auto

lemma py_split_max_none: "sep \<notin> set a \<Longrightarrow> py_split_max sep n a = [a]"
proof (induction a)
  case Nil
  then show ?case by (cases n) auto
next
  case (Cons c a)
  then show ?case by (cases n) auto
qed

lemma HashStrategy_of_value: "HashStrategy_of (PS (SStr (HashStrategy_value h))) = Inr h"
  by (cases h) (simp_all add: HashStrategy_of_def enum_of_def)

lemma HashStrategy_value_plain:
  "61 \<notin> set (HashStrategy_value h)" "py_strip (HashStrategy_value h) = HashStrategy_value h" "HashStrategy_value h \<noteq> []"
  by (cases h; simp add: L_def py_strip_def is_space_def)+

lemma validate_label_id:
  "s \<noteq> [] \<Longrightarrow> 0 \<notin> set s \<Longrightarrow> length s \<le> MAX_AEROSPIKE_SET_NAME_LEN \<Longrightarrow> py_strip s = s \<Longrightarrow>
     validate_aerospike_set_label (PS (SStr s)) = Inr s"
  by (simp add: validate_aerospike_set_label_def)

text \<open>
  A route whose names carry no surrounding space and no equals sign is read back from its token; a bin
  name needs the strategy that uses it.
\<close>

lemma route_token_roundtrip:
  assumes "valid_route r" "py_strip (pattern r) = pattern r" "py_strip (destination r) = destination r"
    and "61 \<notin> set (pattern r)" "61 \<notin> set (destination r)"
    and "\<And>b. route_value_bin r = Some b \<Longrightarrow> py_strip b = b \<and> route_hash_strategy r = Some MAP_BIN"
  shows "parse_set_route_cli (route_token r) = Inr r"
proof -
  note v = assms(1) [unfolded valid_route_def]
  note lab = validate_label_id [of "pattern r"] validate_label_id [of "destination r"]
  have eq: "61 \<in> set (route_token r)" by (simp add: route_token_def)
  have parts: "py_split_max 61 3 (route_token r) = [pattern r, destination r]
      @ (case route_hash_strategy r of None \<Rightarrow> [] | Some h \<Rightarrow> [HashStrategy_value h])
      @ (case route_value_bin r of None \<Rightarrow> [] | Some b \<Rightarrow> [b])"
    using assms(4-6) HashStrategy_value_plain(1)
    by (auto simp: route_token_def numeral_3_eq_3 py_split_max_first [simplified] py_split_max_none
        simp del: HashStrategy_value.simps split: option.splits)
  have bits: "route_value_bin r = Some b \<Longrightarrow> py_strip b = b \<and> b \<noteq> [] \<and> route_hash_strategy r = Some MAP_BIN" for b
    using assms(6) v by auto
  show ?thesis
    using v lab assms(2,3) bits
    by (cases "route_hash_strategy r"; cases "route_value_bin r")
      (auto simp: parse_set_route_cli_def eq parts Let_def parse_set_routes_def parse_set_route_def doc_get_def rmap_def
        HashStrategy_of_value HashStrategy_value_plain simp del: HashStrategy_value.simps)
qed

section \<open>Ends of the program\<close>

text \<open>
  \<open>content\<close> is what the database stores. A client whose status request and whose close leave it alone:
\<close>

definition reads_only :: "('c \<Rightarrow> 'd) \<Rightarrow> 'c aclient \<Rightarrow> bool" where
  "reads_only content c \<longleftrightarrow>
     (\<forall>v q. content (snd (cl_info_all c v q)) = content v) \<and> (\<forall>v. content (snd (cl_close c v)) = content v)"

lemma sink_close_content: "sk_client sink = Some c \<Longrightarrow> reads_only content c \<Longrightarrow> content (sink_close sink v) = content v"
  by (simp add: sink_close_def reads_only_def)

lemma sink_server_info_content:
  assumes "sk_client sink = Some c" "reads_only content c" "sink_server_info sink v = (r, v')"
  shows "content v' = content v"
proof -
  have "v' = snd (cl_info_all c v (L ''namespace/'' @ ac_namespace (sk_config sink)))"
    using assms(1,3) by (auto simp: sink_server_info_def Let_def split: prod.splits sum.splits)
  then show ?thesis using assms(2) by (simp add: reads_only_def)
qed

text \<open>What the block before the run can end with.\<close>

lemma main_connected_outcome:
  assumes "sk_client sink = Some c" "reads_only content c"
    and "main_connected env config dry source registry sink w v = (lg, st)"
  shows "case st of
     Ended r w' v' \<Rightarrow> content v' = content v \<and>
       (r = Exit 2 \<and> (\<exists>t. last lg = LogBlocked t) \<or> r = Exit 0 \<and> dry \<and> last lg = DryRunDone \<or> (\<exists>e. r = Raised e))
   | Ready config' source' registry' sink' w1 v1 \<Rightarrow>
       content v1 = content v \<and> \<not> dry \<and> sk_client sink' = Some c \<and> (\<exists>t. LogPreview t \<in> set lg)"
proof -
  obtain ri w1 where ri: "source_server_info source w = (ri, w1)" by (cases "source_server_info source w")
  obtain ai v1 where ai: "sink_server_info sink v = (ai, v1)" by (cases "sink_server_info sink v")
  have v1: "content v1 = content v" "content (sink_close sink v1) = content v"
    using sink_server_info_content [OF assms(1,2) ai] sink_close_content [OF assms(1,2)] by simp_all
  show ?thesis
    using assms(1,3) v1
    by (auto simp: main_connected_def ri ai close_both_def Let_def split: sum.splits prod.splits option.splits if_splits)
qed

lemma main_start_outcome:
  assumes "\<forall>s c. ce_aerospike env s = Inr c \<longrightarrow> reads_only content c"
    and "main_start env config dry w v = (lg, st)"
  shows "case st of
     Ended r w' v' \<Rightarrow> content v' = content v \<and>
       (r = Exit 2 \<and> (last lg \<in> {CannotReachRedis, CannotReachAerospike} \<or> (\<exists>t. last lg = LogBlocked t)) \<or>
        r = Exit 0 \<and> dry \<and> last lg = DryRunDone \<or> (\<exists>e. r = Raised e))
   | Ready config' source registry sink w1 v1 \<Rightarrow> content v1 = content v \<and> \<not> dry \<and> (\<exists>t. LogPreview t \<in> set lg)"
proof -
  have conn: "\<exists>c. sk_client sink = Some c \<and> reads_only content c"
    if "sink_connect (ce_aerospike env) \<lparr>sk_config = cfg, sk_client = None, sk_module = m\<rparr> = Inr sink" for cfg m sink
    using that assms(1) by (auto simp: sink_connect_def rmap_eq_Inr)
  show ?thesis
  proof (cases "\<exists>source registry sink w1. main_connected env config dry source registry sink w1 v = (lg, st) \<and>
      (\<exists>c. sk_client sink = Some c \<and> reads_only content c)")
    case True
    then obtain source registry sink w1 c where
      c: "main_connected env config dry source registry sink w1 v = (lg, st)" "sk_client sink = Some c" "reads_only content c"
      by blast
    show ?thesis using main_connected_outcome [OF c(2,3,1)] by (cases st) auto
  next
    case False
    then show ?thesis using assms(2) conn
      by (fastforce simp: main_start_def split: sum.splits prod.splits)
  qed
qed

text \<open>
  C33 Only a run writes: when the program is called with \<^verbatim>\<open>--dry-run\<close>, or when it ends with exit code 2
  (a server cannot be reached, or the namespace cannot expire the keys that Redis would), the
  database stores what it stored before. Exit code 2 always comes with the log entry that explains it.
\<close>

theorem main_writes_only_in_run:
  assumes "main env fl args w v lg r w' v'"
    and "\<forall>s c. ce_aerospike env s = Inr c \<longrightarrow> reads_only content c"
    and "flag_set args ''dry_run'' \<or> r = Exit 2"
  shows "content v' = content v \<and>
    (r = Exit 2 \<longrightarrow> last lg \<in> {CannotReachRedis, CannotReachAerospike} \<or> (\<exists>t. last lg = LogBlocked t))"
  using assms(1)
proof (cases rule: main.cases)
  case (ended obj config)
  show ?thesis using main_start_outcome [OF assms(2) ended(4)] by auto
next
  case (ran obj config lg1 config' source registry sink w1 v1 fuel records exn w2 now s now' lg2)
  have "\<not> flag_set args ''dry_run''" using main_start_outcome [OF assms(2) ran(7)] by simp
  moreover have "r \<noteq> Exit 2" using ran(11) by (auto simp: main_finish_def Let_def split: sum.splits if_splits)
  ultimately show ?thesis using assms(3) by blast
qed auto

lemma main_exit_codes_cases:
  assumes "main env fl args w v lg (Exit n) w' v'"
    and "\<forall>s c. ce_aerospike env s = Inr c \<longrightarrow> reads_only content c"
  shows "n = 0 \<or> n = 1 \<or> n = 2"
  using assms(1)
proof (cases rule: main.cases)
  case (ended obj config)
  show ?thesis using main_start_outcome [OF assms(2) ended(4)] by auto
next
  case (ran obj config lg1 config' source registry sink w1 v1 fuel records exn w2 now s now' lg2)
  show ?thesis using ran(11) by (auto simp: main_finish_def Let_def split: sum.splits if_splits)
qed auto

text \<open>
  C35 The exit code tells what happened to the records: 0 after a completion script, after a dry run or
  after a run in which every record that was read is migrated or skipped; 1 after a run in which every
  record is accounted for and some failed; 2 only before a run; there are no others.
\<close>

theorem main_exit_codes:
  fixes env :: "('w, 'c) cli_env"
  assumes "main env fl args w v lg (Exit n) w' v'"
    and "\<forall>s c. ce_aerospike env s = Inr c \<longrightarrow> reads_only content c"
  shows "n = 0 \<and> flag_set args ''print_completion'' \<and> w' = w \<and> v' = v \<or>
    n = 0 \<and> flag_set args ''dry_run'' \<and> last lg = DryRunDone \<and> content v' = content v \<or>
    n = 2 \<and> content v' = content v \<or>
    n \<in> {0, 1} \<and> \<not> flag_set args ''dry_run'' \<and> (\<exists>t. LogPreview t \<in> set lg) \<and>
    (\<exists>obj config0 lg0 config (source :: 'w RedisSource) registry sink w1 v1 fuel records w2 now s.
       build_config (ce_yaml env) args = Inr obj \<and> MigrationConfig_view obj = Some config0 \<and>
       main_start env config0 False w v = (lg0, Ready config source registry sink w1 v1) \<and>
       iter_records fuel source w1 (mc_scan_batch config) = Some ((records, None), w2) \<and>
       reachable (Migrator_init config None sink) fl (run_init (Migrator_init config None sink) registry now records None v1) s \<and>
       v' = sink_close sink (rn_db s) \<and>
       st_migrated (rn_stats s) + st_skipped (rn_stats s) + st_errors (rn_stats s) = int (length records) \<and>
       (n = 0 \<longleftrightarrow> st_errors (rn_stats s) = 0))"
  using assms(1)
proof (cases rule: main.cases)
  case (ended obj config)
  show ?thesis using main_start_outcome [OF assms(2) ended(4)] by auto
next
  case (ran obj config lg1 config' source registry sink w1 v1 fuel records exn w2 now s now' lg2)
  let ?mg = "Migrator_init config' None sink"
  have start: "\<not> flag_set args ''dry_run''" "\<exists>t. LogPreview t \<in> set lg"
    using main_start_outcome [OF assms(2) ran(7)] ran(1) by auto
  have "rn_source_exn s = exn" using reachable_source_exn [OF ran(9)] by (simp add: run_init_def)
  then have res: "exn = None" "n = 0 \<longleftrightarrow> st_errors (rn_stats s) = 0" "n \<in> {0, 1}"
    using ran(11) by (auto simp: main_finish_def run_result_def Let_def split: option.splits if_splits)
  have "sentinels_ok s" using am.reachable_inv [OF ran(9)] by blast
  then have stuck: "\<nexists>s'. step ?mg fl s s'" using finished_stuck ran(10) by blast
  have count: "st_migrated (rn_stats s) + st_skipped (rn_stats s) + st_errors (rn_stats s) = int (length records)"
    using cm.finished_complete [OF ran(9) stuck] by (simp add: counted_def)
  have "iter_records fuel source w1 (mc_scan_batch config') = Some ((records, None), w2)"
    "reachable ?mg fl (run_init ?mg registry now records None v1) s"
    using ran(8,9) res(1) by simp_all
  moreover have "main_start env config False w v = (lg1, Ready config' source registry sink w1 v1)"
    using ran(7) start(1) by simp
  ultimately show ?thesis using start res(2,3) count ran(3,5,6) by blast
qed auto

section \<open>A reference environment\<close>

text \<open>The reference servers, with an Aerospike client that reports nothing about its namespace.\<close>

definition ref_env :: "(unit, ref_store) cli_env" where
  "ref_env =
     \<lparr>ce_redis = (\<lambda>p. Inr ref_redis), ce_aerospike = (\<lambda>s. Inr (ref_client\<lparr>cl_info_all := \<lambda>w q. (Inl RuntimeError, w)\<rparr>)),
      ce_module = ref_module, ce_yaml = (\<lambda>path. Inr (PS SNone)), ce_printable = (\<lambda>c. True)\<rparr>"

lemma ref_env_reads_only: "\<forall>s c. ce_aerospike ref_env s = Inr c \<longrightarrow> reads_only (\<lambda>w. w) c"
  by (simp add: ref_env_def reads_only_def ref_client_def)

definition dry_args :: "bool \<Rightarrow> namespace" where
  "dry_args b = [(L ''dry_run'', ABool b)]"

lemma dry_args_config: "build_config yaml (dry_args b) = Inr MigrationConfig_obj_default"
proof -
  have none: "attr_get (dry_args b) n = None" if "n \<noteq> ''dry_run''" for n
    using that by (auto simp: attr_get_def dry_args_def)
  have "foldr_res (apply_arg (dry_args b)) ARG_MAP c = Inr c" for c
    by (simp add: ARG_MAP_def none)
  then show ?thesis
    by (simp add: build_config_def base_config_def override_host_def append_routes_def alias_key_pattern_def none)
qed

lemma dry_args_flags: "flag_set (dry_args b) ''dry_run'' = b" "\<not> flag_set (dry_args b) ''print_completion''"
  by (simp_all add: flag_set_def attr_get_def dry_args_def)

definition ref_cli_sink :: "ref_store AerospikeSink" where
  "ref_cli_sink =
     \<lparr>sk_config = AerospikeConfig_default, sk_client = Some (ref_client\<lparr>cl_info_all := \<lambda>w q. (Inl RuntimeError, w)\<rparr>),
      sk_module = ref_module\<rparr>"

lemma ref_connected:
  obtains lg where "\<And>b. main_connected ref_env MigrationConfig_default b (ref_source False) ref_registry ref_cli_sink () v =
    (if b then (lg @ [DryRunDone], Ended (Exit 0) () v)
     else (lg @ [log_migration_banner], Ready MigrationConfig_default (ref_source False) ref_registry ref_cli_sink () v))"
proof -
  obtain ri where ri: "source_server_info (ref_source False) () = (ri, ())"
    by (cases "source_server_info (ref_source False) ()") simp
  have info: "sink_server_info ref_cli_sink x = (Inr None, x)" "sink_close ref_cli_sink x = x" for x
    by (simp_all add: sink_server_info_def sink_close_def ref_cli_sink_def ref_client_def)
  have "ref_cli_sink\<lparr>sk_config := mc_aerospike MigrationConfig_default\<rparr> = ref_cli_sink"
    by (simp add: ref_cli_sink_def MigrationConfig_default_def)
  then show thesis
    by (intro that [of "[LogPreview (render_preview (ce_printable ref_env) MigrationConfig_default ri None)]"])
      (simp add: main_connected_def ri info apply_server_info_def ttl_migration_blocked_reason_def close_both_def)
qed

lemma ref_main_start:
  "main_start ref_env MigrationConfig_default b () v =
     main_connected ref_env MigrationConfig_default b (ref_source False) ref_registry ref_cli_sink () v"
proof -
  have "registry_from_config MigrationConfig_default = Inr ref_registry"
    by (simp add: ref_registry_def registry_from_config_eq)
  moreover have "RedisSource_init (ce_redis ref_env) (mc_redis MigrationConfig_default) None = Inr (ref_source False)"
    by (simp add: RedisSource_init_def ref_env_def ref_source_def MigrationConfig_default_def RedisConfig_default_def)
  moreover have "source_ping (ref_source False) () = (Inr True, ())" by (simp add: source_ping_def ref_source_def ref_redis_def)
  moreover have "sink_connect (ce_aerospike ref_env) \<lparr>sk_config = mc_aerospike MigrationConfig_default, sk_client = None,
      sk_module = ce_module ref_env\<rparr> = Inr ref_cli_sink"
    by (simp add: sink_connect_def ref_env_def ref_cli_sink_def MigrationConfig_default_def)
  ultimately show ?thesis by (simp add: main_start_def)
qed

theorem main_writes_only_in_run_witness:
  "\<exists>lg v'. main ref_env exact (dry_args True) () (\<lambda>k. None) lg (Exit 0) () v' \<and> v' = (\<lambda>k. None)"
proof -
  obtain lg where "main_start ref_env MigrationConfig_default True () (\<lambda>k. None) = (lg, Ended (Exit 0) () (\<lambda>k. None))"
    using ref_connected [of "\<lambda>k. None"] by (metis ref_main_start)
  then have m: "main ref_env exact (dry_args True) () (\<lambda>k. None) lg (Exit 0) () (\<lambda>k. None)"
    using main.ended [OF dry_args_flags(2) dry_args_config view_default] by (simp add: dry_args_flags)
  from main_writes_only_in_run [OF m ref_env_reads_only] show ?thesis using m by (auto simp: dry_args_flags)
qed

theorem main_exit_codes_witness:
  "\<exists>lg n v'. main ref_env exact (dry_args False) () (\<lambda>k. None) lg (Exit n) () v' \<and> n \<in> {0, 1}"
proof -
  let ?mg = "Migrator_init MigrationConfig_default None ref_cli_sink"
  let ?s0 = "run_init ?mg ref_registry 0 (map (db_record ref_db) [[107]]) None (\<lambda>k. None)"
  obtain lg where st: "main_start ref_env MigrationConfig_default False () (\<lambda>k. None) =
      (lg, Ready MigrationConfig_default (ref_source False) ref_registry ref_cli_sink () (\<lambda>k. None))"
    using ref_connected [of "\<lambda>k. None"] by (metis ref_main_start)
  have src: "\<not> rs_cluster (ref_source False)" "rs_client (ref_source False) = ref_redis"
    by (simp_all add: ref_source_def rs_cluster_def)
  have live: "filter (\<lambda>k. ref_db k \<noteq> None) (concat (map snd [(7, [[107]]), (0, [[120]])])) = [[107]]" by (simp add: ref_db_def)
  have it: "iter_records 2 (ref_source False) () (mc_scan_batch MigrationConfig_default) =
      Some ((map (db_record ref_db) [[107]], None), ())"
    using scan_loop_quiet [OF ref_db_ok, of "ref_source False", unfolded src, OF ref_quiet ref_pages order_refl] live src
    by (simp add: iter_records_def numeral_2_eq_2)
  obtain s where s: "reachable ?mg exact ?s0 s" "rn_producer s = Finished"
    using cm.can_finish [of MigrationConfig_default ref_cli_sink exact] unfolding reachable_def by blast
  have "rn_source_exn s = None" using reachable_source_exn [OF s(1)] by (simp add: run_init_def)
  then obtain lg' n where fin: "main_finish exact 0 (run_result s) = (lg', Exit n)" and n: "n \<noteq> 2"
    by (cases "st_errors (rn_stats s) = 0") (simp_all add: main_finish_def run_result_def)
  have m: "main ref_env exact (dry_args False) () (\<lambda>k. None) (lg @ lg') (Exit n) () (sink_close ref_cli_sink (rn_db s))"
    using main.ran [OF dry_args_flags(2) dry_args_config view_default _ it s fin] st by (simp add: dry_args_flags)
  have "n \<in> {0, 1}" using main_exit_codes [OF m ref_env_reads_only] n by (auto simp: dry_args_flags)
  then show ?thesis using m by blast
qed

end
