(* ===== verification/Args_Facts.thy ===== *)
theory Args_Facts
  imports Args Cli_Facts
begin

text \<open>
  What the argument parser guarantees to the rest of the program: the namespace holds only values of
  the type and among the choices that an option declares, and the table that maps options to
  attributes agrees with the declared types, so flags keep a well-typed configuration well-typed.
\<close>

section \<open>Well-typed namespaces\<close>

text \<open>The values that an option stores.\<close>

fun shape :: "arg_type \<Rightarrow> cfg_attr \<Rightarrow> bool" where
  "shape TStr (AVal (PS (SStr s))) = True"
| "shape TInt (AVal (PS (SInt i))) = True"
| "shape TFloat (AVal (PS (SFloat x))) = True"
| "shape TExists (AExists p) = True"
| "shape TRoute (ARoutes rs) = list_all valid_route rs"
| "shape ty a = False"

definition arg_ok :: "arg_action \<Rightarrow> cfg_attr \<Rightarrow> bool" where
  "arg_ok a v \<longleftrightarrow>
     aa_default a = Some v \<or>
     (if takes_value a then shape (aa_type a) v \<and> (aa_kind a = Store \<longrightarrow> choice_ok a v) else v = ABool True)"

definition ns_ok :: "arg_action list \<Rightarrow> namespace \<Rightarrow> bool" where
  "ns_ok parser ns \<longleftrightarrow>
     (\<forall>dest v. dict_get ns dest = Some v \<longrightarrow> (\<exists>a \<in> set parser. L (aa_dest a) = dest \<and> arg_ok a v))"

lemma ns_ok_get: "ns_ok parser ns \<Longrightarrow> attr_get ns dest = Some v \<Longrightarrow> \<exists>a \<in> set parser. aa_dest a = dest \<and> arg_ok a v"
  unfolding ns_ok_def attr_get_def by (drule spec [of _ "L dest"]) simp

lemma ns_ok_set: "ns_ok parser ns \<Longrightarrow> a \<in> set parser \<Longrightarrow> arg_ok a v \<Longrightarrow> ns_ok parser (dict_set (L (aa_dest a)) v ns)"
  by (auto simp: ns_ok_def kget_kset)

lemma convert_arg_shape: "convert_arg ty s = Inr v \<Longrightarrow> shape ty v"
  by (cases ty) (auto simp: rmap_eq_Inr dest: parse_set_route_cli_valid)

text \<open>
  Destinations name one option each, and only the option of the routes appends; it has neither
  choices nor a default.
\<close>

definition parser_ok :: "arg_action list \<Rightarrow> bool" where
  "parser_ok parser \<longleftrightarrow>
     distinct (map aa_dest parser) \<and>
     list_all (\<lambda>a. aa_kind a = Append \<longrightarrow> aa_type a = TRoute \<and> aa_default a = None) parser"

lemma parser_dest:
  "parser_ok parser \<Longrightarrow> a \<in> set parser \<Longrightarrow> b \<in> set parser \<Longrightarrow> aa_dest a = aa_dest b \<Longrightarrow> a = b"
  by (auto simp: parser_ok_def distinct_map dest: inj_onD)

lemma take_value_ok:
  assumes "parser_ok parser" "ns_ok parser ns" "a \<in> set parser" "takes_value a" "take_value a s ns = Some ns'"
  shows "ns_ok parser ns'"
proof -
  obtain v where v: "convert_arg (aa_type a) s = Inr v" "choice_ok a v" and
    ns': "ns' = dict_set (L (aa_dest a)) (if aa_kind a = Append then (case (attr_get ns (aa_dest a), v) of
             (Some (ARoutes old), ARoutes new) \<Rightarrow> ARoutes (old @ new) | _ \<Rightarrow> v) else v) ns"
    using assms(5) by (auto simp: take_value_def split: sum.splits if_splits)
  note sh = convert_arg_shape [OF v(1)]
  have "list_all valid_route old" if r: "attr_get ns (aa_dest a) = Some (ARoutes old)" "aa_kind a = Append" for old
  proof -
    obtain b where b: "b \<in> set parser" "aa_dest b = aa_dest a" "arg_ok b (ARoutes old)"
      using ns_ok_get [OF assms(2) r(1)] by blast
    then have "b = a" using parser_dest [OF assms(1)] assms(3) by blast
    then show ?thesis using b(3) r(2) assms(1,3,4) by (auto simp: arg_ok_def parser_ok_def list_all_iff)
  qed
  then have "arg_ok a (if aa_kind a = Append then (case (attr_get ns (aa_dest a), v) of
             (Some (ARoutes old), ARoutes new) \<Rightarrow> ARoutes (old @ new) | _ \<Rightarrow> v) else v)"
    using assms(1,3,4) sh v(2)
    by (auto simp: arg_ok_def parser_ok_def list_all_iff split: option.splits cfg_attr.splits)
  then show ?thesis unfolding ns' using ns_ok_set [OF assms(2,3)] by blast
qed

fun token_ok :: "arg_action list \<Rightarrow> token \<Rightarrow> bool" where
  "token_ok parser (Opt a name ex) = (a \<in> set parser)"
| "token_ok parser t = True"

lemma consume_ok:
  assumes "parser_ok parser" "list_all (\<lambda>p. token_ok parser (fst p)) ts" "ns_ok parser ns" "consume ts ns extras = Parsed ns'"
  shows "ns_ok parser ns'"
  using assms(2-4)
proof (induction ts ns extras rule: consume.induct)
  case (2 a name eq ex s ts ns extras)
  then show ?case using take_value_ok [OF assms(1)] by (auto split: if_splits option.splits)
next
  case (3 a name s ts ns extras)
  have "arg_ok a (ABool True)" if "\<not> takes_value a" using that by (simp add: arg_ok_def)
  then show ?case using 3 take_value_ok [OF assms(1)] ns_ok_set
    by (auto split: if_splits option.splits list.splits token.splits prod.splits)
qed (auto split: if_splits)

lemma option_table_get: "dict_get (option_table parser) s = Some a \<Longrightarrow> a \<in> set parser"
  using kget_SomeD [of "\<lambda>k. k" "option_table parser" s a] by (auto simp: option_table_def)

lemma option_tuples_ok: "list_all (token_ok parser) (get_option_tuples parser s)"
  by (auto simp: get_option_tuples_def list_all_iff List.map_filter_def option_table_def Let_def
      split: if_splits option.splits)

lemma parse_optional_ok: "parse_optional parser s = Some t \<Longrightarrow> token_ok parser t"
  using option_tuples_ok [of parser s] option_table_get
  by (auto simp: parse_optional_def split: if_splits option.splits list.splits bind_splits)

lemma classify_ok: "classify parser argv = Some ts \<Longrightarrow> list_all (\<lambda>p. token_ok parser (fst p)) ts"
proof (induction argv arbitrary: ts)
  case (Cons s argv)
  then show ?case using parse_optional_ok [of parser s]
    by (fastforce simp: list_all_iff split: if_splits bind_splits)
qed simp

lemma default_namespace_ok: "ns_ok parser (default_namespace parser)"
  unfolding ns_ok_def
proof (intro allI impI)
  fix dest v assume "dict_get (default_namespace parser) dest = Some v"
  then show "\<exists>a \<in> set parser. L (aa_dest a) = dest \<and> arg_ok a v"
    using kget_SomeD [of "\<lambda>k. k" "default_namespace parser" dest v]
    by (auto simp: default_namespace_def List.map_filter_def arg_ok_def)
qed

lemmas parser_defs = build_parser_def help_action_def general_options_def redis_options_def aerospike_options_def
  pipeline_options_def run_options_def opt_def

lemma build_parser_ok: "parser_ok build_parser"
  by (simp add: parser_ok_def parser_defs)

lemma parse_with_ok: "parser_ok parser \<Longrightarrow> parse_with parser argv = Parsed ns \<Longrightarrow> ns_ok parser ns"
  using consume_ok [OF _ classify_ok default_namespace_ok]
  by (auto simp: parse_with_def split: option.splits)

lemma parse_args_ok: "parse_args argv = Parsed ns \<Longrightarrow> ns_ok build_parser ns"
  using parse_with_ok [OF build_parser_ok] by (simp add: parse_args_def)

section \<open>Flags keep a configuration well-typed\<close>

text \<open>The types the dataclasses declare.\<close>

datatype attr_kind = KText | KOptText | KInteger | KFlag | KNumber | KOptNumber | KHosts | KRoutes | KExists | KHash | KTtl

fun has_kind :: "attr_kind \<Rightarrow> cfg_attr \<Rightarrow> bool" where
  "has_kind KText a = (as_text a \<noteq> None)"
| "has_kind KOptText a = (as_opt_text a \<noteq> None)"
| "has_kind KInteger a = (as_integer a \<noteq> None)"
| "has_kind KFlag a = (as_flag a \<noteq> None)"
| "has_kind KNumber a = (as_number a \<noteq> None)"
| "has_kind KOptNumber a = (as_opt_number a \<noteq> None)"
| "has_kind KHosts a = (as_hosts a \<noteq> None)"
| "has_kind KRoutes a = (as_routes a \<noteq> None)"
| "has_kind KExists a = (as_exists a \<noteq> None)"
| "has_kind KHash a = (as_hash a \<noteq> None)"
| "has_kind KTtl a = (as_ttl a \<noteq> None)"

definition redis_kinds :: "(string \<times> attr_kind) list" where
  "redis_kinds =
     [(''host'', KText), (''port'', KInteger), (''db'', KInteger), (''url'', KOptText), (''cluster'', KFlag),
      (''username'', KOptText), (''password'', KOptText), (''ssl'', KFlag), (''ssl_ca_certs'', KOptText),
      (''ssl_certfile'', KOptText), (''ssl_keyfile'', KOptText), (''ssl_cert_reqs'', KOptText),
      (''socket_timeout'', KOptNumber), (''socket_connect_timeout'', KOptNumber), (''scan_match'', KText)]"

definition aerospike_kinds :: "(string \<times> attr_kind) list" where
  "aerospike_kinds =
     [(''hosts'', KHosts), (''use_services_alternate'', KFlag), (''username'', KOptText), (''password'', KOptText),
      (''auth_mode'', KOptText), (''tls_enable'', KFlag), (''tls_name'', KOptText), (''tls_cafile'', KOptText),
      (''tls_certfile'', KOptText), (''tls_keyfile'', KOptText), (''tls_keyfile_pw'', KOptText),
      (''socket_timeout_ms'', KInteger), (''total_timeout_ms'', KInteger), (''connect_timeout_ms'', KInteger),
      (''login_timeout_ms'', KInteger), (''namespace'', KText), (''set_name'', KText), (''set_routes'', KRoutes),
      (''value_bin'', KText), (''send_key'', KFlag), (''record_exists_policy'', KExists),
      (''max_record_size'', KInteger), (''max_ttl'', KInteger)]"

definition top_kinds :: "(string \<times> attr_kind) list" where
  "top_kinds =
     [(''workers'', KInteger), (''scan_batch'', KInteger), (''queue_size'', KInteger), (''scan_rate_limit'', KNumber),
      (''write_rate_limit'', KNumber), (''write_batch_size'', KInteger), (''hash_strategy'', KHash),
      (''ttl_overflow_policy'', KTtl), (''progress_interval'', KNumber)]"

fun kinds_of :: "cfg_section \<Rightarrow> (string \<times> attr_kind) list" where
  "kinds_of SecRedis = redis_kinds"
| "kinds_of SecAerospike = aerospike_kinds"
| "kinds_of SecTop = top_kinds"

definition kind_at :: "attr_kind \<Rightarrow> cfg_obj \<Rightarrow> string \<Rightarrow> bool" where
  "kind_at k obj f = (case attr_get obj f of Some a \<Rightarrow> has_kind k a | None \<Rightarrow> False)"

definition typed_sec :: "(string \<times> attr_kind) list \<Rightarrow> cfg_obj \<Rightarrow> bool" where
  "typed_sec ks obj \<longleftrightarrow> list_all (\<lambda>(f, k). kind_at k obj f) ks"

definition typed_obj :: "MigrationConfig_obj \<Rightarrow> bool" where
  "typed_obj c \<longleftrightarrow> (\<forall>s. typed_sec (kinds_of s) (section_of s c))"

lemma typed_obj_sections:
  "typed_obj c \<longleftrightarrow> typed_sec redis_kinds (mo_redis c) \<and> typed_sec aerospike_kinds (mo_aerospike c) \<and> typed_sec top_kinds (mo_top c)"
  unfolding typed_obj_def by (metis cfg_section.exhaust kinds_of.simps section_of.simps)

lemma view_None:
  "view as_text o1 f = None \<longleftrightarrow> \<not> kind_at KText o1 f" "view as_opt_text o1 f = None \<longleftrightarrow> \<not> kind_at KOptText o1 f"
  "view as_integer o1 f = None \<longleftrightarrow> \<not> kind_at KInteger o1 f" "view as_flag o1 f = None \<longleftrightarrow> \<not> kind_at KFlag o1 f"
  "view as_number o1 f = None \<longleftrightarrow> \<not> kind_at KNumber o1 f" "view as_opt_number o1 f = None \<longleftrightarrow> \<not> kind_at KOptNumber o1 f"
  "view as_hosts o1 f = None \<longleftrightarrow> \<not> kind_at KHosts o1 f" "view as_routes o1 f = None \<longleftrightarrow> \<not> kind_at KRoutes o1 f"
  "view as_exists o1 f = None \<longleftrightarrow> \<not> kind_at KExists o1 f" "view as_hash o1 f = None \<longleftrightarrow> \<not> kind_at KHash o1 f"
  "view as_ttl o1 f = None \<longleftrightarrow> \<not> kind_at KTtl o1 f"
  by (simp_all add: view_def kind_at_def del: not_None_eq split: option.splits)

lemma RedisConfig_view_None: "RedisConfig_view o1 = None \<longleftrightarrow> \<not> typed_sec redis_kinds o1"
  unfolding RedisConfig_view_def typed_sec_def redis_kinds_def bind_eq_None_conv view_None
  by (simp only: list.pred_inject prod.case de_Morgan_conj option.distinct not_not simp_thms disj_assoc)

lemma AerospikeConfig_view_None: "AerospikeConfig_view o1 = None \<longleftrightarrow> \<not> typed_sec aerospike_kinds o1"
  unfolding AerospikeConfig_view_def typed_sec_def aerospike_kinds_def bind_eq_None_conv view_None
  by (simp only: list.pred_inject prod.case de_Morgan_conj option.distinct not_not simp_thms disj_assoc)

text \<open>An object has a typed view exactly when every field has its declared type.\<close>

lemma view_iff_typed: "MigrationConfig_view c = None \<longleftrightarrow> \<not> typed_obj c"
proof -
  have top: "typed_sec top_kinds o1 = list_all (\<lambda>(f, k). kind_at k o1 f) top_kinds" for o1 by (simp add: typed_sec_def)
  show ?thesis
    unfolding MigrationConfig_view_def bind_eq_None_conv view_None RedisConfig_view_None AerospikeConfig_view_None
      typed_obj_sections top
    by (simp only: top_kinds_def list.pred_inject prod.case de_Morgan_conj option.distinct not_not simp_thms disj_assoc)
qed

lemma typed_set:
  assumes "typed_obj c" "\<And>k. (f, k) \<in> set (kinds_of s) \<Longrightarrow> has_kind k a"
  shows "typed_obj (set_field s f a c)"
  using assms unfolding typed_obj_def typed_sec_def kind_at_def field_set_field list_all_iff by fastforce

text \<open>An option whose coerced values have a given type.\<close>

definition fits :: "arg_action \<Rightarrow> coercion \<Rightarrow> attr_kind \<Rightarrow> bool" where
  "fits a co k \<longleftrightarrow>
     aa_default a = None \<and>
     (if takes_value a then
        aa_kind a = Store \<and>
        (aa_type a = TStr \<and> co = NoCoerce \<and> (k = KText \<or> k = KOptText) \<or>
         aa_type a = TInt \<and> co = NoCoerce \<and> k = KInteger \<or>
         aa_type a = TFloat \<and> co = NoCoerce \<and> (k = KNumber \<or> k = KOptNumber) \<or>
         aa_type a = TExists \<and> co = CoerceExists \<and> k = KExists \<or>
         aa_type a = TStr \<and> co = CoerceHash \<and> k = KHash \<and> aa_choices a = Some (map HashStrategy_value [MAP_BIN, FIELD_BINS]) \<or>
         aa_type a = TStr \<and> co = CoerceTtl \<and> k = KTtl \<and>
           aa_choices a = Some (map TtlOverflowPolicy_value [REJECT, CLAMP, NEVER_EXPIRE]))
      else co = NoCoerce \<and> k = KFlag)"

lemma shapeE:
  assumes "shape ty v"
  obtains s where "ty = TStr" "v = AStr s" | i where "ty = TInt" "v = AInt i" | x where "ty = TFloat" "v = AFloat x"
    | p where "ty = TExists" "v = AExists p" | rs where "ty = TRoute" "v = ARoutes rs"
  using assms by (cases "(ty, v)" rule: shape.cases) auto

lemma TtlOverflowPolicy_of_value: "TtlOverflowPolicy_of (PS (SStr (TtlOverflowPolicy_value h))) = Inr h"
  by (cases h) (simp_all add: TtlOverflowPolicy_of_def enum_of_def)

lemma fits_ok:
  assumes "fits a co k" "arg_ok a v" "finite_attr v"
  shows "\<exists>v'. coerce_arg co v = Inr v' \<and> has_kind k v'"
proof (cases "takes_value a")
  case False
  then show ?thesis using assms by (auto simp: fits_def arg_ok_def)
next
  case True
  then have sh: "shape (aa_type a) v" "choice_ok a v" using assms(1,2) by (auto simp: fits_def arg_ok_def)
  show ?thesis
    using sh(1)
  proof (cases rule: shapeE)
    case (1 s)
    have "\<exists>h. s = HashStrategy_value h" if "aa_choices a = Some (map HashStrategy_value [MAP_BIN, FIELD_BINS])"
      using sh(2) that 1 by (auto simp: choice_ok_def simp del: HashStrategy_value.simps)
    moreover have "\<exists>h. s = TtlOverflowPolicy_value h" if "aa_choices a = Some (map TtlOverflowPolicy_value [REJECT, CLAMP, NEVER_EXPIRE])"
      using sh(2) that 1 by (auto simp: choice_ok_def simp del: TtlOverflowPolicy_value.simps)
    ultimately show ?thesis using assms(1) True 1
      by (auto simp: fits_def coerce_enum_def HashStrategy_of_value TtlOverflowPolicy_of_value)
  next
    case (3 x)
    then show ?thesis using assms(1,3) True by (cases x) (auto simp: fits_def)
  qed (use assms(1) True in \<open>auto simp: fits_def coerce_enum_def\<close>)
qed

lemma ARG_MAP_fits:
  "list_all (\<lambda>(dest, s, f, co). list_all (\<lambda>a. aa_dest a = dest \<longrightarrow>
     list_all (\<lambda>(f', k). f' = f \<longrightarrow> fits a co k) (kinds_of s)) build_parser) ARG_MAP"
  by (simp add: ARG_MAP_def parser_defs redis_kinds_def aerospike_kinds_def top_kinds_def fits_def takes_value_def
      del: HashStrategy_value.simps TtlOverflowPolicy_value.simps)

lemma ARG_MAP_known: "list_all (\<lambda>(dest, s, f, co). f \<in> fst ` set (kinds_of s)) ARG_MAP"
  by (simp add: ARG_MAP_def redis_kinds_def aerospike_kinds_def top_kinds_def)

lemma finite_ns_get: "list_all (\<lambda>p. finite_attr (snd p)) ns \<Longrightarrow> attr_get ns d = Some v \<Longrightarrow> finite_attr v"
  using kget_SomeD [of "\<lambda>k. k" ns "L d" v] by (auto simp: attr_get_def list_all_iff)

lemma flag_typed:
  assumes "ns_ok build_parser ns" "list_all (\<lambda>p. finite_attr (snd p)) ns"
    and "(dest, s, f, co) \<in> set ARG_MAP" "attr_get ns dest = Some v"
  shows "\<exists>v'. coerce_arg co v = Inr v' \<and> (\<forall>k. (f, k) \<in> set (kinds_of s) \<longrightarrow> has_kind k v')"
proof -
  obtain a where a: "a \<in> set build_parser" "aa_dest a = dest" "arg_ok a v" using ns_ok_get [OF assms(1,4)] by blast
  have fit: "fits a co k" if "(f, k) \<in> set (kinds_of s)" for k
    using ARG_MAP_fits assms(3) a(1,2) that unfolding list_all_iff by fastforce
  have fin: "finite_attr v" using finite_ns_get [OF assms(2,4)] .
  obtain k0 where k0: "(f, k0) \<in> set (kinds_of s)" using ARG_MAP_known assms(3) unfolding list_all_iff by fastforce
  obtain v' where v': "coerce_arg co v = Inr v'" using fits_ok [OF fit [OF k0] a(3) fin] by blast
  then have "has_kind k v'" if "(f, k) \<in> set (kinds_of s)" for k
    using fits_ok [OF fit [OF that] a(3) fin] by auto
  then show ?thesis using v' by blast
qed

lemma apply_args_typed:
  assumes "ns_ok build_parser ns" "list_all (\<lambda>p. finite_attr (snd p)) ns" "set ms \<subseteq> set ARG_MAP" "typed_obj b"
  shows "\<exists>c. foldr_res (apply_arg ns) ms b = Inr c \<and> typed_obj c"
  using assms(3,4)
proof (induction ms arbitrary: b)
  case (Cons m ms)
  obtain dest s f co where m: "m = (dest, s, f, co)" by (cases m)
  have "\<exists>b1. apply_arg ns (dest, s, f, co) b = Inr b1 \<and> typed_obj b1"
  proof (cases "attr_get ns dest")
    case (Some v)
    then show ?thesis using flag_typed [OF assms(1,2) _ Some] Cons.prems typed_set [OF Cons.prems(2)] by (fastforce simp: m)
  qed (simp add: Cons.prems)
  then show ?case using Cons by (auto simp: m)
qed simp

text \<open>The options outside the table.\<close>

lemma other_options:
  "list_all (\<lambda>a. (aa_dest a \<in> {''aerospike_host'', ''redis_key_pattern''} \<longrightarrow> takes_value a \<and> aa_type a = TStr \<and> aa_default a = None) \<and>
     (aa_dest a = ''aerospike_port'' \<longrightarrow> takes_value a \<and> aa_type a = TInt \<and> aa_default a = None) \<and>
     (aa_dest a = ''set_route'' \<longrightarrow> takes_value a \<and> aa_type a = TRoute \<and> aa_default a = None)) build_parser"
  by (simp add: parser_defs takes_value_def)

lemma other_flags:
  assumes "ns_ok build_parser ns"
  shows "attr_get ns ''aerospike_host'' = Some v \<Longrightarrow> \<exists>s. v = AStr s"
    and "attr_get ns ''aerospike_port'' = Some v \<Longrightarrow> \<exists>i. v = AInt i"
    and "attr_get ns ''redis_key_pattern'' = Some v \<Longrightarrow> \<exists>s. v = AStr s"
    and "attr_get ns ''set_route'' = Some v \<Longrightarrow> \<exists>rs. v = ARoutes rs"
proof -
  have get: "shape ty v" if get: "attr_get ns dest = Some v" and
    opt: "\<And>a. a \<in> set build_parser \<Longrightarrow> aa_dest a = dest \<Longrightarrow> takes_value a \<and> aa_type a = ty \<and> aa_default a = None" for dest ty
  proof -
    obtain a where "a \<in> set build_parser" "aa_dest a = dest" "arg_ok a v" using ns_ok_get [OF assms get] by blast
    then show ?thesis using opt [of a] by (simp add: arg_ok_def)
  qed
  note opts = other_options [unfolded list_all_iff]
  show "attr_get ns ''aerospike_host'' = Some v \<Longrightarrow> \<exists>s. v = AStr s"
    using get [of "''aerospike_host''" TStr] opts by (auto elim: shapeE)
  show "attr_get ns ''aerospike_port'' = Some v \<Longrightarrow> \<exists>i. v = AInt i"
    using get [of "''aerospike_port''" TInt] opts by (auto elim: shapeE)
  show "attr_get ns ''redis_key_pattern'' = Some v \<Longrightarrow> \<exists>s. v = AStr s"
    using get [of "''redis_key_pattern''" TStr] opts by (auto elim: shapeE)
  show "attr_get ns ''set_route'' = Some v \<Longrightarrow> \<exists>rs. v = ARoutes rs"
    using get [of "''set_route''" TRoute] opts by (auto elim: shapeE)
qed

lemma first_host_typed:
  assumes "kind_at KHosts o1 ''hosts''"
  shows "\<exists>h p. first_host o1 = Inr (AStr h, AInt p)"
proof -
  obtain hs where hs: "attr_get o1 ''hosts'' = Some (AVal (PList hs))" "those (map as_host hs) \<noteq> None"
    using assms by (fastforce simp: kind_at_def split: option.splits elim!: as_hosts.elims)
  show ?thesis
  proof (cases hs)
    case (Cons x xs)
    then have "as_host x \<noteq> None" using hs(2) by (auto split: option.splits)
    then obtain h p where "x = PTuple [PS (SStr h), PS (SInt p)]" by (auto elim!: as_host.elims)
    then show ?thesis using hs(1) Cons by (simp add: first_host_def)
  qed (simp add: hs first_host_def)
qed

lemma override_host_typed:
  assumes "ns_ok build_parser ns" "typed_obj b"
  shows "\<exists>b1. override_host ns b = Inr b1 \<and> typed_obj b1"
proof (cases "attr_get ns ''aerospike_host'' = None \<and> attr_get ns ''aerospike_port'' = None")
  case True
  then show ?thesis using assms(2) by (simp add: override_host_def)
next
  case False
  have "kind_at KHosts (mo_aerospike b) ''hosts''"
    using assms(2) by (simp add: typed_obj_sections typed_sec_def aerospike_kinds_def)
  then obtain h p where hp: "first_host (mo_aerospike b) = Inr (AStr h, AInt p)" using first_host_typed by blast
  obtain h' where h': "(case attr_get ns ''aerospike_host'' of Some x \<Rightarrow> x | None \<Rightarrow> AStr h) = AStr h'"
    using other_flags(1) [OF assms(1)] by (cases "attr_get ns ''aerospike_host''") auto
  obtain p' where p': "(case attr_get ns ''aerospike_port'' of Some x \<Rightarrow> x | None \<Rightarrow> AInt p) = AInt p'"
    using other_flags(2) [OF assms(1)] by (cases "attr_get ns ''aerospike_port''") auto
  have "typed_obj (set_field SecAerospike ''hosts'' (AVal (PList [PTuple [PS (SStr h'), PS (SInt p')]])) b)"
    by (rule typed_set [OF assms(2)]) (auto simp: aerospike_kinds_def)
  then show ?thesis using False hp h' p' assms(2) by (simp add: override_host_def)
qed

lemma final_stages_typed:
  assumes "ns_ok build_parser ns" "typed_obj b"
  shows "typed_obj (alias_key_pattern ns (append_routes ns b))"
proof -
  have "typed_obj (append_routes ns b)"
    using assms(2) typed_set [OF assms(2), of "''set_routes''" SecAerospike]
    by (auto simp: append_routes_def aerospike_kinds_def simp del: set_field.simps split: option.splits cfg_attr.splits)
  then show ?thesis
    using other_flags(3) [OF assms(1)] typed_set [of "append_routes ns b" "''scan_match''" SecRedis]
    by (auto simp: alias_key_pattern_def redis_kinds_def simp del: set_field.simps split: option.splits)
qed

text \<open>
  C34 Flags never break the types of a configuration: whatever the arguments are, if they parse, the
  numbers among them are finite and the configuration file, if there is one, is well-typed (the
  defaults are), then the configuration of the run is built without an exception and every one of its
  attributes has the type its dataclass declares.
\<close>

theorem parsed_args_typed:
  assumes "parse_args argv = Parsed ns" "list_all (\<lambda>p. finite_attr (snd p)) ns"
    and "base_config yaml ns = Inr b" "MigrationConfig_view b = Some t"
  shows "\<exists>c config. build_config yaml ns = Inr c \<and> MigrationConfig_view c = Some config"
proof -
  note ok = parse_args_ok [OF assms(1)]
  have "typed_obj b" using assms(4) view_iff_typed [of b] by simp
  then obtain b1 where b1: "override_host ns b = Inr b1" "typed_obj b1" using override_host_typed [OF ok] by blast
  obtain b2 where b2: "foldr_res (apply_arg ns) ARG_MAP b1 = Inr b2" "typed_obj b2"
    using apply_args_typed [OF ok assms(2) _ b1(2)] by blast
  have "MigrationConfig_view (alias_key_pattern ns (append_routes ns b2)) \<noteq> None"
    using final_stages_typed [OF ok b2(2)] view_iff_typed by blast
  then show ?thesis using assms(3) b1(1) b2(1) by (auto simp: build_config_def)
qed

lemma ref_parse:
  "parse_args [L ''--workers'', L ''3''] = Parsed (default_namespace build_parser @ [(L ''workers'', AInt 3)])"
proof -
  have tab: "\<exists>a. dict_get (option_table build_parser) (L ''--workers'') = Some a \<and> takes_value a \<and> aa_type a = TInt \<and>
      aa_choices a = None \<and> aa_kind a = Store \<and> aa_dest a = ''workers''"
    by (simp add: option_table_def parser_defs takes_value_def)
  then obtain a where a: "dict_get (option_table build_parser) (L ''--workers'') = Some a" "takes_value a" "aa_type a = TInt"
    "aa_choices a = None" "aa_kind a = Store" "aa_dest a = ''workers''" by blast
  have w: "L ''--workers'' \<noteq> [45, 45]" "hd (L ''--workers'') = 45" "hd (L ''3'') \<noteq> 45" "L ''3'' \<noteq> [45, 45]" by (simp_all add: L_def)
  have toks: "classify build_parser [L ''--workers'', L ''3''] =
      Some [(Opt a (L ''--workers'') None, L ''--workers''), (Value, L ''3'')]"
    using w a(1) by (simp add: parse_optional_def)
  have "py_int (L ''3'') = Inr 3"
    using py_int_str_int [of 3] by (simp add: str_int_def str_nat_def digits_of.simps L_def max_str_digits_def)
  moreover have "dict_set (L ''workers'') (AInt 3) (default_namespace build_parser) = default_namespace build_parser @ [(L ''workers'', AInt 3)]"
    by (rule kset_new) (simp add: default_namespace_def parser_defs List.map_filter_def)
  ultimately show ?thesis using toks a by (simp add: parse_args_def parse_with_def take_value_def choice_ok_def)
qed

theorem parsed_args_typed_witness:
  "\<exists>ns c config. parse_args [L ''--workers'', L ''3''] = Parsed ns \<and> build_config (\<lambda>path. Inl ValueError) ns = Inr c \<and>
     MigrationConfig_view c = Some config"
proof -
  let ?ns = "default_namespace build_parser @ [(L ''workers'', AInt 3)]"
  have ns: "?ns = [(L ''print_completion'', ANone), (L ''config'', ANone), (L ''dry_run'', ABool False),
      (L ''log_level'', AStr (L ''INFO'')), (L ''workers'', AInt 3)]"
    by (simp add: default_namespace_def parser_defs List.map_filter_def)
  have fin: "list_all (\<lambda>p. finite_attr (snd p)) ?ns" by (simp add: ns)
  have base: "base_config (\<lambda>path. Inl ValueError) ?ns = Inr MigrationConfig_obj_default"
    by (simp add: base_config_def ns attr_get_def)
  from parsed_args_typed [OF ref_parse fin base view_default] show ?thesis using ref_parse by blast
qed

section \<open>Exit codes of the parser\<close>

lemma help_letters_code: "help_letters cs \<in> {0, 2}"
  by (induction cs rule: help_letters.induct) (auto split: list.splits)

lemma consume_exit: "consume ts ns extras = SystemExit n \<Longrightarrow> n \<in> {0, 2}"
proof (induction ts ns extras rule: consume.induct)
  case (2 a name eq ex s ts ns extras)
  then show ?case using help_letters_code [of ex] by (auto split: if_splits option.splits)
next
  case (3 a name s ts ns extras)
  then show ?case by (auto split: if_splits option.splits list.splits token.splits prod.splits)
qed (auto split: if_splits)

lemma parse_with_exit: "parse_with parser argv = SystemExit n \<Longrightarrow> n \<in> {0, 2}"
  using consume_exit by (auto simp: parse_with_def split: option.splits)

lemma parse_args_exit: "parse_args argv = SystemExit n \<Longrightarrow> n \<in> {0, 2}"
  using parse_with_exit by (simp add: parse_args_def)

text \<open>The program ends with code 0, 1 or 2 whenever it ends without an exception.\<close>

lemma main_argv_codes:
  assumes "main_argv env fl argv w v lg (Exit n) w' v'"
  shows "n \<in> {0, 1, 2}"
  using assms
proof (cases rule: main_argv.cases)
  case usage
  then show ?thesis using parse_args_exit by auto
next
  case (parsed ns)
  have "\<forall>s c. ce_aerospike env s = Inr c \<longrightarrow> reads_only (\<lambda>v. ()) c" by (simp add: reads_only_def)
  from main_exit_codes_cases [OF parsed(2) this] show ?thesis by blast
qed

end
