(* ===== verification/Progress.thy ===== *)
theory Progress
  imports Migrator
begin

text \<open>
  The progress heartbeat (\<^verbatim>\<open>progress.py\<close>): a daemon thread that logs one line of the statistics each
  time its wait times out, until the stop event is set. It only reads the statistics.
\<close>

text \<open>The thread object: not started or joined, in its loop, or ended.\<close>

datatype pr_thread = NoThread | Looping | LoopEnded

record ProgressReporter =
  pr_interval :: rat
  pr_stop :: bool
  pr_thread :: pr_thread
  pr_log :: "pystr list"

definition ProgressReporter_init :: "rat \<Rightarrow> ProgressReporter" where
  "ProgressReporter_init interval = \<lparr>pr_interval = interval, pr_stop = False, pr_thread = NoThread, pr_log = []\<rparr>"

definition pr_enabled :: "ProgressReporter \<Rightarrow> bool" where
  "pr_enabled p \<longleftrightarrow> 0 < pr_interval p"

definition pr_start :: "ProgressReporter \<Rightarrow> ProgressReporter" where
  "pr_start p = (if \<not> pr_enabled p \<or> pr_thread p \<noteq> NoThread then p else p\<lparr>pr_thread := Looping\<rparr>)"

text \<open>
  The loop of \<^verbatim>\<open>_run\<close> in steps of the thread, and \<^verbatim>\<open>stop\<close> of the caller in two: it sets the event, and
  \<^verbatim>\<open>join\<close> returns once the loop has ended.
\<close>

inductive pr_step :: "(rat \<Rightarrow> rat) \<Rightarrow> (rat \<Rightarrow> MigrationStats) \<Rightarrow> ProgressReporter \<Rightarrow> ProgressReporter \<Rightarrow> bool"
  for fl :: "rat \<Rightarrow> rat" and stats :: "rat \<Rightarrow> MigrationStats"
where
  beat: "pr_thread p = Looping \<Longrightarrow> \<not> pr_stop p \<Longrightarrow>
    pr_step fl stats p (p\<lparr>pr_log := pr_log p @ [progress_line fl now (stats now)]\<rparr>)"
| leave: "pr_thread p = Looping \<Longrightarrow> pr_stop p \<Longrightarrow> pr_step fl stats p (p\<lparr>pr_thread := LoopEnded\<rparr>)"
| set_stop: "\<not> pr_stop p \<Longrightarrow> pr_step fl stats p (p\<lparr>pr_stop := True\<rparr>)"
| joined: "pr_stop p \<Longrightarrow> pr_thread p = LoopEnded \<Longrightarrow> pr_step fl stats p (p\<lparr>pr_thread := NoThread\<rparr>)"

inductive_cases pr_stepE: "pr_step fl stats p p'"

lemma pr_start_idem: "pr_start (pr_start p) = pr_start p"
  by (simp add: pr_start_def pr_enabled_def)

text \<open>A disabled reporter starts no thread and never logs.\<close>

lemma disabled_silent:
  assumes "(pr_step fl stats)\<^sup>*\<^sup>* (pr_start (ProgressReporter_init interval)) p" "interval \<le> 0"
  shows "pr_log p = [] \<and> pr_thread p = NoThread"
  using assms(1)
proof (induction rule: rtranclp_induct)
  case base
  show ?case using assms(2) by (simp add: pr_start_def pr_enabled_def ProgressReporter_init_def)
next
  case (step p p')
  then show ?case by (auto elim!: pr_stepE)
qed

text \<open>Once the event is set, nothing is logged any more and \<^verbatim>\<open>join\<close> returns within two steps of the thread.\<close>

lemma stopped_silent:
  assumes "(pr_step fl stats)\<^sup>*\<^sup>* p p'" "pr_stop p"
  shows "pr_stop p' \<and> pr_log p' = pr_log p"
  using assms(1)
proof (induction rule: rtranclp_induct)
  case base
  then show ?case using assms(2) by simp
next
  case (step q q')
  then show ?case by (auto elim!: pr_stepE)
qed

lemma stop_joins:
  assumes "pr_stop p"
  shows "\<exists>p'. (pr_step fl stats)\<^sup>*\<^sup>* p p' \<and> pr_thread p' = NoThread"
proof -
  have ended: "\<exists>p'. (pr_step fl stats)\<^sup>*\<^sup>* q p' \<and> pr_thread p' = NoThread" if "pr_stop q" "pr_thread q = LoopEnded" for q
    using joined [OF that] by (intro exI [of _ "q\<lparr>pr_thread := NoThread\<rparr>"]) auto
  show ?thesis
  proof (cases "pr_thread p")
    case Looping
    have "pr_step fl stats p (p\<lparr>pr_thread := LoopEnded\<rparr>)" using leave [OF Looping assms] .
    moreover obtain p' where "(pr_step fl stats)\<^sup>*\<^sup>* (p\<lparr>pr_thread := LoopEnded\<rparr>) p'" "pr_thread p' = NoThread"
      using ended [of "p\<lparr>pr_thread := LoopEnded\<rparr>"] assms by auto
    ultimately show ?thesis using converse_rtranclp_into_rtranclp by metis
  next
    case LoopEnded
    then show ?thesis using ended assms by blast
  qed auto
qed

end
