(* ===== verification/Seed.thy ===== *)
theory Seed
  imports Args
begin

text \<open>
  The two scripts that fill a Redis server with sample data for a migration
  (\<^verbatim>\<open>scripts/sample_redis_seed.py\<close> and \<^verbatim>\<open>scripts/sample_redis_seed_routing.py\<close>): the keys they write, the
  pipelines they send them in, and their command lines. The Redis client is a record of its methods
  over a state, and a pipeline is the list of the commands queued in it.
\<close>

section \<open>Commands and pipelines\<close>

datatype seed_value = VText pystr | VBytes bytes

text \<open>
  The commands queued: \<^verbatim>\<open>set\<close> with an optional expiry in seconds, \<^verbatim>\<open>hset\<close> with a mapping, \<^verbatim>\<open>delete\<close>,
  \<^verbatim>\<open>rpush\<close>, \<^verbatim>\<open>sadd\<close>, and \<^verbatim>\<open>zadd\<close> with scores.
\<close>

datatype seed_cmd =
    CSet pystr seed_value "int option"
  | CHset pystr "(pystr \<times> pystr) list"
  | CDelete pystr
  | CRpush pystr "pystr list"
  | CSadd pystr "pystr list"
  | CZadd pystr "(pystr \<times> pyscalar) list"

record 'w seed_client =
  sc_ping :: "'w \<Rightarrow> unit res \<times> 'w"
  sc_flushdb :: "'w \<Rightarrow> unit res \<times> 'w"
  sc_execute :: "'w \<Rightarrow> seed_cmd list \<Rightarrow> unit res \<times> 'w"
  sc_close :: "'w \<Rightarrow> unit res \<times> 'w"

definition PIPELINE_CHUNK :: nat where
  "PIPELINE_CHUNK = 500"

text \<open>The local state of \<^verbatim>\<open>seed\<close>: what \<^verbatim>\<open>pending\<close> counts, and the commands queued in \<^verbatim>\<open>pipe\<close>.\<close>

type_synonym pipe = "nat \<times> seed_cmd list"

definition flush_if_needed :: "'w seed_client \<Rightarrow> pipe \<Rightarrow> 'w \<Rightarrow> pipe res \<times> 'w" where
  "flush_if_needed c p w =
     (case p of (pending, queued) \<Rightarrow>
        if PIPELINE_CHUNK \<le> pending then
          (case sc_execute c w queued of
             (Inl e, w') \<Rightarrow> (Inl e, w')
           | (Inr u, w') \<Rightarrow> (Inr (0, []), w'))
        else (Inr (pending, queued), w))"

text \<open>
  One turn of a loop of \<^verbatim>\<open>seed\<close>: it queues commands, adds their number to \<^verbatim>\<open>pending\<close> and calls
  \<^verbatim>\<open>flush_if_needed\<close>. The loops run one after the other over the same pipeline.
\<close>

type_synonym turn = "seed_cmd list \<times> nat"

fun run_turns :: "'w seed_client \<Rightarrow> turn list \<Rightarrow> pipe \<Rightarrow> 'w \<Rightarrow> pipe res \<times> 'w" where
  "run_turns c [] p w = (Inr p, w)"
| "run_turns c ((cmds, n) # turns) (pending, queued) w =
     (case flush_if_needed c (pending + n, queued @ cmds) w of
        (Inl e, w') \<Rightarrow> (Inl e, w')
      | (Inr p', w') \<Rightarrow> run_turns c turns p' w')"

definition send_all :: "'w seed_client \<Rightarrow> turn list \<Rightarrow> 'w \<Rightarrow> unit res \<times> 'w" where
  "send_all c turns w =
     (case run_turns c turns (0, []) w of
        (Inl e, w') \<Rightarrow> (Inl e, w')
      | (Inr (pending, queued), w') \<Rightarrow> if pending \<noteq> 0 then sc_execute c w' queued else (Inr (), w'))"

section \<open>The sample of every type\<close>

definition KEY_PREFIX :: pystr where
  "KEY_PREFIX = L ''sample:migrate''"

definition numbered :: "pystr \<Rightarrow> nat \<Rightarrow> pystr" where
  "numbered s i = s @ str_nat i"

text \<open>\<^verbatim>\<open>_split_counts\<close>; the message of its error is the constant text below.\<close>

definition split_counts :: "int \<Rightarrow> int \<Rightarrow> int list res" where
  "split_counts n_keys parts =
     (if n_keys < parts then Inl ValueError
      else let base = n_keys div parts; rem = n_keys mod parts
           in Inr (map (\<lambda>i. base + (if int i < rem then 1 else 0)) [0 ..< nat parts]))"

definition string_turn :: "nat \<Rightarrow> turn" where
  "string_turn i =
     (let key = numbered (KEY_PREFIX @ L '':str:'') i; m = i mod 5
      in ([if m = 0 then CSet key (VText (numbered (L ''hello-'') i)) None
           else if m = 1 then CSet key (VText (str_nat (10000 + i))) None
           else if m = 2 then CSet key (VText (str_nat i @ L ''.25'')) None
           else if m = 3 then CSet key (VText (numbered (L ''ttl-'') i)) (Some (60 + int (i mod 120)))
           else CSet key (VBytes [word_of_nat (i mod 256), word_of_nat ((i * 7) mod 256), word_of_nat ((i * 13) mod 256)]) None],
          1))"

text \<open>\<^verbatim>\<open>f"{(i % 10) / 10:.1f}"\<close>: the value of a finite double, printed with one decimal\<close>

fun float_value :: "pyfloat \<Rightarrow> rat" where
  "float_value (FFin neg m e) =
     (case float_ratio m e of (p, q) \<Rightarrow> (if neg then - (of_nat p / of_nat q) else of_nat p / of_nat q))"
| "float_value x = 0"

definition tenth_text :: "nat \<Rightarrow> pystr" where
  "tenth_text k = fmt_fixed 1 (float_value (round_ratio False k 10))"

definition hash_turn :: "nat \<Rightarrow> turn" where
  "hash_turn i =
     ([CHset (numbered (KEY_PREFIX @ L '':hash:'') i)
         [(L ''name'', numbered (L ''user-'') i), (L ''region'', [L ''us'', L ''eu'', L ''ap''] ! (i mod 3)),
          (L ''score'', str_nat (i mod 1000)), (L ''ratio'', tenth_text (i mod 10))]],
      1)"

definition list_turn :: "nat \<Rightarrow> turn" where
  "list_turn i =
     (let key = numbered (KEY_PREFIX @ L '':list:'') i
      in ([CDelete key,
           CRpush key [numbered (L ''a-'') i, str_nat i, str_nat i @ L ''.5'', [L ''x'', L ''y'', L ''z''] ! (i mod 3)]],
          2))"

text \<open>The members are a set, which \<open>enum\<close> enumerates.\<close>

definition set_turn :: "(pystr list \<Rightarrow> pystr list) \<Rightarrow> nat \<Rightarrow> turn" where
  "set_turn enum i =
     (let key = numbered (KEY_PREFIX @ L '':set:'') i
      in ([CDelete key,
           CSadd key (enum [numbered (L ''m-'') i, numbered (L ''m-'') i @ L ''-b'', str_nat (i mod 50), str_nat ((i + 1) mod 50)])],
          2))"

text \<open>\<^verbatim>\<open>float(i)\<close> and \<^verbatim>\<open>float(i) + 0.5\<close>, correctly rounded\<close>

definition float_of_nat :: "nat \<Rightarrow> pyfloat" where
  "float_of_nat n = round_ratio False n 1"

fun plus_half :: "pyfloat \<Rightarrow> pyfloat" where
  "plus_half (FFin neg m e) = (case float_ratio m e of (p, q) \<Rightarrow> round_ratio False (2 * p + q) (2 * q))"
| "plus_half x = x"

definition zset_turn :: "nat \<Rightarrow> turn" where
  "zset_turn i =
     (let key = numbered (KEY_PREFIX @ L '':zset:'') i; p = numbered (L ''p'') i
      in ([CDelete key,
           CZadd key [(p @ L ''a'', SFloat (float_of_nat i)), (p @ L ''b'', SFloat (plus_half (float_of_nat i))),
             (p @ L ''c'', SInt (int (i mod 7) - 3))]],
          2))"

definition turns_of :: "(nat \<Rightarrow> turn) \<Rightarrow> int \<Rightarrow> turn list" where
  "turns_of f n = map f [0 ..< nat n]"

text \<open>The five loops of \<^verbatim>\<open>seed\<close>, for the counts of the five types.\<close>

definition sample_turns :: "(pystr list \<Rightarrow> pystr list) \<Rightarrow> int list \<Rightarrow> turn list" where
  "sample_turns enum counts =
     concat (map (\<lambda>(f, n). turns_of f n)
       (zip [string_turn, hash_turn, list_turn, set_turn enum, zset_turn] counts))"

text \<open>What the scripts print; an error line may end with the text of an exception.\<close>

datatype seed_line = Printed pystr | Complained pystr | ComplainedOf pystr py_exn

definition seed_sample ::
    "(pystr list \<Rightarrow> pystr list) \<Rightarrow> rat \<Rightarrow> 'w seed_client \<Rightarrow> int \<Rightarrow> 'w \<Rightarrow> seed_line list \<times> unit res \<times> 'w"
where
  "seed_sample enum elapsed c n_keys w =
     (case split_counts n_keys 5 of
        Inl e \<Rightarrow> ([], Inl e, w)
      | Inr counts \<Rightarrow>
          (case send_all c (sample_turns enum counts) w of
             (Inl e, w') \<Rightarrow> ([], Inl e, w')
           | (Inr u, w') \<Rightarrow>
               ([Printed (L ''Seeded '' @ str_int n_keys @ L '' logical keys ('' @ KEY_PREFIX @ L '':*) in '' @ fmt_fixed 2 elapsed @ L ''s.'')],
                Inr (), w')))"

section \<open>The sample for routes\<close>

definition ROUTE_KEY_PREFIX :: pystr where
  "ROUTE_KEY_PREFIX = L ''sample:route''"

definition total_keys_for_per_route :: "int \<Rightarrow> int" where
  "total_keys_for_per_route per_route =
     (let n_user_profile = (per_route + 3) div 4
      in per_route + n_user_profile + per_route + per_route + per_route)"

text \<open>\<^verbatim>\<open>math.ceil(min_total / 4.25)\<close>: the integer becomes a double, which may overflow, and is divided.\<close>

definition ceil_div_4_25 :: "int \<Rightarrow> int res" where
  "ceil_div_4_25 min_total =
     rbind (int_truediv min_total 1) (\<lambda>x.
       case x of
         FFin neg m e \<Rightarrow> (case float_ratio m e of (p, q) \<Rightarrow> py_ceil (round_ratio neg (4 * p) (17 * q)))
       | y \<Rightarrow> py_ceil y)"

text \<open>\<^verbatim>\<open>while _total_keys_for_per_route(n) < min_total: n += 1\<close>\<close>

function raise_depth :: "int \<Rightarrow> int \<Rightarrow> int" where
  "raise_depth min_total n =
     (if total_keys_for_per_route n < min_total then raise_depth min_total (n + 1) else n)"
  by pat_completeness auto

termination
  by (relation "measure (\<lambda>(min_total, n). nat (min_total - total_keys_for_per_route n))")
    (auto simp: total_keys_for_per_route_def Let_def)

declare raise_depth.simps [simp del]

definition per_route_for_at_least_total :: "int \<Rightarrow> int res" where
  "per_route_for_at_least_total min_total =
     (if min_total \<le> 0 then Inr 1
      else rmap (\<lambda>n. raise_depth min_total (max 1 n)) (ceil_div_4_25 min_total))"

text \<open>A user: the string, and for every fourth one a hash, each a turn of its own.\<close>

definition user_turns :: "nat \<Rightarrow> turn list" where
  "user_turns i =
     (let sk = numbered (ROUTE_KEY_PREFIX @ L '':user:'') i
      in ([CSet sk (VText (numbered (L ''display-name-'') i)) None], 1)
         # (if i mod 4 = 0 then
              [([CHset (sk @ L '':profile'')
                  [(L ''id'', str_nat i), (L ''tier'', [L ''free'', L ''pro'', L ''team''] ! (i mod 3)),
                   (L ''logins'', str_nat (10 + i mod 100))]], 1)]
            else []))"

text \<open>\<^verbatim>\<open>f"{i:x}"\<close>\<close>

fun hex_digits :: "nat \<Rightarrow> pystr" where
  "hex_digits n = (if n < 16 then [hex_digit n] else hex_digits (n div 16) @ [hex_digit (n mod 16)])"

declare hex_digits.simps [simp del]

definition session_turn :: "nat \<Rightarrow> turn" where
  "session_turn i =
     ([CSet (numbered (ROUTE_KEY_PREFIX @ L '':session:sid-'') i) (VText (L ''payload-token-'' @ hex_digits i)) None], 1)"

definition cache_turn :: "nat \<Rightarrow> turn" where
  "cache_turn i =
     ([CSet (numbered (ROUTE_KEY_PREFIX @ L '':cache:key-'') i) (VText (numbered (L ''cached-value-'') i))
         (Some (120 + int (i mod 180)))], 1)"

definition ledger_turn :: "nat \<Rightarrow> turn" where
  "ledger_turn i =
     ([CHset (numbered (ROUTE_KEY_PREFIX @ L '':ledger:entry-'') i)
         [(L ''amount'', str_nat ((i + 1) * 100)), (L ''currency'', L ''USD''), (L ''seq'', str_nat i)]], 1)"

definition route_turns :: "int \<Rightarrow> turn list" where
  "route_turns per_route =
     concat (map user_turns [0 ..< nat per_route]) @ turns_of session_turn per_route @
     turns_of cache_turn per_route @ turns_of ledger_turn per_route"

text \<open>The counters of \<^verbatim>\<open>seed\<close>: every turn is one key, and the hashes of users are counted apart.\<close>

definition n_user_profile :: "int \<Rightarrow> nat" where
  "n_user_profile per_route = length (filter (\<lambda>i. i mod 4 = 0) [0 ..< nat per_route])"

definition seed_routing ::
    "rat \<Rightarrow> 'w seed_client \<Rightarrow> int \<Rightarrow> 'w \<Rightarrow> seed_line list \<times> int res \<times> 'w"
where
  "seed_routing elapsed c per_route w =
     (let written = int (length (route_turns per_route)); each = str_int per_route
      in case send_all c (route_turns per_route) w of
           (Inl e, w') \<Rightarrow> ([], Inl e, w')
         | (Inr u, w') \<Rightarrow>
             ([Printed (L ''Seeded '' @ str_int written @ L '' keys under '' @ ROUTE_KEY_PREFIX @ L '': user strings='' @ each
                 @ L '', user hashes='' @ str_nat (n_user_profile per_route) @ L '', session='' @ each
                 @ L '', cache='' @ each @ L '', ledger='' @ each @ L '' in '' @ fmt_fixed 2 elapsed @ L ''s.'')],
              Inr written, w'))"

section \<open>Command lines\<close>

definition defaulted :: "string \<Rightarrow> string \<Rightarrow> arg_type \<Rightarrow> cfg_attr \<Rightarrow> pystr \<Rightarrow> arg_action" where
  "defaulted name dest ty dflt help = (opt name dest ty help)\<lparr>aa_default := Some dflt\<rparr>"

definition server_options :: "arg_action list" where
  "server_options =
     [defaulted ''--host'' ''host'' TStr (AStr (L ''127.0.0.1'')) (L ''Redis host''),
      defaulted ''--port'' ''port'' TInt (AInt 6379) (L ''Redis port''),
      defaulted ''--db'' ''db'' TInt (AInt 0) (L ''Redis logical database''),
      defaulted ''--password'' ''password'' TStr ANone (L ''Redis password (if required)'')]"

definition flush_option :: arg_action where
  "flush_option =
     (defaulted ''--flush'' ''flush'' TStr (ABool False)
        (L ''Run FLUSHDB on the selected database before seeding (destructive)''))\<lparr>aa_kind := StoreTrue\<rparr>"

definition sample_parser :: "arg_action list" where
  "sample_parser =
     [help_action] @ server_options @
     [defaulted ''--count'' ''count'' TInt (AInt 10000) (L ''Total keys to create (split evenly across 5 types)''),
      flush_option]"

definition routing_parser :: "arg_action list" where
  "routing_parser =
     [help_action] @ server_options @
     [defaulted ''--count'' ''count'' TInt (AInt 10000)
        (L ''Minimum total keys to create (default: 10000); per-domain depth is derived automatically''),
      defaulted ''--per-route'' ''per_route'' TInt ANone
        (L ''Exact base count N per domain (user/session/cache/ledger strings each get N keys; user hashes add ceil(N/4) more). Overrides --count.''),
      flush_option]"

text \<open>The attributes of a parsed namespace that \<^verbatim>\<open>main\<close> reads.\<close>

record seed_args =
  sd_host :: pystr
  sd_port :: int
  sd_db :: int
  sd_password :: "pystr option"
  sd_count :: int
  sd_per_route :: "int option"
  sd_flush :: bool

definition text_at :: "namespace \<Rightarrow> string \<Rightarrow> pystr option" where
  "text_at ns name = (case attr_get ns name of Some (AVal (PS (SStr s))) \<Rightarrow> Some s | _ \<Rightarrow> None)"

definition int_at :: "namespace \<Rightarrow> string \<Rightarrow> int option" where
  "int_at ns name = (case attr_get ns name of Some (AVal (PS (SInt i))) \<Rightarrow> Some i | _ \<Rightarrow> None)"

definition seed_args_of :: "namespace \<Rightarrow> seed_args" where
  "seed_args_of ns =
     \<lparr>sd_host = the (text_at ns ''host''), sd_port = the (int_at ns ''port''), sd_db = the (int_at ns ''db''),
      sd_password = text_at ns ''password'', sd_count = the (int_at ns ''count''),
      sd_per_route = int_at ns ''per_route'', sd_flush = (attr_get ns ''flush'' = Some (ABool True))\<rparr>"

text \<open>
  What the scripts use of the client library: the client for a server, and whether an exception is a
  \<^verbatim>\<open>redis.exceptions.ConnectionError\<close>. \<open>se_enum\<close> enumerates a set, and the duration is what the clock says.
\<close>

record 'w seed_env =
  se_redis :: "pystr \<Rightarrow> int \<Rightarrow> int \<Rightarrow> pystr option \<Rightarrow> 'w seed_client"
  se_connection_error :: "py_exn \<Rightarrow> bool"
  se_enum :: "pystr list \<Rightarrow> pystr list"
  se_elapsed :: rat

type_synonym 'w seed_end = "seed_line list \<times> main_end \<times> 'w"

definition client_of :: "'w seed_env \<Rightarrow> seed_args \<Rightarrow> 'w seed_client" where
  "client_of env args = se_redis env (sd_host args) (sd_port args) (sd_db args) (sd_password args)"

text \<open>Connecting and flushing, which both scripts do in the same way, and then the rest.\<close>

definition connected ::
    "'w seed_env \<Rightarrow> seed_args \<Rightarrow> 'w \<Rightarrow> (seed_line list \<Rightarrow> 'w \<Rightarrow> 'w seed_end) \<Rightarrow> 'w seed_end"
where
  "connected env args w rest =
     (let c = client_of env args
      in case sc_ping c w of
           (Inl e, w1) \<Rightarrow>
             if se_connection_error env e
             then ([ComplainedOf (L ''error: cannot connect to Redis at '' @ sd_host args @ L '':'' @ str_int (sd_port args) @ L '': '') e],
                   Exit 1, w1)
             else ([], Raised e, w1)
         | (Inr u, w1) \<Rightarrow>
             if sd_flush args then
               (case sc_flushdb c w1 of
                  (Inl e, w2) \<Rightarrow> ([], Raised e, w2)
                | (Inr u, w2) \<Rightarrow> rest [Printed (L ''Flushed Redis DB '' @ str_int (sd_db args) @ L ''.'')] w2)
             else rest [] w1)"

definition closed :: "'w seed_client \<Rightarrow> seed_line list \<Rightarrow> 'w \<Rightarrow> 'w seed_end" where
  "closed c lines w =
     (case sc_close c w of (Inl e, w') \<Rightarrow> (lines, Raised e, w') | (Inr u, w') \<Rightarrow> (lines, Exit 0, w'))"

definition writing_line :: "int \<Rightarrow> int list \<Rightarrow> pystr" where
  "writing_line n_keys counts =
     L ''Writing '' @ str_int n_keys @ L '' keys as strings='' @ str_int (counts ! 0) @ L '', hashes='' @ str_int (counts ! 1)
     @ L '', lists='' @ str_int (counts ! 2) @ L '', sets='' @ str_int (counts ! 3) @ L '', zsets='' @ str_int (counts ! 4)
     @ [32, 8230]"

definition sample_run :: "'w seed_env \<Rightarrow> seed_args \<Rightarrow> 'w \<Rightarrow> 'w seed_end" where
  "sample_run env args w =
     (case split_counts (sd_count args) 5 of
        Inl e \<Rightarrow> ([Complained (L ''error: count must be >= 5 (one key per supported type)'')], Exit 2, w)
      | Inr counts \<Rightarrow>
          connected env args w (\<lambda>lines w1.
            let lines' = lines @ [Printed (writing_line (sd_count args) counts)]
            in case seed_sample (se_enum env) (se_elapsed env) (client_of env args) (sd_count args) w1 of
                 (said, Inl e, w2) \<Rightarrow> (lines' @ said, Raised e, w2)
               | (said, Inr u, w2) \<Rightarrow> closed (client_of env args) (lines' @ said) w2))"

definition sample_main :: "'w seed_env \<Rightarrow> pystr list \<Rightarrow> 'w \<Rightarrow> 'w seed_end" where
  "sample_main env argv w =
     (case parse_with sample_parser argv of
        SystemExit n \<Rightarrow> ([], Exit n, w)
      | Parsed ns \<Rightarrow> sample_run env (seed_args_of ns) w)"

text \<open>The depth per route: given, derived from the count, or refused with a message.\<close>

definition routing_depth :: "seed_args \<Rightarrow> int res + pystr" where
  "routing_depth args =
     (case sd_per_route args of
        Some n \<Rightarrow> if n < 1 then Inr (L ''error: --per-route must be >= 1'') else Inl (Inr n)
      | None \<Rightarrow>
          if sd_count args < 1 then Inr (L ''error: --count must be >= 1'')
          else Inl (per_route_for_at_least_total (sd_count args)))"

definition target_line :: "int \<Rightarrow> int \<Rightarrow> pystr" where
  "target_line n_keys per_route =
     L ''Targeting >= '' @ str_int n_keys @ L '' keys (per-route depth '' @ str_int per_route @ [32, 8594, 32]
     @ str_int (total_keys_for_per_route per_route) @ L '' keys) '' @ [8230]"

definition routing_run :: "'w seed_env \<Rightarrow> seed_args \<Rightarrow> 'w \<Rightarrow> 'w seed_end" where
  "routing_run env args w =
     (case routing_depth args of
        Inr msg \<Rightarrow> ([Complained msg], Exit 2, w)
      | Inl (Inl e) \<Rightarrow> ([], Raised e, w)
      | Inl (Inr per_route) \<Rightarrow>
          connected env args w (\<lambda>lines w1.
            let lines' = lines @ (if sd_per_route args = None then [Printed (target_line (sd_count args) per_route)] else [])
            in case seed_routing (se_elapsed env) (client_of env args) per_route w1 of
                 (said, Inl e, w2) \<Rightarrow> (lines' @ said, Raised e, w2)
               | (said, Inr n, w2) \<Rightarrow> closed (client_of env args) (lines' @ said) w2))"

definition routing_main :: "'w seed_env \<Rightarrow> pystr list \<Rightarrow> 'w \<Rightarrow> 'w seed_end" where
  "routing_main env argv w =
     (case parse_with routing_parser argv of
        SystemExit n \<Rightarrow> ([], Exit n, w)
      | Parsed ns \<Rightarrow> routing_run env (seed_args_of ns) w)"

end
