(* ===== verification/Seed_Facts.thy ===== *)
theory Seed_Facts
  imports Seed
begin

text \<open>
  The seed scripts without the server: the pipelines send exactly the commands that the loops queue, in
  bounded batches; the counts of the five types; and the depth that is derived from a number of keys.
\<close>

section \<open>Pipelines\<close>

text \<open>The batches that are executed, from the turns alone.\<close>

fun batches_of :: "turn list \<Rightarrow> pipe \<Rightarrow> seed_cmd list list" where
  "batches_of [] (pending, cmds0) = (if pending \<noteq> 0 then [cmds0] else [])"
| "batches_of ((cmds, n) # turns) (pending, cmds0) =
     (if PIPELINE_CHUNK \<le> pending + n then (cmds0 @ cmds) # batches_of turns (0, [])
      else batches_of turns (pending + n, cmds0 @ cmds))"

fun execute_all :: "'w seed_client \<Rightarrow> seed_cmd list list \<Rightarrow> 'w \<Rightarrow> unit res \<times> 'w" where
  "execute_all c [] w = (Inr (), w)"
| "execute_all c (b # bs) w =
     (case sc_execute c w b of (Inl e, w') \<Rightarrow> (Inl e, w') | (Inr u, w') \<Rightarrow> execute_all c bs w')"

lemma run_turns_batches:
  "(case run_turns c turns p w of
      (Inl e, w') \<Rightarrow> (Inl e, w')
    | (Inr (pending, cmds0), w') \<Rightarrow> if pending \<noteq> 0 then sc_execute c w' cmds0 else (Inr (), w')) =
   execute_all c (batches_of turns p) w"
proof (induction turns arbitrary: p w)
  case Nil
  obtain pending cmds0 where "p = (pending, cmds0)" by (cases p)
  then show ?case by (auto split: prod.splits sum.splits)
next
  case (Cons turn turns)
  obtain pending cmds0 cmds n where p: "p = (pending, cmds0)" "turn = (cmds, n)" by (cases p; cases turn)
  show ?case by (simp add: p flush_if_needed_def Cons.IH [symmetric] split: prod.splits sum.splits)
qed

lemma send_all_batches: "send_all c turns w = execute_all c (batches_of turns (0, [])) w"
  unfolding run_turns_batches [of c turns "(0, [])" w, symmetric] by (auto simp: send_all_def split: prod.splits sum.splits)

text \<open>Turns that count what they queue, at most two commands each.\<close>

definition counted_turn :: "turn \<Rightarrow> bool" where
  "counted_turn t \<longleftrightarrow> snd t = length (fst t) \<and> 1 \<le> snd t \<and> snd t \<le> 2"

lemma concat_batches:
  assumes "list_all counted_turn turns"
  shows "concat (batches_of turns (length cmds0, cmds0)) = cmds0 @ concat (map fst turns)"
  using assms
proof (induction turns arbitrary: cmds0)
  case (Cons turn turns)
  obtain cmds where t: "turn = (cmds, length cmds)" using Cons.prems by (cases turn) (simp add: counted_turn_def)
  have "concat (batches_of turns (0, [])) = concat (map fst turns)"
    using Cons.IH [of "[]"] Cons.prems by simp
  moreover have "concat (batches_of turns (length cmds0 + length cmds, cmds0 @ cmds)) =
      cmds0 @ cmds @ concat (map fst turns)"
    using Cons.IH [of "cmds0 @ cmds"] Cons.prems by simp
  ultimately show ?case by (simp add: t)
qed simp

lemma batches_size:
  assumes "list_all counted_turn turns" "length cmds0 < PIPELINE_CHUNK"
  shows "list_all (\<lambda>b. b \<noteq> [] \<and> length b \<le> PIPELINE_CHUNK + 1) (batches_of turns (length cmds0, cmds0))"
  using assms
proof (induction turns arbitrary: cmds0)
  case (Cons turn turns)
  obtain cmds where t: "turn = (cmds, length cmds)" "cmds \<noteq> []" "length cmds \<le> 2"
    using Cons.prems by (cases turn) (auto simp: counted_turn_def Suc_le_eq)
  have "list_all (\<lambda>b. b \<noteq> [] \<and> length b \<le> PIPELINE_CHUNK + 1) (batches_of turns (0, []))"
    using Cons.IH [of "[]"] Cons.prems by (simp add: PIPELINE_CHUNK_def)
  moreover have "list_all (\<lambda>b. b \<noteq> [] \<and> length b \<le> PIPELINE_CHUNK + 1) (batches_of turns (length cmds0 + length cmds, cmds0 @ cmds))"
    if "length cmds0 + length cmds < PIPELINE_CHUNK"
    using Cons.IH [of "cmds0 @ cmds"] Cons.prems that by simp
  ultimately show ?case using Cons.prems(2) t by (simp add: not_le)
qed simp

text \<open>
  A seed sends exactly the commands that its loops queue, in their order, in batches of at most one
  more than the chunk; the first batch that fails ends it.
\<close>

lemma send_all_stream:
  assumes "list_all counted_turn turns"
  shows "\<exists>bs. send_all c turns w = execute_all c bs w \<and> concat bs = concat (map fst turns) \<and>
    list_all (\<lambda>b. b \<noteq> [] \<and> length b \<le> PIPELINE_CHUNK + 1) bs"
  using concat_batches [OF assms, of "[]"] batches_size [OF assms, of "[]"]
  by (intro exI [of _ "batches_of turns (0, [])"]) (simp add: send_all_batches PIPELINE_CHUNK_def)

section \<open>Counts\<close>

lemma split_counts_five:
  assumes "5 \<le> n"
  obtains a b c d e where "split_counts n 5 = Inr [a, b, c, d, e]" "a + b + c + d + e = n"
    "list_all (\<lambda>x. n div 5 \<le> x \<and> x \<le> n div 5 + 1) [a, b, c, d, e]"
proof -
  define q r where "q = n div 5" and "r = n mod 5"
  let ?f = "\<lambda>i. q + (if int i < r then 1 else 0 :: int)"
  have "[0 ..< nat 5] = [0, 1, 2, 3, 4]" by (simp add: upt_rec)
  then have s: "split_counts n 5 = Inr [?f 0, ?f 1, ?f 2, ?f 3, ?f 4]"
    using assms by (simp add: split_counts_def Let_def q_def r_def)
  have n: "n = 5 * q + r" "0 \<le> r" "r < 5" by (simp_all add: q_def r_def)
  then have "?f 0 + ?f 1 + ?f 2 + ?f 3 + ?f 4 = n" by auto
  then show ?thesis using s by (intro that) (auto simp: q_def)
qed

lemma split_counts_small: "n < 5 \<Longrightarrow> split_counts n 5 = Inl ValueError"
  by (simp add: split_counts_def)

section \<open>The depth of the routes\<close>

lemma ceil_div_4_25_exact:
  assumes "0 < m" "m < 2 ^ 42"
  shows "ceil_div_4_25 m = Inr ((4 * m + 16) div 17)"
proof -
  have "0 < nat m" "nat m < 2 ^ 44" using assms by auto
  then obtain a e k where f: "int_truediv m 1 = Inr (FFin False a e)" "float_ratio a e = (nat m * 2 ^ k, 2 ^ k)"
    using int_to_float_exact [of "nat m"] assms(1) by (metis int_nat_eq less_imp_le)
  have "py_ceil (round_ratio False (4 * nat m * 2 ^ k) (17 * 2 ^ k)) = Inr ((int (4 * nat m) + int 17 - 1) div int 17)"
    using assms by (intro ceil_quotient_small) auto
  then show ?thesis using assms(1) by (simp add: ceil_div_4_25_def f ac_simps del: One_nat_def)
qed

lemma total_keys_at_depth: "m \<le> total_keys_for_per_route ((4 * m + 16) div 17)"
  unfolding total_keys_for_per_route_def Let_def by presburger

lemma raise_depth_enough: "n \<le> raise_depth m n \<and> m \<le> total_keys_for_per_route (raise_depth m n)"
proof (induction m n rule: raise_depth.induct)
  case (1 m n)
  then show ?case by (subst (1 2) raise_depth.simps) auto
qed

lemma routing_depth_enough:
  assumes "routing_depth args = Inl (Inr n)"
  shows "1 \<le> n" "sd_per_route args = None \<Longrightarrow> sd_count args \<le> total_keys_for_per_route n" "sd_per_route args = Some d \<Longrightarrow> n = d"
  using assms raise_depth_enough [of "max 1 _" "sd_count args"]
  by (auto simp: routing_depth_def per_route_for_at_least_total_def rmap_eq_Inr split: option.splits if_splits)

text \<open>
  C38 The depth that is derived from a wanted number of keys: it is the exact ceiling of the number divided
  by 4.25, although the program divides in floating point, so the loop that would raise it never turns;
  it is enough, and it is at most one more than the smallest depth that is enough.
\<close>

theorem per_route_for_total:
  assumes "0 < m" "m < 2 ^ 42"
  shows "\<exists>n. per_route_for_at_least_total m = Inr n \<and> n = (4 * m + 16) div 17 \<and> 1 \<le> n \<and>
    m \<le> total_keys_for_per_route n \<and> (\<forall>d. m \<le> total_keys_for_per_route d \<longrightarrow> n \<le> d + 1)"
proof -
  let ?n = "(4 * m + 16) div 17"
  have n: "1 \<le> ?n" using assms(1) by presburger
  have "raise_depth m ?n = ?n" using total_keys_at_depth [of m] by (subst raise_depth.simps) simp
  then have "per_route_for_at_least_total m = Inr ?n"
    using n assms by (simp add: per_route_for_at_least_total_def ceil_div_4_25_exact max_def)
  moreover have "?n \<le> d + 1" if "m \<le> total_keys_for_per_route d" for d
    using that unfolding total_keys_for_per_route_def Let_def by presburger
  ultimately show ?thesis using n total_keys_at_depth by blast
qed

theorem per_route_for_total_witness:
  "per_route_for_at_least_total 5 = Inr 2 \<and> total_keys_for_per_route 1 = 5 \<and>
   per_route_for_at_least_total 10000 = Inr 2353 \<and> total_keys_for_per_route 2353 = 10001"
  using per_route_for_total [of 5] per_route_for_total [of 10000] by (auto simp: total_keys_for_per_route_def)

end
