(* ===== verification/Seed_Keyspace.thy ===== *)
theory Seed_Keyspace
  imports Seed_Facts Source_Facts
begin

text \<open>
  What the commands of the seed scripts do to the keyspace of a Redis server. The server is not code of
  the program: its documented behaviour is stated here as laws about a view of the client's state, with
  the orders in which it replies as parameters, and a reference server satisfies them.
\<close>

section \<open>Commands on one key\<close>

type_synonym entry = "pystr \<times> redis_value \<times> int option"
type_synonym orders = "(pyscalar list \<Rightarrow> pyscalar list) \<times> ((pyscalar \<times> pyscalar) list \<Rightarrow> (pyscalar \<times> pyscalar) list)"

definition permuting :: "orders \<Rightarrow> bool" where
  "permuting ord \<longleftrightarrow> (\<forall>xs. mset (fst ord xs) = mset xs) \<and> (\<forall>ps. mset (snd ord ps) = mset ps)"

fun key_of :: "seed_cmd \<Rightarrow> bytes" where
  "key_of (CSet k v ex) = utf8_encode k"
| "key_of (CHset k fs) = utf8_encode k"
| "key_of (CDelete k) = utf8_encode k"
| "key_of (CRpush k xs) = utf8_encode k"
| "key_of (CSadd k xs) = utf8_encode k"
| "key_of (CZadd k ps) = utf8_encode k"

fun value_bytes :: "seed_value \<Rightarrow> bytes" where
  "value_bytes (VText s) = utf8_encode s"
| "value_bytes (VBytes b) = b"

definition raw :: "pystr \<Rightarrow> pyscalar" where
  "raw s = SBytes (utf8_encode s)"

text \<open>Scores are doubles in the server.\<close>

fun score_of :: "pyscalar \<Rightarrow> pyscalar" where
  "score_of (SInt i) = SFloat (round_ratio (i < 0) (nat \<bar>i\<bar>) 1)"
| "score_of s = s"

text \<open>
  The effect of a command on the entry of its key: \<open>None\<close> is the reply WRONGTYPE, which changes nothing.
  A value under a new key has no expiry; an expiry is only set with the value.
\<close>

definition amend :: "pystr \<Rightarrow> redis_value \<Rightarrow> (redis_value \<Rightarrow> redis_value option) \<Rightarrow> entry option \<Rightarrow> entry option option" where
  "amend t fresh f e =
     (case e of
        None \<Rightarrow> map_option (\<lambda>v. Some (t, v, None)) (f fresh)
      | Some (t', v, x) \<Rightarrow> if t' = t then map_option (\<lambda>v'. Some (t, v', x)) (f v) else None)"

definition add_fields :: "(pystr \<times> pystr) list \<Rightarrow> redis_value \<Rightarrow> redis_value option" where
  "add_fields fs v = (case v of RHash d \<Rightarrow> Some (RHash (kset_all (\<lambda>k. k) (map (map_prod raw raw) fs) d)) | _ \<Rightarrow> None)"

definition add_items :: "pystr list \<Rightarrow> redis_value \<Rightarrow> redis_value option" where
  "add_items xs v = (case v of RList ys \<Rightarrow> Some (RList (ys @ map raw xs)) | _ \<Rightarrow> None)"

definition add_members :: "orders \<Rightarrow> pystr list \<Rightarrow> redis_value \<Rightarrow> redis_value option" where
  "add_members ord xs v = (case v of RSet ys \<Rightarrow> Some (RSet (fst ord (remdups (ys @ map raw xs)))) | _ \<Rightarrow> None)"

definition add_scores :: "orders \<Rightarrow> (pystr \<times> pyscalar) list \<Rightarrow> redis_value \<Rightarrow> redis_value option" where
  "add_scores ord ps v =
     (case v of RZset d \<Rightarrow> Some (RZset (snd ord (kset_all (\<lambda>k. k) (map (map_prod raw score_of) ps) d))) | _ \<Rightarrow> None)"

fun on_entry :: "orders \<Rightarrow> seed_cmd \<Rightarrow> entry option \<Rightarrow> entry option option" where
  "on_entry ord (CSet k v ex) e = Some (Some (L ''string'', RScalar (SBytes (value_bytes v)), map_option ((*) 1000) ex))"
| "on_entry ord (CDelete k) e = Some None"
| "on_entry ord (CHset k fs) e = amend (L ''hash'') (RHash []) (add_fields fs) e"
| "on_entry ord (CRpush k xs) e = amend (L ''list'') (RList []) (add_items xs) e"
| "on_entry ord (CSadd k xs) e = amend (L ''set'') (RSet []) (add_members ord xs) e"
| "on_entry ord (CZadd k ps) e = amend (L ''zset'') (RZset []) (add_scores ord ps) e"

section \<open>Commands on the keyspace\<close>

definition apply_cmd :: "orders \<Rightarrow> seed_cmd \<Rightarrow> database \<Rightarrow> database" where
  "apply_cmd ord cmd db = (case on_entry ord cmd (db (key_of cmd)) of None \<Rightarrow> db | Some e \<Rightarrow> db(key_of cmd := e))"

abbreviation apply_cmds :: "orders \<Rightarrow> seed_cmd list \<Rightarrow> database \<Rightarrow> database" where
  "apply_cmds ord \<equiv> fold (apply_cmd ord)"

fun accepted :: "orders \<Rightarrow> seed_cmd list \<Rightarrow> database \<Rightarrow> bool" where
  "accepted ord [] db \<longleftrightarrow> True"
| "accepted ord (cmd # cmds) db \<longleftrightarrow> on_entry ord cmd (db (key_of cmd)) \<noteq> None \<and> accepted ord cmds (apply_cmd ord cmd db)"

lemma accepted_append: "accepted ord (xs @ ys) db \<longleftrightarrow> accepted ord xs db \<and> accepted ord ys (apply_cmds ord xs db)"
  by (induction xs arbitrary: db) auto

lemma apply_cmd_other: "k \<noteq> key_of cmd \<Longrightarrow> apply_cmd ord cmd db k = db k"
  by (simp add: apply_cmd_def split: option.splits)

lemma apply_cmds_other: "k \<notin> key_of ` set cmds \<Longrightarrow> apply_cmds ord cmds db k = db k"
  by (induction cmds arbitrary: db) (auto simp: apply_cmd_other)

text \<open>
  The laws of a server: a pipeline applies its commands in their order, all of them when it answers
  and some first ones when it fails before; a ping and a close change nothing; flushing empties the
  database. A server that is up answers everything, and a pipeline raises exactly when a command was
  refused.
\<close>

definition redis_laws :: "'w seed_client \<Rightarrow> ('w \<Rightarrow> database) \<Rightarrow> orders \<Rightarrow> bool" where
  "redis_laws c look ord \<longleftrightarrow> permuting ord \<and>
     (\<forall>w. look (snd (sc_ping c w)) = look w) \<and> (\<forall>w. look (snd (sc_close c w)) = look w) \<and>
     (\<forall>w. look (snd (sc_flushdb c w)) = Map.empty \<or> fst (sc_flushdb c w) \<noteq> Inr () \<and> look (snd (sc_flushdb c w)) = look w) \<and>
     (\<forall>w cmds. \<exists>n. look (snd (sc_execute c w cmds)) = apply_cmds ord (take n cmds) (look w) \<and>
        (fst (sc_execute c w cmds) = Inr () \<longrightarrow> length cmds \<le> n))"

definition server_up :: "'w seed_client \<Rightarrow> ('w \<Rightarrow> database) \<Rightarrow> orders \<Rightarrow> bool" where
  "server_up c look ord \<longleftrightarrow>
     (\<forall>w. fst (sc_ping c w) = Inr () \<and> fst (sc_close c w) = Inr () \<and> fst (sc_flushdb c w) = Inr ()) \<and>
     (\<forall>w cmds. fst (sc_execute c w cmds) = Inr () \<longleftrightarrow> accepted ord cmds (look w))"

section \<open>Several batches\<close>

lemma execute_all_safe:
  assumes "redis_laws c look ord"
  shows "\<exists>n. look (snd (execute_all c bs w)) = apply_cmds ord (take n (concat bs)) (look w)"
proof (induction bs arbitrary: w)
  case (Cons b bs)
  obtain r w1 where x: "sc_execute c w b = (r, w1)" by (cases "sc_execute c w b")
  then obtain n where n: "look w1 = apply_cmds ord (take n b) (look w)" "r = Inr () \<longrightarrow> length b \<le> n"
    using assms unfolding redis_laws_def by (metis fst_conv snd_conv)
  show ?case
  proof (cases r)
    case (Inl e)
    then have "look (snd (execute_all c (b # bs) w)) = apply_cmds ord (take (min n (length b)) (concat (b # bs))) (look w)"
      using x n(1) by (simp add: min_def)
    then show ?thesis by blast
  next
    case (Inr u)
    obtain m where "look (snd (execute_all c bs w1)) = apply_cmds ord (take m (concat bs)) (look w1)" using Cons.IH by blast
    then have "look (snd (execute_all c (b # bs) w)) = apply_cmds ord (take (length b + m) (concat (b # bs))) (look w)"
      using x n Inr by simp
    then show ?thesis by blast
  qed
qed (auto intro: exI [of _ 0])

lemma execute_all_up:
  assumes "redis_laws c look ord" "server_up c look ord" "accepted ord (concat bs) (look w)"
  shows "fst (execute_all c bs w) = Inr () \<and> look (snd (execute_all c bs w)) = apply_cmds ord (concat bs) (look w)"
  using assms(3)
proof (induction bs arbitrary: w)
  case (Cons b bs)
  obtain r w1 where x: "sc_execute c w b = (r, w1)" by (cases "sc_execute c w b")
  have b: "accepted ord b (look w)" "accepted ord (concat bs) (apply_cmds ord b (look w))"
    using Cons.prems by (simp_all add: accepted_append)
  then have r: "r = Inr ()" using assms(2) x unfolding server_up_def by (metis fst_conv)
  then obtain n where "look w1 = apply_cmds ord (take n b) (look w)" "length b \<le> n"
    using assms(1) x unfolding redis_laws_def by (metis fst_conv snd_conv)
  then have "look w1 = apply_cmds ord b (look w)" by simp
  then show ?case using Cons.IH [of w1] b x r by simp
qed simp

section \<open>Commands of one key together\<close>

fun run_entry :: "orders \<Rightarrow> seed_cmd list \<Rightarrow> entry option \<Rightarrow> bool \<times> entry option" where
  "run_entry ord [] e = (True, e)"
| "run_entry ord (cmd # cmds) e =
     (case on_entry ord cmd e of
        None \<Rightarrow> (False, snd (run_entry ord cmds e))
      | Some e' \<Rightarrow> run_entry ord cmds e')"

lemma apply_cmds_one_key:
  assumes "\<forall>cmd \<in> set cmds. key_of cmd = k"
  shows "apply_cmds ord cmds db = db(k := snd (run_entry ord cmds (db k))) \<and>
    (accepted ord cmds db \<longleftrightarrow> fst (run_entry ord cmds (db k)))"
  using assms
proof (induction cmds arbitrary: db)
  case (Cons cmd cmds)
  then show ?case using Cons.IH [of "apply_cmd ord cmd db"]
    by (auto simp: apply_cmd_def split: option.splits)
qed simp

text \<open>Turns that work on one key each, all different.\<close>

definition turn_key :: "turn \<Rightarrow> bytes" where
  "turn_key t = key_of (hd (fst t))"

definition one_key :: "turn \<Rightarrow> bool" where
  "one_key t \<longleftrightarrow> (\<forall>cmd \<in> set (fst t). key_of cmd = turn_key t)"

lemma apply_turns:
  assumes "list_all one_key turns" "distinct (map turn_key turns)"
  shows "(\<forall>t \<in> set turns. apply_cmds ord (concat (map fst turns)) db (turn_key t) = snd (run_entry ord (fst t) (db (turn_key t)))) \<and>
    (\<forall>k. k \<notin> turn_key ` set turns \<longrightarrow> apply_cmds ord (concat (map fst turns)) db k = db k) \<and>
    (accepted ord (concat (map fst turns)) db \<longleftrightarrow> (\<forall>t \<in> set turns. fst (run_entry ord (fst t) (db (turn_key t)))))"
  using assms
proof (induction turns arbitrary: db)
  case (Cons t turns)
  define db1 where "db1 = db(turn_key t := snd (run_entry ord (fst t) (db (turn_key t))))"
  have t: "apply_cmds ord (fst t) db = db1" "accepted ord (fst t) db \<longleftrightarrow> fst (run_entry ord (fst t) (db (turn_key t)))"
    using apply_cmds_one_key [of "fst t" "turn_key t" ord db] Cons.prems(1) by (simp_all add: one_key_def db1_def)
  have keep: "db1 k = db k" if "k \<noteq> turn_key t" for k using that by (simp add: db1_def)
  have new: "turn_key u \<noteq> turn_key t" if "u \<in> set turns" for u using Cons.prems(2) that by (auto simp: image_iff)
  have own: "db1 (turn_key t) = snd (run_entry ord (fst t) (db (turn_key t)))" by (simp add: db1_def)
  have "list_all one_key turns" "distinct (map turn_key turns)" using Cons.prems by simp_all
  from Cons.IH [OF this, of db1] new Cons.prems(2) show ?case
    by (simp add: t accepted_append keep own del: split_paired_All split_paired_Ball_Sigma)
qed simp

section \<open>Well-shaped databases\<close>

fun shaped_entry :: "entry \<Rightarrow> bool" where
  "shaped_entry (t, v, x) \<longleftrightarrow>
     wf_text t \<and> t \<noteq> L ''none'' \<and> \<not> is_vanished (SStr t) v \<and> (\<forall>i. x = Some i \<longrightarrow> 0 \<le> i) \<and>
     (t \<notin> set supported_types \<longrightarrow> v = RScalar (SInt 1)) \<and>
     well_shaped \<lparr>rr_key = KStr [], rr_type = t, rr_value = v, rr_ttl_ms = x\<rparr>"

definition shaped_db :: "database \<Rightarrow> bool" where
  "shaped_db db \<longleftrightarrow> (\<forall>k e. db k = Some e \<longrightarrow> shaped_entry e)"

lemma shaped_db_empty [simp]: "shaped_db Map.empty"
  by (simp add: shaped_db_def)

text \<open>This is what the source relies on, and its records are well-shaped.\<close>

lemma shaped_db_ok: "shaped_db db \<Longrightarrow> db_ok db \<and> (\<forall>k. db k \<noteq> None \<longrightarrow> well_shaped (db_record db k))"
  by (fastforce simp: shaped_db_def db_ok_def db_record_def well_shaped_def split: prod.splits)

text \<open>The shapes of the values, without the lists of bytes they are images of.\<close>

definition bytes_scalar :: "pyscalar \<Rightarrow> bool" where
  "bytes_scalar v \<longleftrightarrow> v \<in> range SBytes"

definition float_scalar :: "pyscalar \<Rightarrow> bool" where
  "float_scalar v \<longleftrightarrow> v \<in> range SFloat"

lemma raw_bytes [simp]: "bytes_scalar (raw s)"
  by (simp add: bytes_scalar_def raw_def)

lemma all_image_iff: "(\<exists>ys. xs = map f ys \<and> distinct ys) \<longleftrightarrow> list_all (\<lambda>x. x \<in> range f) xs \<and> distinct xs" if "inj f"
proof
  assume "list_all (\<lambda>x. x \<in> range f) xs \<and> distinct xs"
  then show "\<exists>ys. xs = map f ys \<and> distinct ys"
    by (intro exI [of _ "map (inv f) xs"])
      (auto simp: list_all_iff distinct_map comp_def f_inv_into_f intro!: map_idI [symmetric] inj_on_inv_into)
qed (auto simp: list_all_iff distinct_map intro: inj_on_subset [OF that subset_UNIV])

lemma all_pairs_iff:
  assumes "inj f"
  shows "(\<exists>ps. xs = map (\<lambda>(a, b). (f a, g b)) ps \<and> distinct (map fst ps)) \<longleftrightarrow>
    list_all (\<lambda>p. fst p \<in> range f \<and> snd p \<in> range g) xs \<and> distinct (map fst xs)"
    (is "?l \<longleftrightarrow> ?r")
proof
  assume ?l
  then obtain ps where ps: "xs = map (\<lambda>(a, b). (f a, g b)) ps" "distinct (map fst ps)" by blast
  have "map fst xs = map f (map fst ps)" by (simp add: ps(1) comp_def case_prod_beta)
  then have "distinct (map fst xs)" using ps(2) inj_on_subset [OF assms subset_UNIV] by (metis distinct_map)
  then show ?r by (auto simp: ps(1) list_all_iff)
next
  assume r: ?r
  then have "map fst xs = map f (map (\<lambda>p. inv f (fst p)) xs)"
    by (auto simp: list_all_iff comp_def f_inv_into_f)
  then have "distinct (map (\<lambda>p. inv f (fst p)) xs)" using r by (metis distinct_map)
  moreover have "xs = map (\<lambda>(a, b). (f a, g b)) (map (\<lambda>p. (inv f (fst p), inv g (snd p))) xs)"
    using r by (auto simp: list_all_iff comp_def f_inv_into_f intro!: map_idI [symmetric])
  ultimately show ?l by (intro exI [of _ "map (\<lambda>p. (inv f (fst p), inv g (snd p))) xs"]) (simp add: comp_def)
qed

lemma list_image_iff: "(\<exists>ys. xs = map f ys) \<longleftrightarrow> list_all (\<lambda>x. x \<in> range f) xs"
proof
  assume "list_all (\<lambda>x. x \<in> range f) xs"
  then show "\<exists>ys. xs = map f ys"
    by (intro exI [of _ "map (inv f) xs"]) (auto simp: list_all_iff comp_def f_inv_into_f intro!: map_idI [symmetric])
qed (auto simp: list_all_iff)

lemma inj_scalars: "inj SBytes" "inj SFloat"
  by (simp_all add: inj_def)

lemma byte_lists:
  "(\<exists>ys. xs = map SBytes ys) \<longleftrightarrow> list_all bytes_scalar xs"
  "(\<exists>ys. xs = map SBytes ys \<and> distinct ys) \<longleftrightarrow> list_all bytes_scalar xs \<and> distinct xs"
  "(\<exists>ps. zs = map (\<lambda>(a, b). (SBytes a, SBytes b)) ps \<and> distinct (map fst ps)) \<longleftrightarrow>
    list_all (\<lambda>p. bytes_scalar (fst p) \<and> bytes_scalar (snd p)) zs \<and> distinct (map fst zs)"
  "(\<exists>ps. zs = map (\<lambda>(a, b). (SBytes a, SFloat b)) ps \<and> distinct (map fst ps)) \<longleftrightarrow>
    list_all (\<lambda>p. bytes_scalar (fst p) \<and> float_scalar (snd p)) zs \<and> distinct (map fst zs)"
  by (simp_all only: list_image_iff all_image_iff [OF inj_scalars(1)] all_pairs_iff [OF inj_scalars(1)]
      bytes_scalar_def [abs_def] float_scalar_def)

lemma type_names:
  "wf_text (L ''string'')" "wf_text (L ''hash'')" "wf_text (L ''list'')" "wf_text (L ''set'')" "wf_text (L ''zset'')"
  by (simp_all add: wf_text_def scalar_def L_def)

lemma shaped_entry_cases:
  "shaped_entry (L ''string'', RScalar (SBytes b), x) \<longleftrightarrow> (\<forall>i. x = Some i \<longrightarrow> 0 \<le> i)"
  "shaped_entry (L ''hash'', RHash d, x) \<longleftrightarrow> (\<forall>i. x = Some i \<longrightarrow> 0 \<le> i) \<and> d \<noteq> [] \<and>
     list_all (\<lambda>p. bytes_scalar (fst p) \<and> bytes_scalar (snd p)) d \<and> distinct (map fst d)"
  "shaped_entry (L ''list'', RList xs, x) \<longleftrightarrow> (\<forall>i. x = Some i \<longrightarrow> 0 \<le> i) \<and> xs \<noteq> [] \<and> list_all bytes_scalar xs"
  "shaped_entry (L ''set'', RSet xs, x) \<longleftrightarrow>
     (\<forall>i. x = Some i \<longrightarrow> 0 \<le> i) \<and> xs \<noteq> [] \<and> list_all bytes_scalar xs \<and> distinct xs"
  "shaped_entry (L ''zset'', RZset ps, x) \<longleftrightarrow> (\<forall>i. x = Some i \<longrightarrow> 0 \<le> i) \<and> ps \<noteq> [] \<and>
     list_all (\<lambda>p. bytes_scalar (fst p) \<and> float_scalar (snd p)) ps \<and> distinct (map fst ps)"
  by (simp_all add: well_shaped_def is_vanished_def supported_types_def type_names byte_lists) blast+

lemma shaped_hash: "shaped_entry (L ''hash'', v, x) \<Longrightarrow> \<exists>d. v = RHash d"
  by (auto simp: well_shaped_def)

declare shaped_entry.simps [simp del]

section \<open>Turns and the types they leave\<close>

text \<open>
  A turn for one key that is accepted and leaves a well-shaped entry of a type, whatever its key held; a
  hash is only accepted where there was nothing or a hash.
\<close>

definition admits :: "pystr \<Rightarrow> entry option \<Rightarrow> bool" where
  "admits t e \<longleftrightarrow> (\<forall>e0. e = Some e0 \<longrightarrow> shaped_entry e0 \<and> (t = L ''hash'' \<longrightarrow> fst e0 = L ''hash''))"

definition leaves :: "orders \<Rightarrow> pystr \<Rightarrow> turn \<Rightarrow> bool" where
  "leaves ord t u \<longleftrightarrow> one_key u \<and> counted_turn u \<and>
     (\<forall>e. admits t e \<longrightarrow> fst (run_entry ord (fst u) e) \<and>
        (\<exists>e'. snd (run_entry ord (fst u) e) = Some e' \<and> fst e' = t \<and> shaped_entry e'))"

lemma kset_all_nonempty: "xs \<noteq> [] \<or> d \<noteq> [] \<Longrightarrow> kset_all nf xs d \<noteq> []"
  using kset_all_keys [of nf xs d] by auto

lemma list_all_kset_all: "list_all P xs \<Longrightarrow> list_all P d \<Longrightarrow> list_all P (kset_all (\<lambda>k. k) xs d)"
  unfolding kset_all_def by (induction xs arbitrary: d) (auto intro: list_all_kset)

lemma permuting_facts:
  assumes "permuting ord"
  shows "set (fst ord xs) = set xs" "distinct (fst ord xs) \<longleftrightarrow> distinct xs" "fst ord xs = [] \<longleftrightarrow> xs = []"
    and "set (snd ord ps) = set ps" "distinct (map fst (snd ord ps)) \<longleftrightarrow> distinct (map fst ps)" "snd ord ps = [] \<longleftrightarrow> ps = []"
proof -
  have m: "mset (fst ord xs) = mset xs" "mset (snd ord ps) = mset ps" using assms by (simp_all add: permuting_def)
  show "set (fst ord xs) = set xs" "set (snd ord ps) = set ps" using m by (metis set_mset_mset)+
  show "distinct (fst ord xs) \<longleftrightarrow> distinct xs" using m(1) by (rule mset_eq_imp_distinct_iff)
  show "distinct (map fst (snd ord ps)) \<longleftrightarrow> distinct (map fst ps)" using m(2) by (intro mset_eq_imp_distinct_iff) (simp add: mset_map)
  show "fst ord xs = [] \<longleftrightarrow> xs = []" "snd ord ps = [] \<longleftrightarrow> ps = []" using m by (metis mset_zero_iff)+
qed

lemmas leaves_simps = leaves_def admits_def one_key_def turn_key_def counted_turn_def amend_def

lemma leaves_string:
  assumes "\<And>s. ex = Some s \<Longrightarrow> 0 \<le> s"
  shows "leaves ord (L ''string'') ([CSet k v ex], 1)"
  using assms by (auto simp: leaves_simps shaped_entry_cases)

lemma leaves_hash:
  assumes "fs \<noteq> []"
  shows "leaves ord (L ''hash'') ([CHset k fs], 1)"
proof -
  let ?P = "\<lambda>p. bytes_scalar (fst p) \<and> bytes_scalar (snd p)" and ?with = "kset_all (\<lambda>k. k) (map (map_prod raw raw) fs)"
  have shaped: "shaped_entry (L ''hash'', RHash (?with d), x)"
    if "list_all ?P d" "distinct (map fst d)" "\<forall>i. x = Some i \<longrightarrow> 0 \<le> i" for d x
  proof -
    have "list_all ?P (?with d)" using that(1) by (intro list_all_kset_all) (auto simp: list_all_iff)
    moreover have "kwf (\<lambda>k. k) (?with d)" using that(2) by (intro kset_all_wf) (simp add: kwf_def)
    ultimately show ?thesis using that(3) assms by (simp add: shaped_entry_cases kset_all_nonempty kwf_def)
  qed
  have "\<exists>v x. on_entry ord (CHset k fs) e = Some (Some (L ''hash'', v, x)) \<and> shaped_entry (L ''hash'', v, x)"
    if adm: "admits (L ''hash'') e" for e
  proof (cases e)
    case None
    then show ?thesis using shaped [of "[]" None] by (simp add: amend_def add_fields_def)
  next
    case (Some e0)
    then obtain v x where e: "e = Some (L ''hash'', v, x)" "shaped_entry (L ''hash'', v, x)"
      using adm by (cases e0) (auto simp: admits_def)
    then obtain d where "v = RHash d" using shaped_hash by blast
    then show ?thesis using e shaped [of d x] by (simp add: amend_def add_fields_def shaped_entry_cases)
  qed
  then show ?thesis by (fastforce simp: leaves_def one_key_def turn_key_def counted_turn_def)
qed

lemma leaves_list:
  "xs \<noteq> [] \<Longrightarrow> leaves ord (L ''list'') ([CDelete k, CRpush k xs], 2)"
  by (auto simp: leaves_simps add_items_def shaped_entry_cases list_all_iff)

lemma leaves_set:
  assumes "permuting ord" "xs \<noteq> []"
  shows "leaves ord (L ''set'') ([CDelete k, CSadd k xs], 2)"
  using assms(2) permuting_facts [OF assms(1)]
  by (auto simp: leaves_simps add_members_def shaped_entry_cases list_all_iff)

lemma leaves_zset:
  assumes "permuting ord" "ps \<noteq> []" "list_all (\<lambda>p. float_scalar (score_of (snd p))) ps"
  shows "leaves ord (L ''zset'') ([CDelete k, CZadd k ps], 2)"
proof -
  let ?z = "kset_all (\<lambda>k. k) (map (map_prod raw score_of) ps) []"
  have "list_all (\<lambda>p. bytes_scalar (fst p) \<and> float_scalar (snd p)) ?z"
    using assms(3) by (intro list_all_kset_all) (auto simp: list_all_iff)
  moreover have "kwf (\<lambda>k. k) ?z" by (intro kset_all_wf) (simp add: kwf_def)
  ultimately show ?thesis using assms(2) permuting_facts [OF assms(1)]
    by (auto simp: leaves_simps add_scores_def shaped_entry_cases list_all_iff kset_all_nonempty kwf_def
       )
qed

text \<open>
  Sending such turns, for different keys, to a server that is up: every key then has its type, the other
  keys keep their entries and the database stays well-shaped.
\<close>

lemma send_all_leaves:
  assumes "redis_laws c look ord" "server_up c look ord" "shaped_db (look w)"
    and "list_all (\<lambda>(t, u). leaves ord t u) kinds" "distinct (map (turn_key \<circ> snd) kinds)"
    and "list_all (\<lambda>(t, u). t = L ''hash'' \<longrightarrow> (\<forall>e. look w (turn_key u) = Some e \<longrightarrow> fst e = L ''hash'')) kinds"
  shows "\<exists>w'. send_all c (map snd kinds) w = (Inr (), w') \<and> shaped_db (look w') \<and>
    (\<forall>(t, u) \<in> set kinds. map_option fst (look w' (turn_key u)) = Some t) \<and>
    (\<forall>k. k \<notin> (turn_key \<circ> snd) ` set kinds \<longrightarrow> look w' k = look w k) \<and>
    (\<forall>(t, u) \<in> set kinds. look w' (turn_key u) = snd (run_entry ord (fst u) (look w (turn_key u))))"
proof -
  let ?turns = "map snd kinds"
  let ?db = "apply_cmds ord (concat (map fst ?turns)) (look w)"
  have turns: "list_all counted_turn ?turns" "list_all one_key ?turns" "distinct (map turn_key ?turns)"
    using assms(4,5) by (auto simp: list_all_iff leaves_def)
  have own: "fst (run_entry ord (fst u) (look w (turn_key u))) \<and>
      (\<exists>e'. snd (run_entry ord (fst u) (look w (turn_key u))) = Some e' \<and> fst e' = t \<and> shaped_entry e')"
    if "(t, u) \<in> set kinds" for t u
  proof -
    have "admits t (look w (turn_key u))" using assms(3,6) that by (fastforce simp: admits_def shaped_db_def list_all_iff)
    then show ?thesis using assms(4) that by (fastforce simp: leaves_def list_all_iff)
  qed
  note after = apply_turns [OF turns(2,3), of ord "look w"]
  have "accepted ord (concat (map fst ?turns)) (look w)" using after own by auto
  moreover obtain bs where bs: "send_all c ?turns w = execute_all c bs w" "concat bs = concat (map fst ?turns)"
    using send_all_stream [OF turns(1), of c w] by (elim exE conjE) (rule that)
  ultimately obtain w' where sent: "send_all c ?turns w = (Inr (), w')" "look w' = ?db"
    using execute_all_up [OF assms(1,2), of bs w] by (cases "execute_all c bs w") auto
  have entry: "?db (turn_key u) = snd (run_entry ord (fst u) (look w (turn_key u)))" if "(t, u) \<in> set kinds" for t u
  proof -
    have "u \<in> set ?turns" using that by (metis image_eqI set_map snd_conv)
    then show ?thesis using after [THEN conjunct1, rule_format] by simp
  qed
  then have keys: "\<exists>e'. ?db (turn_key u) = Some e' \<and> fst e' = t \<and> shaped_entry e'" if "(t, u) \<in> set kinds" for t u
    using own that by simp
  have others: "?db k = look w k" if "k \<notin> (turn_key \<circ> snd) ` set kinds" for k
    using after [THEN conjunct2, THEN conjunct1, rule_format, of k] that by (simp add: image_comp)
  have "shaped_db ?db"
    unfolding shaped_db_def
  proof (intro allI impI)
    fix k e
    assume e: "?db k = Some e"
    show "shaped_entry e"
    proof (cases "k \<in> (turn_key \<circ> snd) ` set kinds")
      case True
      then obtain t u where "(t, u) \<in> set kinds" "k = turn_key u" by auto
      then show ?thesis using keys e by fastforce
    next
      case False
      then show ?thesis using others [OF False] e assms(3) unfolding shaped_db_def by metis
    qed
  qed
  moreover have "\<forall>(t, u) \<in> set kinds. map_option fst (?db (turn_key u)) = Some t" using keys by fastforce
  moreover have "\<forall>(t, u) \<in> set kinds. ?db (turn_key u) = snd (run_entry ord (fst u) (look w (turn_key u)))"
    using entry by blast
  ultimately show ?thesis using others by (intro exI [of _ w']) (simp add: sent)
qed

end
