(* ===== verification/Sink_Effects.thy ===== *)
theory Sink_Effects
  imports Sink_Facts
begin

text \<open>
  What writes do to the records of the server, under any of the three policies for existing records:
  the documented behaviour of the server as a rule for one record, the effect and the outcome of
  writing one record, and that a batch without repeated keys has the effects and the outcomes of
  writing its records one after the other.
\<close>

section \<open>The rule of a server\<close>

text \<open>
  What the server does with a write, which concerns one record only: from the constant of the
  policy, the operations, the TTL and the present record, the result code and the record afterwards.
  A batch of writes to different keys is the sequence of its writes, and replies with the result of each.
\<close>

type_synonym 'r records = "AerospikeKeyTuple \<Rightarrow> 'r option"
type_synonym 'r rule = "int option \<Rightarrow> operation list \<Rightarrow> int option \<Rightarrow> 'r option \<Rightarrow> int \<times> 'r option"

definition server_apply :: "'r rule \<Rightarrow> AerospikeKeyTuple \<Rightarrow> operation list \<Rightarrow> policy \<Rightarrow> 'r records \<Rightarrow> int \<times> 'r records" where
  "server_apply rule key ops pol m =
     (case rule (dict_get pol (L ''exists'')) ops (pol_ttl pol) (m key) of (code, r) \<Rightarrow> (code, m(key := r)))"

fun server_batch :: "'r rule \<Rightarrow> batch_item list \<Rightarrow> 'r records \<Rightarrow> int list \<times> 'r records" where
  "server_batch rule [] m = ([], m)"
| "server_batch rule (b # bs) m =
     (let (code, m1) = server_apply rule (bw_key b) (bw_ops b) (bw_policy b) m;
          (codes, m2) = server_batch rule bs m1
      in (code # codes, m2))"

text \<open>A single write returns when its code is zero, and otherwise raises an exception with the code.\<close>

definition single_reply :: "unit res \<Rightarrow> int \<Rightarrow> bool" where
  "single_reply res code \<longleftrightarrow>
     (if code = 0 then res = Inr () else (\<exists>x. res = Inl (ClientError x) \<and> cx_code x = Some code))"

definition server_laws :: "'c aclient \<Rightarrow> ('c \<Rightarrow> 'r records) \<Rightarrow> 'r rule \<Rightarrow> bool" where
  "server_laws c look rule \<longleftrightarrow>
     (\<forall>w key bins pol. \<exists>res w' code. cl_put c w key bins pol = (res, w') \<and> single_reply res code \<and>
        server_apply rule key (map (\<lambda>(n, v). OpWrite n v) bins) pol (look w) = (code, look w')) \<and>
     (\<forall>w key ops pol. \<exists>res w' code. cl_operate c w key ops pol = (res, w') \<and> single_reply res code \<and>
        server_apply rule key ops pol (look w) = (code, look w')) \<and>
     (\<forall>w writes. distinct (map bw_key writes) \<longrightarrow> (\<exists>replies w' codes. cl_batch_write c w writes = (Inr replies, w') \<and>
        map rp_result replies = map Some codes \<and> server_batch rule writes (look w) = (codes, look w')))"

text \<open>The constant of the configured policy, and what the documentation says of its results.\<close>

definition policy_code :: "'c AerospikeSink \<Rightarrow> int res" where
  "policy_code self =
     am_attr (sk_module self)
       (case ac_record_exists_policy (sk_config self) of
          UPDATE \<Rightarrow> ''POLICY_EXISTS_IGNORE''
        | REPLACE \<Rightarrow> ''POLICY_EXISTS_CREATE_OR_REPLACE''
        | CREATE_ONLY \<Rightarrow> ''POLICY_EXISTS_CREATE'')"

definition policy_results :: "'c AerospikeSink \<Rightarrow> 'r rule \<Rightarrow> bool" where
  "policy_results self rule \<longleftrightarrow>
     (\<exists>code. policy_code self = Inr code \<and>
        (\<forall>ops ttl old. fst (rule (Some code) ops ttl old) = 0 \<or>
           (ac_record_exists_policy (sk_config self) = CREATE_ONLY \<and>
            fst (rule (Some code) ops ttl old) \<in> set (record_exists_error_codes (sk_module self)))))"

lemma policy_results_cases:
  assumes "policy_results self rule"
  shows "\<exists>code. policy_code self = Inr code \<and>
    (fst (rule (Some code) ops ttl old) = 0 \<or>
       (ac_record_exists_policy (sk_config self) = CREATE_ONLY \<and>
        fst (rule (Some code) ops ttl old) \<in> set (record_exists_error_codes (sk_module self))))"
  using assms unfolding policy_results_def by blast

lemma write_policy_code:
  "policy_code self = Inr code \<Longrightarrow> write_policy self r = Inr [(L ''ttl'', ttl_or_default r), (L ''exists'', code)]"
  by (simp add: write_policy_def policy_code_def ttl_or_default_def)

section \<open>The effect of one record\<close>

definition write_result :: "'c AerospikeSink \<Rightarrow> 'r rule \<Rightarrow> AerospikeRecord \<Rightarrow> 'r records \<Rightarrow> int \<times> 'r option" where
  "write_result self rule r m =
     rule (Some (projr (policy_code self))) (projr (ops_for (sk_module self) r)) (Some (ttl_or_default r))
       (m (sink_key self r))"

text \<open>The outcome as \<^verbatim>\<open>write_many\<close> reports it, and the records afterwards.\<close>

definition write_outcome :: "'c AerospikeSink \<Rightarrow> 'r rule \<Rightarrow> AerospikeRecord \<Rightarrow> 'r records \<Rightarrow> pystr option" where
  "write_outcome self rule r m =
     (if \<not> sendable self r then Some (L ''RecordTooLargeError'')
      else if fst (write_result self rule r m) = 0 then None else Some BATCH_RECORD_EXISTS_OUTCOME)"

definition write_effect :: "'c AerospikeSink \<Rightarrow> 'r rule \<Rightarrow> AerospikeRecord \<Rightarrow> 'r records \<Rightarrow> 'r records" where
  "write_effect self rule r m =
     (if sendable self r then m(sink_key self r := snd (write_result self rule r m)) else m)"

lemma write_result_cong: "m (sink_key self r) = m' (sink_key self r) \<Longrightarrow> write_result self rule r m = write_result self rule r m'"
  by (simp add: write_result_def)

lemma write_effect_other: "k \<noteq> sink_key self r \<Longrightarrow> write_effect self rule r m k = m k"
  by (simp add: write_effect_def)

lemma server_apply_write_result:
  assumes "policy_code self = Inr code" "ops_for (sk_module self) r = Inr ops"
    and "dict_get pol (L ''exists'') = Some code" "pol_ttl pol = Some (ttl_or_default r)"
  shows "server_apply rule (sink_key self r) ops pol m =
    (fst (write_result self rule r m), m(sink_key self r := snd (write_result self rule r m)))"
  using assms by (simp add: server_apply_def write_result_def split: prod.splits)

text \<open>A single write\<close>

lemma sink_write_effect:
  assumes "sk_client self = Some c" "server_laws c look rule" "policy_results self rule" "buildable self r"
  shows "\<exists>res w'. sink_write self w r = (res, w') \<and> look w' = write_effect self rule r (look w) \<and>
    (case write_outcome self rule r (look w) of
       None \<Rightarrow> res = Inr ()
     | Some out \<Rightarrow> res = Inl (if sendable self r then RecordAlreadyExists else RecordTooLargeError))"
proof (cases "sendable self r")
  case False
  then have "sink_write self w r = (Inl RecordTooLargeError, w)"
    using too_large_reason_iff [of self r] by (simp add: sink_write_def assms(1))
  then show ?thesis using False by (simp add: write_effect_def write_outcome_def)
next
  case True
  then have fits: "too_large_reason self r = None" by (simp add: too_large_reason_iff)
  obtain code where code: "policy_code self = Inr code" using assms(3) by (auto simp: policy_results_def)
  let ?pol = "[(L ''ttl'', ttl_or_default r), (L ''exists'', code)]" and ?k = "sink_key self r"
  let ?res = "write_result self rule r (look w)"
  have pol: "dict_get ?pol (L ''exists'') = Some code" "pol_ttl ?pol = Some (ttl_or_default r)"
    by (simp_all add: pol_ttl_def text_simps)
  note app = server_apply_write_result [OF code _ pol]
  have attempt: "\<exists>res w'. sink_write self w r =
      (case res of Inr u \<Rightarrow> (Inr (), w')
       | Inl exc \<Rightarrow> if ac_record_exists_policy (sk_config self) = CREATE_ONLY \<and>
             is_record_exists_error (sk_module self) exc then (Inl RecordAlreadyExists, w') else (Inl exc, w')) \<and>
      single_reply res (fst ?res) \<and> look w' = (look w)(?k := snd ?res)"
  proof (cases "unique_bins r = []")
    case ub: True
    let ?bins = "encode_bins_for_write (sk_module self) (ar_bins r)"
    have "ops_for (sk_module self) r = Inr (map (\<lambda>(n, v). OpWrite n v) ?bins)"
      using ub by (simp add: ops_for_def encode_bins_for_write_def case_prod_beta)
    moreover obtain res w' rc where "cl_put c w ?k ?bins ?pol = (res, w')" "single_reply res rc"
      "server_apply rule ?k (map (\<lambda>(n, v). OpWrite n v) ?bins) ?pol (look w) = (rc, look w')"
      using assms(2) unfolding server_laws_def by blast
    ultimately show ?thesis using ub app [of "map (\<lambda>(n, v). OpWrite n v) ?bins" rule "look w"]
      by (intro exI [of _ res] exI [of _ w'])
        (auto simp: sink_write_def assms(1) fits write_policy_code [OF code] split: sum.splits)
  next
    case ub: False
    obtain ops where ops: "build_ops (sk_module self) r (unique_bins r) = Inr ops"
      using assms(4) ub by (auto simp: buildable_def ops_for_def)
    obtain res w' rc where "cl_operate c w ?k ops ?pol = (res, w')" "single_reply res rc"
      "server_apply rule ?k ops ?pol (look w) = (rc, look w')"
      using assms(2) unfolding server_laws_def by blast
    then show ?thesis using ub ops app [of ops rule "look w"]
      by (intro exI [of _ res] exI [of _ w'])
        (auto simp: sink_write_def assms(1) fits write_policy_code [OF code] ops_for_def split: sum.splits)
  qed
  have "fst ?res = 0 \<or> (ac_record_exists_policy (sk_config self) = CREATE_ONLY \<and>
      fst ?res \<in> set (record_exists_error_codes (sk_module self)))"
    using policy_results_cases [OF assms(3), of "projr (ops_for (sk_module self) r)"
        "Some (ttl_or_default r)" "look w ?k"] by (auto simp: write_result_def)
  then show ?thesis using attempt True
    by (auto simp: write_effect_def write_outcome_def single_reply_def is_record_exists_error_def)
qed

section \<open>The effect of a batch\<close>

definition item_of :: "'c AerospikeSink \<Rightarrow> AerospikeRecord \<Rightarrow> batch_item" where
  "item_of self r = projr (batch_item_for self r (sink_key self r))"

lemma batch_item_effect:
  assumes "policy_code self = Inr code" "buildable self r"
  shows "batch_item_for self r (sink_key self r) = Inr (item_of self r)"
    and "server_apply rule (bw_key (item_of self r)) (bw_ops (item_of self r)) (bw_policy (item_of self r)) m =
      (fst (write_result self rule r m), m(sink_key self r := snd (write_result self rule r m)))"
proof -
  obtain ops where ops: "ops_for (sk_module self) r = Inr ops" using assms(2) by (auto simp: buildable_def)
  obtain pol where pol: "batch_policy self r = Inr pol" "dict_get pol (L ''exists'') = Some code"
    "pol_ttl pol = Some (ttl_or_default r)"
    by (auto simp: batch_policy_def write_policy_code [OF assms(1)] pol_ttl_def text_simps split: option.splits)
  show "batch_item_for self r (sink_key self r) = Inr (item_of self r)"
    using ops pol(1) by (simp add: item_of_def batch_item_for_def)
  show "server_apply rule (bw_key (item_of self r)) (bw_ops (item_of self r)) (bw_policy (item_of self r)) m =
      (fst (write_result self rule r m), m(sink_key self r := snd (write_result self rule r m)))"
    using server_apply_write_result [OF assms(1) ops pol(2,3)] ops pol(1)
    by (simp add: item_of_def batch_item_for_def)
qed

text \<open>With distinct keys, no write of a batch sees the effect of another.\<close>

lemma server_batch_distinct:
  assumes "policy_code self = Inr code" "\<forall>r \<in> set rs. buildable self r \<and> sendable self r"
    and "distinct (map (sink_key self) rs)"
  shows "server_batch rule (map (item_of self) rs) m =
    (map (\<lambda>r. fst (write_result self rule r m)) rs, fold (write_effect self rule) rs m)"
  using assms(2,3)
proof (induction rs arbitrary: m)
  case (Cons r rs)
  let ?m1 = "m(sink_key self r := snd (write_result self rule r m))"
  have "map (\<lambda>x. fst (write_result self rule x ?m1)) rs = map (\<lambda>x. fst (write_result self rule x m)) rs"
    using Cons.prems(2) by (intro map_cong refl arg_cong [of _ _ fst] write_result_cong) (auto simp: image_iff)
  moreover have "write_effect self rule r m = ?m1" using Cons.prems(1) by (simp add: write_effect_def)
  ultimately show ?case using Cons batch_item_effect(2) [OF assms(1), of r rule m] by (simp add: Let_def)
qed simp

lemma fold_effect_sendable:
  "fold (write_effect self rule) (filter (sendable self) rs) m = fold (write_effect self rule) rs m"
  by (induction rs arbitrary: m) (simp_all add: write_effect_def)

lemma slots_filter: "map fst (slots self i rs) = map (sink_key self) (filter (sendable self) rs)"
  by (induction rs arbitrary: i) (simp_all add: slots_Cons)

lemma last_slots_distinct:
  assumes "distinct (map (sink_key self) (filter (sendable self) rs))"
  shows "last_slots self rs = slots self 0 rs"
  unfolding last_slots_def using assms kset_all_fresh [where nf = "\<lambda>k. k", of "[]" "slots self 0 rs"]
  by (simp add: slots_filter)

lemma slots_records:
  "map (\<lambda>(k, j). h ((pre @ rs) ! j)) (slots self (length pre) rs) = map h (filter (sendable self) rs)"
proof (induction rs arbitrary: pre)
  case (Cons r rs)
  show ?case using Cons.IH [of "pre @ [r]"] by (simp add: slots_Cons)
qed simp

lemma batch_writes_distinct:
  assumes "policy_code self = Inr code" "\<forall>r \<in> set rs. buildable self r"
    and "distinct (map (sink_key self) (filter (sendable self) rs))"
  shows "batch_writes self rs (last_slots self rs) = Inr (map (item_of self) (filter (sendable self) rs))"
proof -
  have "batch_item_for self (rs ! j) k = Inr (item_of self (rs ! j))" if "(k, j) \<in> set (last_slots self rs)" for k j
    using last_slots_get [OF that] assms(2) batch_item_effect(1) [OF assms(1), of "rs ! j"] by auto
  then have "batch_writes self rs (last_slots self rs) = Inr (map (\<lambda>(k, j). item_of self (rs ! j)) (last_slots self rs))"
    unfolding batch_writes_def by (intro mapr_total) auto
  then show ?thesis using slots_records [of "item_of self" "[]" rs self] by (simp add: last_slots_distinct [OF assms(3)])
qed

lemma map_through:
  assumes "map f xs = map g ys" "\<And>x y. y \<in> set ys \<Longrightarrow> f x = g y \<Longrightarrow> f' x = g' y"
  shows "map f' xs = map g' ys"
  using assms by (induction ys arbitrary: xs) (auto simp: map_eq_Cons_conv)

lemma batch_reason_outcome:
  assumes "policy_results self rule" "sendable self r" "rp_result reply = Some (fst (write_result self rule r m))"
  shows "batch_reason self reply = write_outcome self rule r m"
  using assms(2,3) policy_results_cases [OF assms(1), of "projr (ops_for (sk_module self) r)"
      "Some (ttl_or_default r)" "m (sink_key self r)"]
  by (auto simp: write_result_def batch_reason_def write_outcome_def Let_def)

text \<open>
  With distinct keys, a batch has the effect and the outcomes of its records written one by one.
\<close>

lemma write_many_distinct:
  assumes "sk_client self = Some c" "server_laws c look rule" "policy_results self rule"
    and "\<forall>r \<in> set rs. buildable self r" "distinct (map (sink_key self) (filter (sendable self) rs))"
  shows "\<exists>w'. write_many self w rs = (Inr (map (\<lambda>r. write_outcome self rule r (look w)) rs), w') \<and>
    look w' = fold (write_effect self rule) rs (look w)"
proof (cases "last_slots self rs = []")
  case True
  then have "\<forall>r \<in> set rs. \<not> sendable self r" using last_slots_Nil by blast
  moreover from this have "fold (write_effect self rule) rs m = m" for m
    by (induction rs arbitrary: m) (simp_all add: write_effect_def)
  ultimately show ?thesis by (simp add: write_many_eq [OF assms(1)] True write_outcome_def)
next
  case False
  let ?fs = "filter (sendable self) rs"
  obtain code where code: "policy_code self = Inr code" using assms(3) by (auto simp: policy_results_def)
  have w: "batch_writes self rs (last_slots self rs) = Inr (map (item_of self) ?fs)"
    using batch_writes_distinct [OF code assms(4,5)] .
  have "distinct (map bw_key (map (item_of self) ?fs))"
    using batch_writes_keys [OF w] last_slots_wf [of self rs] by (simp add: kwf_def)
  then obtain replies w' codes where r: "cl_batch_write c w (map (item_of self) ?fs) = (Inr replies, w')"
    and codes: "map rp_result replies = map Some codes"
    and b: "server_batch rule (map (item_of self) ?fs) (look w) = (codes, look w')"
    using assms(2) unfolding server_laws_def by blast
  have "\<forall>r \<in> set ?fs. buildable self r \<and> sendable self r" using assms(4) by simp
  note sb = server_batch_distinct [OF code this assms(5), of rule "look w"]
  have look: "look w' = fold (write_effect self rule) rs (look w)" using sb b by (simp add: fold_effect_sendable)
  have "map rp_result replies = map (\<lambda>r. Some (fst (write_result self rule r (look w)))) ?fs"
    using codes sb b by (simp add: comp_def)
  then have reasons: "map (batch_reason self) replies = map (\<lambda>r. write_outcome self rule r (look w)) ?fs"
    by (rule map_through) (auto intro: batch_reason_outcome [OF assms(3)])
  let ?items = "map (\<lambda>(key, reply). (key, batch_reason self reply)) (zip (map fst (last_slots self rs)) replies)"
  have items: "?items = map (\<lambda>r. (sink_key self r, write_outcome self rule r (look w))) ?fs"
    unfolding zip_map2 [symmetric] reasons
    by (simp add: last_slots_distinct [OF assms(5)] slots_filter zip_map_map zip_same_conv_map)
  then have wf: "map fst ?items = map (sink_key self) ?fs" "dict_wf ?items"
    using assms(5) by (simp_all add: kwf_def comp_def)
  have get: "dict_get (kset_all (\<lambda>k. k) ?items []) (sink_key self r) = Some (write_outcome self rule r (look w))"
    if "r \<in> set rs" "sendable self r" for r
    using that kset_all_fresh [where nf = "\<lambda>k. k", of "[]" ?items] wf(2) kget_in_set [OF wf(2), of "sink_key self r"]
    by (auto simp: items kwf_def)
  have "write_many self w rs = (Inr (map (\<lambda>r. if sendable self r
      then (case dict_get (kset_all (\<lambda>k. k) ?items []) (sink_key self r) of Some out \<Rightarrow> out | None \<Rightarrow> None)
      else Some (L ''RecordTooLargeError'')) rs), w')"
    unfolding write_many_eq [OF assms(1)] if_not_P [OF False] w r sum.case prod.case by (rule refl)
  also have "\<dots> = (Inr (map (\<lambda>r. write_outcome self rule r (look w)) rs), w')"
    using get by (auto simp: write_outcome_def)
  finally show ?thesis using look by blast
qed

section \<open>The reference server\<close>

definition ref_rule :: "(operation list \<times> int option) rule" where
  "ref_rule ex ops ttl old =
     (if ex = Some 1 \<and> old \<noteq> None then (5, old)
      else if ex = Some 0 \<and> old \<noteq> None then (0, Some (fst (the old) @ ops, ttl))
      else (0, Some (ops, ttl)))"

lemma ref_apply_rule: "ref_apply w key ops pol = server_apply ref_rule key ops pol w"
  by (auto simp: ref_apply_def server_apply_def ref_rule_def store_def)

lemma ref_batch_rule:
  "\<exists>replies w' codes. ref_batch w bs = (replies, w') \<and> map rp_result replies = map Some codes \<and>
     server_batch ref_rule bs w = (codes, w')"
proof (induction bs arbitrary: w)
  case (Cons b bs)
  obtain code w1 where "server_apply ref_rule (bw_key b) (bw_ops b) (bw_policy b) w = (code, w1)" by fastforce
  then show ?case using Cons.IH [of w1] by (auto simp: ref_apply_rule)
qed simp

lemma ref_single_rule:
  "\<exists>res w' code. ref_single w key ops pol = (res, w') \<and> single_reply res code \<and>
     server_apply ref_rule key ops pol w = (code, w')"
  by (auto simp: ref_single_def ref_apply_rule single_reply_def ref_exists_exn_def server_apply_def ref_rule_def
      split: prod.splits)

lemma ref_server_laws: "server_laws ref_client (\<lambda>w. w) ref_rule"
proof -
  have "\<exists>replies w' codes. cl_batch_write ref_client w bs = (Inr replies, w') \<and>
      map rp_result replies = map Some codes \<and> server_batch ref_rule bs w = (codes, w')" for w bs
    using ref_batch_rule [of w bs] by (auto simp: ref_client_def)
  then show ?thesis using ref_single_rule by (auto simp: server_laws_def ref_client_def)
qed

lemma ref_policy_results: "policy_results (ref_sink mode) ref_rule"
  by (cases mode)
    (auto simp: policy_results_def policy_code_def am_attr_def ref_sink_def ref_module_def ref_rule_def
      AerospikeConfig_default_def record_exists_error_codes_def text_simps map_filter_def)

end
