(* ===== verification/Run_Content.thy ===== *)
theory Run_Content
  imports Migrator_Facts Sink_Effects
begin

text \<open>
  What a finished run leaves behind: the database and the counters of a concurrent, batched run are
  those of a loop that migrates the same records one after the other. Locale \<open>atomic_sink\<close> states what
  this needs of the sink; it is derived for the sink of the program from the documented behaviour
  of the server.
\<close>

section \<open>The fate of a record\<close>

text \<open>
  What becomes of a source record depends on the registry only through its converters and its TTL
  limits, not on whether the warning has been logged.
\<close>

definition same_policy :: "TtlPolicy \<Rightarrow> TtlPolicy \<Rightarrow> bool" where
  "same_policy p q \<longleftrightarrow> tp_mode p = tp_mode q \<and> tp_max_ttl_s p = tp_max_ttl_s q"

definition same_registry :: "ConverterRegistry \<Rightarrow> ConverterRegistry \<Rightarrow> bool" where
  "same_registry a b \<longleftrightarrow> reg_converters a = reg_converters b \<and> same_policy (reg_ttl_policy a) (reg_ttl_policy b)"

lemma same_policy_refl [simp]: "same_policy p p"
  by (simp add: same_policy_def)

lemma same_registry_refl [simp]: "same_registry a a"
  by (simp add: same_registry_def)

text \<open>A conversion that agrees on two policies, and keeps the policy.\<close>

definition agree :: "TtlPolicy \<Rightarrow> conversion \<Rightarrow> conversion \<Rightarrow> bool" where
  "agree p a b \<longleftrightarrow> fst a = fst b \<and> same_policy p (snd a) \<and> same_policy p (snd b)"

lemma to_ttl_agree: "same_policy p q \<Longrightarrow> fst (to_ttl p t) = fst (to_ttl q t) \<and> same_policy p (snd (to_ttl q t))"
  by (cases t)
    (auto simp: same_policy_def handle_overflow_def warn_once_def Let_def split: sum.splits TtlOverflowPolicy.splits)

lemma build_agree: "same_policy p q \<Longrightarrow> agree p (build p r bins ps) (build q r bins ps)"
  using to_ttl_agree [of p q "rr_ttl_ms r"] to_ttl_agree [of p p "rr_ttl_ms r"]
  by (auto simp: agree_def build_def split: sum.splits prod.splits)

lemma convert_agree:
  assumes "same_policy p q"
  shows "agree p (Converter_convert c p r) (Converter_convert c q r)"
    and "agree p (HashConverter_convert vb st p r hs ovb) (HashConverter_convert vb st q r hs ovb)"
  using build_agree [OF assms] assms
  by (cases c; auto simp: converter_defs agree_def)+

lemma convert_agree_pairs:
  assumes "same_policy p q"
  shows "Converter_convert c p r = (x, p') \<Longrightarrow> Converter_convert c q r = (y, q') \<Longrightarrow> x = y \<and> same_policy p q'"
    and "HashConverter_convert vb st p r hs ovb = (x, p') \<Longrightarrow> HashConverter_convert vb st q r hs ovb = (y, q') \<Longrightarrow>
      x = y \<and> same_policy p q'"
  using convert_agree(1) [OF assms, of c r] convert_agree(2) [OF assms, of vb st r hs ovb] by (auto simp: agree_def)

lemma registry_convert_agree:
  assumes "same_registry a b" "registry_convert a r hs vb = (oa, a')" "registry_convert b r hs vb = (ob, b')"
  shows "oa = ob \<and> same_registry a b'"
proof -
  have p: "same_policy (reg_ttl_policy a) (reg_ttl_policy b)" and c: "reg_converters b = reg_converters a"
    using assms(1) by (simp_all add: same_registry_def)
  show ?thesis using assms(2,3) p c
    by (auto simp: registry_convert_def registry_get_def same_registry_def Let_def
        split: option.splits if_splits prod.splits Converter.splits dest: convert_agree_pairs [OF p])
qed

datatype fate = Dropped stat_event | Wants AerospikeRecord | Raises py_exn

definition fate :: "'c Migrator \<Rightarrow> ConverterRegistry \<Rightarrow> RedisRecord \<Rightarrow> fate" where
  "fate mg reg r =
     (let resolution = SetRouter_resolve (mg_router mg) (rr_key r)
      in case fst (convert_routed mg reg resolution r) of
           Inl exc \<Rightarrow> Dropped (if exc = UnsupportedTypeError then Skipped (rr_type r)
                              else Errored (L ''convert:'' @ exn_name exc))
         | Inr ar \<Rightarrow>
             (case apply_all ar (mg_transforms mg) of
                Inl e \<Rightarrow> Raises e
              | Inr ar' \<Rightarrow> Wants (route_record mg resolution r ar')))"

lemma convert_routed_agree:
  assumes "same_registry a b" "convert_routed mg a res r = (oa, a')" "convert_routed mg b res r = (ob, b')"
  shows "oa = ob \<and> same_registry a b'"
  using registry_convert_agree [OF assms(1)] assms(2,3) by (auto simp: convert_routed_def Let_def split: if_splits)

lemma prepare_fate:
  assumes "same_registry reg reg1" "prepare mg reg1 st r = (out, reg2, st')"
  shows "same_registry reg reg2 \<and>
    (case fate mg reg r of
       Dropped e \<Rightarrow> out = Inr None \<and> st' = stat_apply e st
     | Wants ar \<Rightarrow> out = Inr (Some ar) \<and> st' = st
     | Raises e \<Rightarrow> out = Inl e \<and> st' = st)"
proof -
  let ?res = "SetRouter_resolve (mg_router mg) (rr_key r)"
  obtain oa a' where a: "convert_routed mg reg ?res r = (oa, a')" by fastforce
  obtain ob b' where b: "convert_routed mg reg1 ?res r = (ob, b')" by fastforce
  have "oa = ob" "same_registry reg b'" using convert_routed_agree [OF assms(1) a b] by auto
  then show ?thesis using assms(2)
    by (auto simp: prepare_def fate_def Let_def a b split: sum.splits)
qed

lemma fate_safe:
  assumes "\<And>ar. \<exists>ar'. apply_all ar (mg_transforms mg) = Inr ar'"
  shows "fate mg reg r \<noteq> Raises e"
  using assms by (auto simp: fate_def Let_def split: sum.splits) (metis Inl_Inr_False)

section \<open>Migrating records one after the other\<close>

text \<open>The update of the counters after a write, single or in a batch.\<close>

definition event_of_write :: "unit res \<Rightarrow> stat_event" where
  "event_of_write res =
     (case res of
        Inr u \<Rightarrow> Migrated 1
      | Inl exc \<Rightarrow> if exc = RecordAlreadyExists then Skipped (L ''exists'') else Errored (L ''write:'' @ exn_name exc))"

definition event_of_outcome :: "'c Migrator \<Rightarrow> pystr option \<Rightarrow> stat_event" where
  "event_of_outcome mg outcome =
     (case outcome of
        None \<Rightarrow> Migrated 1
      | Some out \<Rightarrow>
          if ac_record_exists_policy (mc_aerospike (mg_config mg)) = CREATE_ONLY \<and> out = BATCH_RECORD_EXISTS_OUTCOME
          then Skipped (L ''exists'') else Errored (L ''write:'' @ out))"

lemma write_one_event:
  assumes "write_one fl now mg tb st w ar = (tb', st', w')"
  shows "\<exists>res. sn_write (mg_sink mg) w ar = (res, w') \<and> st' = stat_apply (event_of_write res) st"
  using assms by (auto simp: write_one_def event_of_write_def Let_def split: prod.splits sum.splits)

lemma count_outcome_event: "count_outcome mg out st = stat_apply (event_of_outcome mg out) st"
  by (simp add: count_outcome_def event_of_outcome_def split: option.splits)

text \<open>
  The reference: one thread, no queue, no batches. Each record is prepared and written before the
  next one.
\<close>

fun migrate_record :: "'c Migrator \<Rightarrow> ConverterRegistry \<Rightarrow> RedisRecord \<Rightarrow> MigrationStats \<times> 'c \<Rightarrow> MigrationStats \<times> 'c" where
  "migrate_record mg reg r (st, w) =
     (case prepare mg reg st r of
        (Inr (Some ar), reg', st') \<Rightarrow>
          (case sn_write (mg_sink mg) w ar of (res, w') \<Rightarrow> (stat_apply (event_of_write res) st', w'))
      | (out, reg', st') \<Rightarrow> (st', w))"

definition migrate_in_order ::
    "'c Migrator \<Rightarrow> ConverterRegistry \<Rightarrow> RedisRecord list \<Rightarrow> MigrationStats \<times> 'c \<Rightarrow> MigrationStats \<times> 'c"
where
  "migrate_in_order mg reg rs sw = fold (migrate_record mg reg) rs sw"

text \<open>The counters and breakdowns of a run, without the scanned count and the times.\<close>

definition tally :: "MigrationStats \<Rightarrow> MigrationStats" where
  "tally s = s\<lparr>st_scanned := 0, st_started_at := None, st_finished_at := None\<rparr>"

fun unscanned :: "stat_event \<Rightarrow> bool" where
  "unscanned (Scanned n) = False"
| "unscanned e = True"

lemma tally_apply: "unscanned e \<Longrightarrow> tally (stat_apply e s) = stat_apply e (tally s)"
  by (cases e) (simp_all add: tally_def stat_ops)

lemma tally_simps [simp]:
  "tally (record_scanned n s) = tally s" "tally (stats_finish t s) = tally s" "tally (stats_start t s) = tally s"
  "tally MigrationStats_init = MigrationStats_init"
  by (simp_all add: tally_def stat_ops stats_finish_def stats_start_def MigrationStats_init_def)

lemma stat_run_snoc: "stat_run (es @ [e]) s = stat_apply e (stat_run es s)"
  by (simp add: stat_run_def)

lemma unscanned_events [simp]: "unscanned (event_of_write res)" "unscanned (event_of_outcome mg out)"
  by (auto simp: event_of_write_def event_of_outcome_def split: sum.splits option.splits)

lemma unscanned_fate: "fate mg reg r = Dropped e \<Longrightarrow> unscanned e"
  by (auto simp: fate_def Let_def split: sum.splits if_splits)

section \<open>Settling a sequence of records\<close>

text \<open>
  What a sequence of records does to the database when they are settled in this order, and the
  updates of the counters that it makes. \<open>eff\<close> is what writing one record does.
\<close>

type_synonym 'm effect = "AerospikeRecord \<Rightarrow> 'm \<Rightarrow> stat_event \<times> 'm"

fun settle1 :: "'m effect \<Rightarrow> fate \<Rightarrow> stat_event list \<times> 'm \<Rightarrow> stat_event list \<times> 'm" where
  "settle1 eff (Dropped e) (es, m) = (es @ [e], m)"
| "settle1 eff (Wants ar) (es, m) = (case eff ar m of (e, m') \<Rightarrow> (es @ [e], m'))"
| "settle1 eff (Raises e) (es, m) = (es, m)"

definition settle :: "'m effect \<Rightarrow> fate list \<Rightarrow> stat_event list \<times> 'm \<Rightarrow> stat_event list \<times> 'm" where
  "settle eff = fold (settle1 eff)"

lemma settle_Nil [simp]: "settle eff [] x = x"
  by (simp add: settle_def)

lemma settle_append: "settle eff (fs @ gs) x = settle eff gs (settle eff fs x)"
  by (simp add: settle_def)

lemma settle_prefix: "settle eff fs (es, m) = (es', m') \<Longrightarrow> settle eff fs (ds @ es, m) = (ds @ es', m')"
proof (induction fs arbitrary: es m)
  case (Cons f fs)
  obtain es1 m1 where "settle1 eff f (es, m) = (es1, m1)" by fastforce
  moreover from this have "settle1 eff f (ds @ es, m) = (ds @ es1, m1)"
    by (cases f) (auto split: prod.splits)
  ultimately show ?case using Cons by (simp add: settle_def)
qed simp

section \<open>The contract of a sink that writes atomically\<close>

text \<open>
  A single write and a batch do what writing their records one after the other does to the part of
  the database that \<open>look\<close> reads, and report the outcomes of that. \<open>ok\<close> are the batches for which
  this holds.
\<close>

locale atomic_sink = safe_migration +
  fixes look :: "'a \<Rightarrow> 'm" and eff :: "'m effect" and ok :: "AerospikeRecord list \<Rightarrow> bool"
  assumes single: "ok [ar] \<Longrightarrow> sn_write snk w ar = (res, w') \<Longrightarrow> eff ar (look w) = (event_of_write res, look w')"
    and batch: "ok ars \<Longrightarrow> \<exists>outs w'. sn_write_many snk w ars = (Inr outs, w') \<and>
      settle eff (map Wants ars) ([], look w) = (map (event_of_outcome mg) outs, look w')"

text \<open>The fates of the records on their way.\<close>

fun item_fates :: "(RedisRecord \<Rightarrow> fate) \<Rightarrow> item \<Rightarrow> fate multiset" where
  "item_fates F (Rec r) = {#F r#}"
| "item_fates F STOP = {#}"

fun held_fates :: "(RedisRecord \<Rightarrow> fate) \<Rightarrow> producer \<Rightarrow> fate multiset" where
  "held_fates F (Holding r) = {#F r#}"
| "held_fates F p = {#}"

definition wanted :: "buffer \<Rightarrow> fate multiset" where
  "wanted b = mset (map (\<lambda>p. Wants (fst p)) b)"

fun buffer_fates :: "buffer option \<Rightarrow> fate multiset" where
  "buffer_fates None = {#}"
| "buffer_fates (Some b) = wanted b"

fun worker_fates :: "(RedisRecord \<Rightarrow> fate) \<Rightarrow> worker \<Rightarrow> fate multiset" where
  "worker_fates F (WIdle buf) = buffer_fates buf"
| "worker_fates F (WGot r buf) = buffer_fates buf + {#F r#}"
| "worker_fates F (WWrite ar k) = {#Wants ar#}"
| "worker_fates F (WFlush b af) = wanted b"
| "worker_fates F WDone = {#}"
| "worker_fates F WCrashed = {#}"

definition on_the_way :: "(RedisRecord \<Rightarrow> fate) \<Rightarrow> 'c run_state \<Rightarrow> fate multiset" where
  "on_the_way F s =
     mset (map F (rn_source s)) + held_fates F (rn_producer s) + sum_list (map (item_fates F) (rn_queue s)) +
     sum_list (map (worker_fates F) (rn_workers s))"

lemma wanted_simps [simp]: "wanted [] = {#}" "wanted (b @ [(ar, k)]) = wanted b + {#Wants ar#}"
  by (simp_all add: wanted_def)

lemma finish_fates [simp]: "worker_fates F (finish_worker buf c) = buffer_fates buf"
  by (cases buf rule: buffer_fates.cases) (auto simp: finish_worker_def split: list.splits)

lemma take_fates: "worker_fates F (take_item it buf) = buffer_fates buf + item_fates F it"
  by (cases it) (simp_all add: take_item_def)

lemma after_prepare_fates:
  "worker_fates F (after_prepare mg r buf (Inr None)) = buffer_fates buf"
  "worker_fates F (after_prepare mg r buf (Inr (Some ar))) = buffer_fates buf + {#Wants ar#}"
  by (cases buf; simp add: after_prepare_def Let_def)+

lemma after_flush_fates: "worker_fates F (after_flush_worker af) = {#}"
  by (cases af) simp_all

text \<open>A step of one worker, seen in the fates.\<close>

lemma worker_step_fates:
  fixes s :: "'c run_state"
  assumes "i < length (rn_workers s)"
  obtains rest where "on_the_way F s = rest + worker_fates F (rn_workers s ! i)"
    and "\<And>(s' :: 'c run_state) x. rn_source s' = rn_source s \<Longrightarrow> rn_producer s' = rn_producer s \<Longrightarrow>
      rn_queue s' = rn_queue s \<Longrightarrow> rn_workers s' = (rn_workers s)[i := x] \<Longrightarrow>
      on_the_way F s' = rest + worker_fates F x"
proof -
  obtain rest where "sum_list (map (worker_fates F) (rn_workers s)) = rest + worker_fates F (rn_workers s ! i)"
    "\<And>x. sum_list (map (worker_fates F) ((rn_workers s)[i := x])) = rest + worker_fates F x"
    using sum_list_update_split [OF assms] by blast
  then show ?thesis
    by (intro that [of "mset (map F (rn_source s)) + held_fates F (rn_producer s) +
          sum_list (map (item_fates F) (rn_queue s)) + rest"]) (simp_all add: on_the_way_def ac_simps)
qed

text \<open>
  The settled records, in the order in which they were settled, explain the database and the counters.
\<close>

definition explained ::
    "(RedisRecord \<Rightarrow> fate) \<Rightarrow> ('c \<Rightarrow> 'm) \<Rightarrow> 'm effect \<Rightarrow> ConverterRegistry \<Rightarrow> fate multiset \<Rightarrow> 'm \<Rightarrow> 'c run_state \<Rightarrow> bool"
where
  "explained F look eff reg all_fates m0 s \<longleftrightarrow>
     same_registry reg (rn_registry s) \<and>
     (\<exists>fs es. all_fates = mset fs + on_the_way F s \<and> settle eff fs ([], m0) = (es, look (rn_db s)) \<and>
        tally (rn_stats s) = stat_run es MigrationStats_init)"

lemma explained_intro:
  assumes "same_registry reg (rn_registry s)" "all_fates = mset fs + on_the_way F s"
    and "settle eff fs ([], m0) = (es, look (rn_db s))" "tally (rn_stats s) = stat_run es MigrationStats_init"
  shows "explained F look eff reg all_fates m0 s"
  using assms unfolding explained_def by blast

lemma explainedI:
  assumes "explained F look eff reg all_fates m0 s" "on_the_way F s' = on_the_way F s"
    and "rn_registry s' = rn_registry s" "rn_db s' = rn_db s" "tally (rn_stats s') = tally (rn_stats s)"
  shows "explained F look eff reg all_fates m0 s'"
  using assms by (simp add: explained_def)

lemma settle_wants_append:
  assumes "settle eff fs ([], m0) = (es, m)" "settle eff gs ([], m) = (es', m')"
  shows "settle eff (fs @ gs) ([], m0) = (es @ es', m')"
  using settle_prefix [OF assms(2), of es] assms(1) by (simp add: settle_append)

lemma mset_map_rearrange: "mset (map f xs) = mset ys \<Longrightarrow> \<exists>zs. mset zs = mset xs \<and> map f zs = ys"
proof (induction ys arbitrary: xs)
  case (Cons y ys)
  then have "y \<in># mset (map f xs)" by simp
  then obtain x where x: "x \<in># mset xs" "f x = y" by auto
  obtain us where us: "mset xs = add_mset x (mset us)" using multi_member_split [OF x(1)] ex_mset by metis
  then have "mset (map f us) = mset ys" using Cons.prems x(2) by simp
  then obtain zs where "mset zs = mset us" "map f zs = ys" using Cons.IH by blast
  then show ?case using us x(2) by (intro exI [of _ "x # zs"]) simp
qed auto

context atomic_sink
begin

lemma flush_explained:
  assumes "ok (map fst buf)" "flush fl now mg tb st w buf = (tb', st', w')"
  shows "\<exists>es. settle eff (map (\<lambda>p. Wants (fst p)) buf) ([], look w) = (es, look w') \<and>
    tally st' = stat_run es (tally st)"
proof -
  obtain outs v where v: "sn_write_many snk w (map fst buf) = (Inr outs, v)"
    and b: "settle eff (map Wants (map fst buf)) ([], look w) = (map (event_of_outcome mg) outs, look v)"
    using batch [OF assms(1)] by blast
  have len: "length outs = length buf" using aligned [OF v] by simp
  have st': "st' = fold (\<lambda>(p, outcome). count_outcome mg outcome) (zip buf outs) st" "w' = v"
    using assms(2) v by (auto simp: flush_def sink_is Let_def)
  have "tally (fold (\<lambda>(p, outcome). count_outcome mg outcome) (zip b outs) st) =
      stat_run (map (event_of_outcome mg) outs) (tally st)" if "length outs = length b" for b :: buffer and outs st
    using that
  proof (induction outs arbitrary: b st)
    case (Cons out outs)
    then show ?case by (cases b) (simp_all add: count_outcome_event tally_apply stat_run_def)
  qed (simp add: stat_run_def)
  then show ?thesis using b len by (auto simp: st' comp_def)
qed

lemma step_explained:
  assumes "step mg fl s s'" "explained (fate mg reg) look eff reg all_fates m0 s"
    and batches: "\<And>ars. mset (map Wants ars) \<subseteq># all_fates \<Longrightarrow> int (length ars) \<le> mg_batch_size mg \<Longrightarrow> ok ars"
    and bounded: "bounded mg s"
  shows "explained (fate mg reg) look eff reg all_fates m0 s'"
  using assms(1,2) bounded
proof (induction rule: step.induct)
  case (scan s r rs now)
  then show ?case by (intro explainedI [OF scan(3)]) (simp_all add: on_the_way_def)
next
  case (put s r)
  then show ?case by (intro explainedI [OF put(3)]) (simp_all add: on_the_way_def)
next
  case (source_end s)
  then show ?case by (intro explainedI [OF source_end(3)]) (simp_all add: on_the_way_def)
next
  case (put_stop s k)
  then show ?case by (intro explainedI [OF put_stop(3)]) (simp_all add: on_the_way_def)
next
  case (join s now)
  then show ?case by (intro explainedI [OF join(3)]) (simp_all add: on_the_way_def)
next
  case (get i s buf it q)
  obtain rest where "sum_list (map (worker_fates (fate mg reg)) (rn_workers s)) = rest + worker_fates (fate mg reg) (rn_workers s ! i)"
    "\<And>x. sum_list (map (worker_fates (fate mg reg)) ((rn_workers s)[i := x])) = rest + worker_fates (fate mg reg) x"
    using sum_list_update_split [OF get(1)] by blast
  then show ?case using get(2,3)
    by (intro explainedI [OF get(4)]) (simp_all add: on_the_way_def take_fates ac_simps)
next
  case (convert i s r buf out registry' stats')
  obtain rest where rest: "on_the_way (fate mg reg) s = rest + worker_fates (fate mg reg) (rn_workers s ! i)"
    and upd: "\<And>(s' :: 'a run_state) x. rn_source s' = rn_source s \<Longrightarrow> rn_producer s' = rn_producer s \<Longrightarrow>
      rn_queue s' = rn_queue s \<Longrightarrow> rn_workers s' = (rn_workers s)[i := x] \<Longrightarrow>
      on_the_way (fate mg reg) s' = rest + worker_fates (fate mg reg) x"
    using worker_step_fates [OF convert(1), where F = "fate mg reg"] by blast
  obtain fs es where e: "all_fates = mset fs + on_the_way (fate mg reg) s"
    "settle eff fs ([], m0) = (es, look (rn_db s))" "tally (rn_stats s) = stat_run es MigrationStats_init"
    and reg: "same_registry reg (rn_registry s)" using convert(4) by (auto simp: explained_def)
  note p = prepare_fate [OF reg convert(3)]
  let ?s' = "s\<lparr>rn_registry := registry', rn_stats := stats', rn_workers := (rn_workers s)[i := after_prepare mg r buf out]\<rparr>"
  have way: "on_the_way (fate mg reg) ?s' = rest + worker_fates (fate mg reg) (after_prepare mg r buf out)"
    by (rule upd) simp_all
  show ?case
  proof (cases "fate mg reg r")
    case (Dropped ev)
    then have "all_fates = mset (fs @ [Dropped ev]) + on_the_way (fate mg reg) ?s'"
      using e(1) rest way p convert(2) by (simp add: after_prepare_fates)
    moreover have "settle eff (fs @ [Dropped ev]) ([], m0) = (es @ [ev], look (rn_db ?s'))"
      using settle_wants_append [OF e(2), of "[Dropped ev]"] by (simp add: settle_def)
    moreover have "tally (rn_stats ?s') = stat_run (es @ [ev]) MigrationStats_init"
      using p e(3) Dropped by (simp add: tally_apply [OF unscanned_fate [OF Dropped]] stat_run_snoc)
    ultimately show ?thesis using p by (intro explained_intro) simp_all
  next
    case (Wants ar)
    then have "on_the_way (fate mg reg) ?s' = on_the_way (fate mg reg) s"
      using rest way p convert(2) by (simp add: after_prepare_fates)
    then show ?thesis using e p Wants by (intro explained_intro) simp_all
  next
    case (Raises ex)
    then show ?thesis using fate_safe [of mg reg r ex] safe by blast
  qed
next
  case (write_single i s ar key now limiter' stats' w')
  obtain rest where rest: "on_the_way (fate mg reg) s = rest + worker_fates (fate mg reg) (rn_workers s ! i)"
    and upd: "\<And>(s' :: 'a run_state) x. rn_source s' = rn_source s \<Longrightarrow> rn_producer s' = rn_producer s \<Longrightarrow>
      rn_queue s' = rn_queue s \<Longrightarrow> rn_workers s' = (rn_workers s)[i := x] \<Longrightarrow>
      on_the_way (fate mg reg) s' = rest + worker_fates (fate mg reg) x"
    using worker_step_fates [OF write_single(1), where F = "fate mg reg"] by blast
  obtain fs es where e: "all_fates = mset fs + on_the_way (fate mg reg) s"
    "settle eff fs ([], m0) = (es, look (rn_db s))" "tally (rn_stats s) = stat_run es MigrationStats_init"
    and reg: "same_registry reg (rn_registry s)" using write_single(4) by (auto simp: explained_def)
  obtain res where res: "sn_write snk (rn_db s) ar = (res, w')" "stats' = stat_apply (event_of_write res) (rn_stats s)"
    using write_one_event [OF write_single(3)] by (auto simp: sink_is)
  have "ok [ar]" by (rule batches) (simp_all add: e(1) rest write_single(2) batch_size_pos)
  note eff = single [OF this res(1)]
  let ?s' = "s\<lparr>rn_write_limiter := limiter', rn_stats := stats', rn_db := w', rn_workers := (rn_workers s)[i := WIdle None]\<rparr>"
  have "on_the_way (fate mg reg) ?s' = rest" using upd [of ?s' "WIdle None"] by simp
  then have "all_fates = mset (fs @ [Wants ar]) + on_the_way (fate mg reg) ?s'" using e(1) rest write_single(2) by simp
  moreover have "settle eff (fs @ [Wants ar]) ([], m0) = (es @ [event_of_write res], look (rn_db ?s'))"
    using settle_wants_append [OF e(2), of "[Wants ar]"] eff by (simp add: settle_def)
  moreover have "tally (rn_stats ?s') = stat_run (es @ [event_of_write res]) MigrationStats_init"
    using e(3) by (simp add: res(2) tally_apply stat_run_snoc)
  ultimately show ?case using reg by (intro explained_intro) simp_all
next
  case (flush_batch i s buf af now limiter' stats' w')
  obtain rest where rest: "on_the_way (fate mg reg) s = rest + worker_fates (fate mg reg) (rn_workers s ! i)"
    and upd: "\<And>(s' :: 'a run_state) x. rn_source s' = rn_source s \<Longrightarrow> rn_producer s' = rn_producer s \<Longrightarrow>
      rn_queue s' = rn_queue s \<Longrightarrow> rn_workers s' = (rn_workers s)[i := x] \<Longrightarrow>
      on_the_way (fate mg reg) s' = rest + worker_fates (fate mg reg) x"
    using worker_step_fates [OF flush_batch(1), where F = "fate mg reg"] by blast
  obtain fs es where e: "all_fates = mset fs + on_the_way (fate mg reg) s"
    "settle eff fs ([], m0) = (es, look (rn_db s))" "tally (rn_stats s) = stat_run es MigrationStats_init"
    and reg: "same_registry reg (rn_registry s)" using flush_batch(4) by (auto simp: explained_def)
  have "worker_wf (mg_batch_size mg) (WFlush buf af)" using flush_batch(1,2,5) by (auto simp: bounded_def list_all_length)
  then have "ok (map fst buf)" by (intro batches) (simp_all add: e(1) rest flush_batch(2) wanted_def comp_def)
  from flush_explained [OF this flush_batch(3)] obtain gs where
    gs: "settle eff (map (\<lambda>p. Wants (fst p)) buf) ([], look (rn_db s)) = (gs, look w')"
      "tally stats' = stat_run gs (tally (rn_stats s))" by blast
  let ?s' = "s\<lparr>rn_write_limiter := limiter', rn_stats := stats', rn_db := w', rn_workers := (rn_workers s)[i := after_flush_worker af]\<rparr>"
  have "on_the_way (fate mg reg) ?s' = rest"
    using upd [of ?s' "after_flush_worker af"] by (simp add: after_flush_fates)
  then have "all_fates = mset (fs @ map (\<lambda>p. Wants (fst p)) buf) + on_the_way (fate mg reg) ?s'"
    using e(1) rest flush_batch(2) by (simp add: wanted_def)
  moreover have "settle eff (fs @ map (\<lambda>p. Wants (fst p)) buf) ([], m0) = (es @ gs, look (rn_db ?s'))"
    using settle_wants_append [OF e(2) gs(1)] by simp
  moreover have "tally (rn_stats ?s') = stat_run (es @ gs) MigrationStats_init"
    using e(3) gs(2) by (simp add: stat_run_def)
  ultimately show ?case using reg by (intro explained_intro) simp_all
qed

lemma init_explained:
  assumes "same_registry reg reg'"
  shows "explained (fate mg reg) look eff reg (mset (map (fate mg reg) rs)) (look w) (run_init mg reg' now rs exn w)"
proof -
  have none: "sum_list (replicate n {#}) = {#}" for n by (induction n) simp_all
  have "sum_list (map (worker_fates F) (start_workers mg)) = {#}" for F
    using none by (simp add: start_workers_def)
  then show ?thesis
    by (intro explained_intro [where fs = "[]" and es = "[]"])
      (simp_all add: assms run_init_def on_the_way_def stat_run_def)
qed

lemma reachable_explained:
  assumes "reachable mg fl (run_init mg reg now rs exn w) s"
    and "\<And>ars. mset (map Wants ars) \<subseteq># mset (map (fate mg reg) rs) \<Longrightarrow> int (length ars) \<le> mg_batch_size mg \<Longrightarrow> ok ars"
  shows "explained (fate mg reg) look eff reg (mset (map (fate mg reg) rs)) (look w) s"
  using assms(1) unfolding reachable_def
proof (induction rule: rtranclp_induct)
  case base
  then show ?case by (rule init_explained) simp
next
  case (step s s')
  then have "bounded mg s" using reachable_inv [of reg now rs exn w s] by (simp add: reachable_def)
  then show ?case using step_explained [OF step(2,3) assms(2)] by blast
qed

lemma finished_way:
  assumes "reachable mg fl (run_init mg reg now rs exn w) s" "\<nexists>s'. step mg fl s s'"
  shows "on_the_way F s = {#}"
proof -
  have fin: "rn_producer s = Finished" "rn_queue s = []" using finished_complete [OF assms] by auto
  have "sentinels_ok s" using reachable_inv [OF assms(1)] by blast
  then have src: "rn_source s = []" "list_all worker_ended (rn_workers s)"
    using fin(1) by (auto simp: sentinels_ok_def)
  have "worker_fates F x = {#}" if "worker_ended x" for x
    using that by (cases x) auto
  then have "sum_list (map (worker_fates F) ws) = {#}" if "list_all worker_ended ws" for ws
    using that by (induction ws) auto
  then show ?thesis using fin src by (simp add: on_the_way_def)
qed

lemma reachable_settled:
  assumes "reachable mg fl (run_init mg reg now rs exn w) s"
    and "\<And>ars. mset (map Wants ars) \<subseteq># mset (map (fate mg reg) rs) \<Longrightarrow> int (length ars) \<le> mg_batch_size mg \<Longrightarrow> ok ars"
  shows "\<exists>xs es. mset xs \<subseteq># mset rs \<and> ((\<nexists>s'. step mg fl s s') \<longrightarrow> mset xs = mset rs) \<and>
    settle eff (map (fate mg reg) xs) ([], look w) = (es, look (rn_db s)) \<and>
    tally (rn_stats s) = stat_run es MigrationStats_init"
proof -
  obtain fs es where fs: "mset (map (fate mg reg) rs) = mset fs + on_the_way (fate mg reg) s"
    and e: "settle eff fs ([], look w) = (es, look (rn_db s))" "tally (rn_stats s) = stat_run es MigrationStats_init"
    using reachable_explained [OF assms] by (auto simp: explained_def)
  obtain ds where ds: "mset ds = on_the_way (fate mg reg) s" using ex_mset by blast
  then obtain zs where zs: "mset zs = mset rs" "map (fate mg reg) zs = fs @ ds"
    using mset_map_rearrange [of "fate mg reg" rs "fs @ ds"] fs by auto
  let ?xs = "take (length fs) zs"
  have "map (fate mg reg) ?xs = fs" using zs(2) by (simp add: take_map [symmetric])
  moreover have "mset ?xs \<subseteq># mset rs"
    using zs(1) append_take_drop_id [of "length fs" zs] by (metis mset_append mset_subset_eq_add_left)
  moreover have "mset ?xs = mset rs" if "\<nexists>s'. step mg fl s s'"
  proof -
    have "ds = []" using finished_way [OF assms(1) that] ds by simp
    then have "length zs = length fs" using zs(2) by (metis append_Nil2 length_map)
    then show ?thesis using zs(1) by simp
  qed
  ultimately show ?thesis using e by (intro exI [of _ ?xs] exI [of _ es]) simp
qed

text \<open>The reference loop settles its records in their order.\<close>

lemma migrate_record_settle:
  assumes "\<And>ar. fate mg reg r = Wants ar \<Longrightarrow> ok [ar]"
  shows "\<exists>es. settle1 eff (fate mg reg r) ([], look w) = (es, look (snd (migrate_record mg reg r (st, w)))) \<and>
    fst (migrate_record mg reg r (st, w)) = stat_run es st"
proof -
  obtain out reg' st' where p: "prepare mg reg st r = (out, reg', st')" by (metis prod_cases3)
  note f = prepare_fate [OF same_registry_refl p]
  show ?thesis
  proof (cases "fate mg reg r")
    case (Dropped e)
    then show ?thesis using f by (simp add: p stat_run_def)
  next
    case (Wants ar)
    obtain res w' where res: "sn_write snk w ar = (res, w')" by fastforce
    show ?thesis using f Wants single [OF assms [OF Wants] res] by (simp add: p sink_is res stat_run_def)
  next
    case (Raises e)
    then show ?thesis using fate_safe [of mg reg r e] safe by blast
  qed
qed

lemma migrate_in_order_settle:
  assumes "\<And>r ar. r \<in> set rs \<Longrightarrow> fate mg reg r = Wants ar \<Longrightarrow> ok [ar]"
  shows "\<exists>es. settle eff (map (fate mg reg) rs) ([], look w) = (es, look (snd (migrate_in_order mg reg rs (st, w)))) \<and>
    fst (migrate_in_order mg reg rs (st, w)) = stat_run es st"
  using assms
proof (induction rs arbitrary: st w)
  case (Cons r rs)
  obtain st1 w1 where one: "migrate_record mg reg r (st, w) = (st1, w1)" by fastforce
  obtain es where es: "settle1 eff (fate mg reg r) ([], look w) = (es, look w1)" "st1 = stat_run es st"
    using migrate_record_settle [of reg r w st] Cons.prems one by auto
  obtain es' where "settle eff (map (fate mg reg) rs) ([], look w1) = (es', look (snd (migrate_in_order mg reg rs (st1, w1))))"
    "fst (migrate_in_order mg reg rs (st1, w1)) = stat_run es' st1"
    using Cons.IH [of w1 st1] Cons.prems by auto
  then show ?case
    using es settle_prefix [of eff "map (fate mg reg) rs" "[]" "look w1" es' _ es]
    by (auto simp: migrate_in_order_def one settle_def stat_run_def simp del: migrate_record.simps)
qed (simp add: migrate_in_order_def stat_run_def)

text \<open>At every moment, a part of the source records, in some order, explains the run.\<close>

lemma reachable_serial:
  assumes "reachable mg fl (run_init mg reg now rs exn w) s"
    and ok: "\<And>ars. mset (map Wants ars) \<subseteq># mset (map (fate mg reg) rs) \<Longrightarrow> int (length ars) \<le> mg_batch_size mg \<Longrightarrow> ok ars"
  shows "\<exists>xs. mset xs \<subseteq># mset rs \<and> ((\<nexists>s'. step mg fl s s') \<longrightarrow> mset xs = mset rs) \<and>
    tally (rn_stats s) = fst (migrate_in_order mg reg xs (MigrationStats_init, w)) \<and>
    look (rn_db s) = look (snd (migrate_in_order mg reg xs (MigrationStats_init, w)))"
proof -
  obtain xs es where xs: "mset xs \<subseteq># mset rs" "(\<nexists>s'. step mg fl s s') \<longrightarrow> mset xs = mset rs"
    and e: "settle eff (map (fate mg reg) xs) ([], look w) = (es, look (rn_db s))"
      "tally (rn_stats s) = stat_run es MigrationStats_init"
    using reachable_settled [OF assms] by blast
  have one: "ok [ar]" if "r \<in> set xs" "fate mg reg r = Wants ar" for r ar
  proof -
    have "r \<in> set rs" using that(1) xs(1) by (metis mset_subset_eqD set_mset_mset)
    then have "Wants ar \<in># mset (map (fate mg reg) rs)" using that(2) by force
    then show ?thesis by (intro ok) (simp_all add: single_subset_iff batch_size_pos)
  qed
  show ?thesis using xs e migrate_in_order_settle [of xs reg w MigrationStats_init, OF one] by auto
qed

end

end
