(* ===== verification/Run_Result.thy ===== *)
theory Run_Result
  imports Run_Content
begin

text \<open>
  The result of a run of the program's migrator over a server that treats records one by one, as
  documented: it is the result of migrating the records of the source one after the other, and with
  distinct placements it does not depend on the schedule at all.
\<close>

section \<open>The sink of the program writes atomically\<close>

definition record_effect :: "'c AerospikeSink \<Rightarrow> 'c Migrator \<Rightarrow> 'r rule \<Rightarrow> 'r records effect" where
  "record_effect self mg rule ar m = (event_of_outcome mg (write_outcome self rule ar m), write_effect self rule ar m)"

text \<open>Under the replacing policy the server forgets the present record.\<close>

definition replacing :: "'c AerospikeSink \<Rightarrow> 'r rule \<Rightarrow> bool" where
  "replacing self rule \<longleftrightarrow> ac_record_exists_policy (sk_config self) = REPLACE \<and>
     (\<exists>content. \<forall>ops ttl old. rule (Some (projr (policy_code self))) ops ttl old = (0, Some (content ops ttl)))"

text \<open>Batches that have the effect of their records in order: no key twice, or replacing writes.\<close>

definition orderly :: "'c AerospikeSink \<Rightarrow> 'r rule \<Rightarrow> AerospikeRecord list \<Rightarrow> bool" where
  "orderly self rule ars \<longleftrightarrow> (\<forall>ar \<in> set ars. buildable self ar) \<and>
     (replacing self rule \<or> distinct (map (sink_key self) (filter (sendable self) ars)))"

text \<open>The records that a list of fates wants to write.\<close>

fun wants1 :: "fate \<Rightarrow> AerospikeRecord option" where
  "wants1 (Wants ar) = Some ar"
| "wants1 f = None"

definition wants :: "fate list \<Rightarrow> AerospikeRecord list" where
  "wants = List.map_filter wants1"

definition wanted_records :: "'c Migrator \<Rightarrow> ConverterRegistry \<Rightarrow> RedisRecord list \<Rightarrow> AerospikeRecord list" where
  "wanted_records mg reg rs = wants (map (fate mg reg) rs)"

lemma wants_simps [simp]: "wants [] = []" "wants (Wants ar # fs) = ar # wants fs" "wants (Dropped e # fs) = wants fs"
  "wants (Raises x # fs) = wants fs"
  by (simp_all add: wants_def map_filter_simps)

lemma wants_map [simp]: "wants (map Wants ars) = ars"
  by (induction ars) simp_all

lemma wants_mono: "mset fs \<subseteq># mset gs \<Longrightarrow> mset (wants fs) \<subseteq># mset (wants gs)"
  by (simp add: wants_def map_filter_def image_mset_subseteq_mono multiset_filter_mono)

text \<open>The update of the counters for a fate, when the records of the server are \<open>m\<close>.\<close>

fun fate_event :: "'c AerospikeSink \<Rightarrow> 'c Migrator \<Rightarrow> 'r rule \<Rightarrow> 'r records \<Rightarrow> fate \<Rightarrow> stat_event list" where
  "fate_event self mg rule m (Dropped e) = [e]"
| "fate_event self mg rule m (Wants ar) = [event_of_outcome mg (write_outcome self rule ar m)]"
| "fate_event self mg rule m (Raises x) = []"

lemma write_outcome_frame:
  assumes "sendable self x \<Longrightarrow> sendable self ar \<Longrightarrow> sink_key self x \<noteq> sink_key self ar"
  shows "write_outcome self rule x (write_effect self rule ar m) = write_outcome self rule x m"
proof (cases "sendable self x \<and> sendable self ar")
  case True
  then have "write_result self rule x (write_effect self rule ar m) = write_result self rule x m"
    using assms by (intro write_result_cong) (simp add: write_effect_def)
  then show ?thesis by (simp add: write_outcome_def)
qed (auto simp: write_outcome_def write_effect_def)

lemma settle_distinct:
  assumes "distinct (map (sink_key self) (filter (sendable self) (wants fs)))"
  shows "settle (record_effect self mg rule) fs ([], m) =
    (concat (map (fate_event self mg rule m) fs), fold (write_effect self rule) (wants fs) m)"
  using assms
proof (induction fs arbitrary: m)
  case (Cons f fs)
  show ?case
  proof (cases f)
    case (Dropped e)
    from settle_prefix [OF Cons.IH, where ds = "[e]"] Cons.prems show ?thesis by (simp add: Dropped settle_def)
  next
    case (Wants ar)
    let ?m1 = "write_effect self rule ar m" and ?ev = "event_of_outcome mg (write_outcome self rule ar m)"
    have "write_outcome self rule x ?m1 = write_outcome self rule x m" if "Wants x \<in> set fs" for x
    proof (rule write_outcome_frame)
      have "x \<in> set (wants fs)" using that by (auto simp: wants_def map_filter_def image_iff intro!: bexI [of _ "Wants x"])
      then show "sendable self x \<Longrightarrow> sendable self ar \<Longrightarrow> sink_key self x \<noteq> sink_key self ar"
        using Cons.prems by (auto simp: Wants image_iff)
    qed
    then have "fate_event self mg rule ?m1 g = fate_event self mg rule m g" if "g \<in> set fs" for g
      using that by (cases g) auto
    then have ev: "concat (map (fate_event self mg rule ?m1) fs) = concat (map (fate_event self mg rule m) fs)"
      by (intro arg_cong [of _ _ concat] map_cong) simp_all
    have d: "distinct (map (sink_key self) (filter (sendable self) (wants fs)))"
      using Cons.prems by (auto simp: Wants split: if_splits)
    have "settle (record_effect self mg rule) fs ([], ?m1) =
        (concat (map (fate_event self mg rule m) fs), fold (write_effect self rule) (wants fs) ?m1)"
      using Cons.IH [OF d, of ?m1] by (simp only: ev)
    from settle_prefix [OF this, of "[?ev]"]
    have "settle (record_effect self mg rule) fs ([?ev], ?m1) =
        (?ev # concat (map (fate_event self mg rule m) fs), fold (write_effect self rule) (wants fs) ?m1)" by simp
    moreover have "settle1 (record_effect self mg rule) (Wants ar) ([], m) = ([?ev], ?m1)"
      by (simp add: record_effect_def)
    ultimately show ?thesis by (simp add: Wants settle_def)
  next
    case (Raises x)
    then show ?thesis using Cons by (simp add: settle_def)
  qed
qed simp

lemma settle_effect_distinct:
  assumes "distinct (map (sink_key self) (filter (sendable self) ars))"
  shows "settle (record_effect self mg rule) (map Wants ars) ([], m) =
    (map (\<lambda>ar. event_of_outcome mg (write_outcome self rule ar m)) ars, fold (write_effect self rule) ars m)"
proof -
  have "concat (map (fate_event self mg rule m) (map Wants ars)) =
      map (\<lambda>ar. event_of_outcome mg (write_outcome self rule ar m)) ars"
    by (induction ars) simp_all
  then show ?thesis using settle_distinct [of self "map Wants ars" mg rule m] assms by simp
qed

text \<open>The records after writes to distinct keys: each holds what its own write made of the initial one.\<close>

lemma fold_effect_distinct:
  assumes "distinct (map (sink_key self) (filter (sendable self) ars))"
  shows "fold (write_effect self rule) ars m k =
    (case find (\<lambda>ar. sendable self ar \<and> sink_key self ar = k) ars of
       Some ar \<Rightarrow> snd (write_result self rule ar m)
     | None \<Rightarrow> m k)"
  using assms
proof (induction ars arbitrary: m)
  case (Cons ar ars)
  let ?m1 = "write_effect self rule ar m" and ?P = "\<lambda>ar. sendable self ar \<and> sink_key self ar = k"
  have d: "distinct (map (sink_key self) (filter (sendable self) ars))" using Cons.prems by (auto split: if_splits)
  note IH = Cons.IH [OF d, of ?m1]
  show ?case
  proof (cases "?P ar")
    case True
    then have "find ?P ars = None" using Cons.prems by (auto simp: find_None_iff image_iff)
    moreover have "?m1 k = snd (write_result self rule ar m)" using True by (simp add: write_effect_def)
    ultimately show ?thesis using IH True by simp
  next
    case False
    have "write_result self rule x ?m1 = write_result self rule x m" if "find ?P ars = Some x" for x
      using that False by (intro write_result_cong) (auto simp: find_Some_iff write_effect_def)
    moreover have "?m1 k = m k" using False by (auto simp: write_effect_def)
    ultimately show ?thesis using IH False by (auto split: option.splits)
  qed
qed simp

lemma replacing_replace_laws:
  assumes "server_laws c look rule" "policy_code self = Inr code"
    and "\<forall>ops ttl old. rule (Some code) ops ttl old = (0, Some (content ops ttl))"
  shows "replace_laws c code look content"
proof -
  have put: "server_apply rule key ops pol m = (0, store key (content ops (pol_ttl pol)) m)"
    if "dict_get pol (L ''exists'') = Some code" for key ops pol m
    using that assms(3) by (simp add: server_apply_def store_def)
  have many: "server_batch rule bs m =
      (map (\<lambda>b. 0) bs, fold (\<lambda>b. store (bw_key b) (content (bw_ops b) (pol_ttl (bw_policy b)))) bs m)"
    if "list_all (\<lambda>b. dict_get (bw_policy b) (L ''exists'') = Some code) bs" for bs m
    using that by (induction bs arbitrary: m) (auto simp: put)
  have replies: "length replies = length bs \<and> list_all (\<lambda>r. rp_result r = Some 0) replies"
    if "map rp_result replies = map Some (map (\<lambda>b. 0) bs)" for replies :: "batch_reply list" and bs :: "batch_item list"
    using that by (induction bs arbitrary: replies) (auto simp: map_eq_Cons_conv)
  show ?thesis unfolding replace_laws_def
  proof (intro conjI allI impI)
    fix w key bins pol
    assume e: "dict_get pol (L ''exists'') = Some code"
    obtain res w' rc where "cl_put c w key bins pol = (res, w')" "single_reply res rc"
      "server_apply rule key (map (\<lambda>(n, v). OpWrite n v) bins) pol (look w) = (rc, look w')"
      using assms(1) unfolding server_laws_def by blast
    then show "\<exists>w'. cl_put c w key bins pol = (Inr (), w') \<and>
        look w' = store key (content (map (\<lambda>(n, v). OpWrite n v) bins) (pol_ttl pol)) (look w)"
      using put [OF e] by (auto simp: single_reply_def)
  next
    fix w key ops pol
    assume e: "dict_get pol (L ''exists'') = Some code"
    obtain res w' rc where "cl_operate c w key ops pol = (res, w')" "single_reply res rc"
      "server_apply rule key ops pol (look w) = (rc, look w')"
      using assms(1) unfolding server_laws_def by blast
    then show "\<exists>w'. cl_operate c w key ops pol = (Inr (), w') \<and>
        look w' = store key (content ops (pol_ttl pol)) (look w)"
      using put [OF e] by (auto simp: single_reply_def)
  next
    fix w and writes :: "batch_item list"
    assume "list_all (\<lambda>b. dict_get (bw_policy b) (L ''exists'') = Some code) writes \<and> distinct (map bw_key writes)"
    then have e: "list_all (\<lambda>b. dict_get (bw_policy b) (L ''exists'') = Some code) writes" "distinct (map bw_key writes)" by blast+
    obtain reps w' codes where "cl_batch_write c w writes = (Inr reps, w')"
      "map rp_result reps = map Some codes" "server_batch rule writes (look w) = (codes, look w')"
      using assms(1) e(2) unfolding server_laws_def by blast
    then show "\<exists>w' replies. cl_batch_write c w writes = (Inr replies, w') \<and> length replies = length writes \<and>
        list_all (\<lambda>r. rp_result r = Some 0) replies \<and>
        look w' = fold (\<lambda>b. store (bw_key b) (content (bw_ops b) (pol_ttl (bw_policy b)))) writes (look w)"
      using many [OF e(1)] replies [of reps writes] by auto
  qed
qed

text \<open>A batch under the replacing policy, in the terms of the rule.\<close>

lemma write_many_replacing:
  assumes "sk_client self = Some c" "server_laws c look rule" "policy_results self rule" "replacing self rule"
    and "\<forall>ar \<in> set ars. buildable self ar"
  shows "\<exists>w'. write_many self w ars =
      (Inr (map (\<lambda>r. if sendable self r then None else Some (L ''RecordTooLargeError'')) ars), w') \<and>
    look w' = fold (write_effect self rule) ars (look w) \<and>
    (\<forall>ar m. write_outcome self rule ar m = (if sendable self ar then None else Some (L ''RecordTooLargeError'')))"
proof -
  obtain code where code: "policy_code self = Inr code" using assms(3) by (auto simp: policy_results_def)
  obtain content where content: "\<forall>ops ttl old. rule (Some code) ops ttl old = (0, Some (content ops ttl))"
    using assms(4) code by (auto simp: replacing_def)
  have policy: "ac_record_exists_policy (sk_config self) = REPLACE" using assms(4) by (simp add: replacing_def)
  then have const: "am_const (sk_module self) (L ''POLICY_EXISTS_CREATE_OR_REPLACE'') = Some code"
    using code by (auto simp: policy_code_def am_attr_def split: option.splits)
  have effect: "store (sink_key self r) (stored self content r) m = write_effect self rule r m" if "sendable self r" for r m
    using that content code by (simp add: write_effect_def write_result_def stored_def store_def)
  have "fold (\<lambda>r. store (sink_key self r) (stored self content r)) (filter (sendable self) ars) m =
      fold (write_effect self rule) (filter (sendable self) ars) m" for m
    by (intro fold_cong refl ext) (simp add: effect)
  then have "fold (\<lambda>r. store (sink_key self r) (stored self content r)) (filter (sendable self) ars) m =
      fold (write_effect self rule) ars m" for m
    by (simp only: fold_effect_sendable)
  then show ?thesis
    using write_many_replace [OF assms(1) policy const replacing_replace_laws [OF assms(2) code content] assms(5), of w]
      content code by (auto simp: write_outcome_def write_result_def)
qed

locale record_server =
  fixes self :: "'c AerospikeSink" and c :: "'c aclient" and look :: "'c \<Rightarrow> 'r records" and rule :: "'r rule"
    and config :: MigrationConfig and ts :: "Transform list" and fl :: "rat \<Rightarrow> rat"
  assumes client: "sk_client self = Some c" and laws: "server_laws c look rule"
    and results: "policy_results self rule" and sink_config: "sk_config self = mc_aerospike config"
    and total_transforms: "\<exists>ar'. apply_all ar ts = Inr ar'"
begin

lemma single_effect:
  assumes "buildable self ar" "sink_write self w ar = (res, w')"
  shows "record_effect self (Migrator_init config (Some ts) self) rule ar (look w) = (event_of_write res, look w')"
proof -
  obtain res' v where v: "sink_write self w ar = (res', v)" "look v = write_effect self rule ar (look w)"
    "case write_outcome self rule ar (look w) of
       None \<Rightarrow> res' = Inr ()
     | Some out \<Rightarrow> res' = Inl (if sendable self ar then RecordAlreadyExists else RecordTooLargeError)"
    using sink_write_effect [OF client laws results assms(1)] by blast
  have "ac_record_exists_policy (mc_aerospike config) = CREATE_ONLY"
    if "write_outcome self rule ar (look w) = Some BATCH_RECORD_EXISTS_OUTCOME" "sendable self ar"
    using that policy_results_cases [OF results, of "projr (ops_for (sk_module self) ar)" "Some (ttl_or_default ar)"
        "look w (sink_key self ar)"] by (auto simp: write_outcome_def write_result_def sink_config split: if_splits)
  moreover have "write_outcome self rule ar (look w) \<in>
      (if sendable self ar then {None, Some BATCH_RECORD_EXISTS_OUTCOME} else {Some (L ''RecordTooLargeError'')})"
    by (simp add: write_outcome_def)
  ultimately show ?thesis using v assms(2)
    by (auto simp: record_effect_def event_of_outcome_def event_of_write_def Migrator_init_def
        BATCH_RECORD_EXISTS_OUTCOME_def split: if_splits)
qed

lemma batch_effect:
  assumes "orderly self rule ars"
  shows "\<exists>outs w'. write_many self w ars = (Inr outs, w') \<and>
    settle (record_effect self (Migrator_init config (Some ts) self) rule) (map Wants ars) ([], look w) =
      (map (event_of_outcome (Migrator_init config (Some ts) self)) outs, look w')"
proof (cases "replacing self rule")
  case True
  let ?mg = "Migrator_init config (Some ts) self"
  let ?out = "\<lambda>r. if sendable self r then None else Some (L ''RecordTooLargeError'')"
  have b: "\<forall>ar \<in> set ars. buildable self ar" using assms by (simp add: orderly_def)
  from write_many_replacing [OF client laws results True b] obtain w' where
    w': "write_many self w ars = (Inr (map ?out ars), w')" "look w' = fold (write_effect self rule) ars (look w)"
    "\<And>ar m. write_outcome self rule ar m = ?out ar" by blast
  have "settle (record_effect self ?mg rule) (map Wants ars) (es, m) =
      (es @ map (\<lambda>ar. event_of_outcome ?mg (?out ar)) ars, fold (write_effect self rule) ars m)" for es m
    by (induction ars arbitrary: es m) (simp_all add: settle_def record_effect_def w'(3) del: if_split)
  then show ?thesis using w'(1,2) by (simp add: comp_def)
next
  case False
  then have d: "\<forall>ar \<in> set ars. buildable self ar" "distinct (map (sink_key self) (filter (sendable self) ars))"
    using assms by (simp_all add: orderly_def)
  show ?thesis using write_many_distinct [OF client laws results d, of w]
    by (auto simp: settle_effect_distinct [OF d(2)] comp_def)
qed

end

sublocale record_server \<subseteq> run: atomic_sink "aerospike_sink_ops self" "Migrator_init config (Some ts) self" fl look
  "record_effect self (Migrator_init config (Some ts) self) rule" "orderly self rule"
proof unfold_locales
  show "\<exists>ar'. apply_all ar (mg_transforms (Migrator_init config (Some ts) self)) = Inr ar'" for ar
    using total_transforms by (simp add: Migrator_init_def)
qed (auto simp: aerospike_sink_ops_def orderly_def intro!: single_effect batch_effect)

section \<open>Runs over a server of records\<close>

lemma distinct_mset_subset: "mset xs \<subseteq># mset ys \<Longrightarrow> distinct ys \<Longrightarrow> distinct xs"
proof -
  assume "mset xs \<subseteq># mset ys" "distinct ys"
  then obtain zs where "mset ys = mset (xs @ zs)" by (metis ex_mset mset_append subset_mset.add_diff_inverse)
  then show "distinct xs" using \<open>distinct ys\<close> by (metis distinct_append mset_eq_imp_distinct_iff)
qed

lemma orderly_mono:
  assumes "mset ars \<subseteq># mset brs" "orderly self rule brs"
  shows "orderly self rule ars"
proof -
  have m: "mset (map (sink_key self) (filter (sendable self) ars)) \<subseteq># mset (map (sink_key self) (filter (sendable self) brs))"
    using assms(1) by (simp add: image_mset_subseteq_mono multiset_filter_mono)
  have "set ars \<subseteq> set brs" using assms(1) set_mset_mono by fastforce
  then show ?thesis using assms(2) distinct_mset_subset [OF m] by (auto simp: orderly_def)
qed

context record_server
begin

lemma orderly_batches:
  assumes "mg_batch_size (Migrator_init config (Some ts) self) \<le> 1 \<and>
      (\<forall>ar \<in> set (wanted_records (Migrator_init config (Some ts) self) reg rs). buildable self ar) \<or>
      orderly self rule (wanted_records (Migrator_init config (Some ts) self) reg rs)"
    and "mset (map Wants ars) \<subseteq># mset (map (fate (Migrator_init config (Some ts) self) reg) rs)"
    and "int (length ars) \<le> mg_batch_size (Migrator_init config (Some ts) self)"
  shows "orderly self rule ars"
proof -
  have m: "mset ars \<subseteq># mset (wanted_records (Migrator_init config (Some ts) self) reg rs)"
    using wants_mono [OF assms(2)] by (simp add: wanted_records_def)
  show ?thesis using assms(1)
  proof
    assume "orderly self rule (wanted_records (Migrator_init config (Some ts) self) reg rs)"
    then show ?thesis by (rule orderly_mono [OF m])
  next
    assume one: "mg_batch_size (Migrator_init config (Some ts) self) \<le> 1 \<and>
      (\<forall>ar \<in> set (wanted_records (Migrator_init config (Some ts) self) reg rs). buildable self ar)"
    then have "length ars \<le> 1" using assms(3) by simp
    then have "distinct (map (sink_key self) (filter (sendable self) ars))" by (cases ars) auto
    moreover have "set ars \<subseteq> set (wanted_records (Migrator_init config (Some ts) self) reg rs)"
      using m set_mset_mono by fastforce
    ultimately show ?thesis using one by (auto simp: orderly_def)
  qed
qed

lemma orderly_distinct:
  "(\<forall>ar \<in> set ars. buildable self ar) \<Longrightarrow> distinct (map (sink_key self) (filter (sendable self) ars)) \<Longrightarrow>
    orderly self rule ars"
  by (simp add: orderly_def)

lemmas serial_run = run.reachable_serial [OF _ orderly_batches]
lemmas settled_run = run.reachable_settled [OF _ orderly_batches]

end

text \<open>Counters as sums over the updates, which do not depend on their order.\<close>

fun skipped_by :: "stat_event \<Rightarrow> int" where
  "skipped_by (Skipped r) = 1"
| "skipped_by e = 0"

fun failed_by :: "stat_event \<Rightarrow> int" where
  "failed_by (Errored r) = 1"
| "failed_by e = 0"

lemma stat_run_skips:
  "st_skipped (stat_run es s) = st_skipped s + sum_mset (image_mset skipped_by (mset es))"
  "st_errors (stat_run es s) = st_errors s + sum_mset (image_mset failed_by (mset es))"
proof -
  have "st_skipped (stat_apply e s) = st_skipped s + skipped_by e \<and> st_errors (stat_apply e s) = st_errors s + failed_by e" for e s
    by (cases e) (simp_all add: stat_ops)
  then show "st_skipped (stat_run es s) = st_skipped s + sum_mset (image_mset skipped_by (mset es))"
    "st_errors (stat_run es s) = st_errors s + sum_mset (image_mset failed_by (mset es))"
    unfolding stat_run_def by (induction es arbitrary: s) auto
qed

lemma tally_counts: "st_migrated (tally s) = st_migrated s" "st_skipped (tally s) = st_skipped s" "st_errors (tally s) = st_errors s"
  by (simp_all add: tally_def)

lemma find_unique:
  assumes "mset xs = mset ys" "\<And>x y. x \<in> set xs \<Longrightarrow> y \<in> set xs \<Longrightarrow> P x \<Longrightarrow> P y \<Longrightarrow> x = y"
  shows "find P xs = find P ys"
proof -
  have sets: "set xs = set ys" using assms(1) by (metis set_mset_mset)
  show ?thesis
  proof (cases "find P xs")
    case None
    then have "find P ys = None" using sets by (simp add: find_None_iff)
    then show ?thesis using None by simp
  next
    case (Some x)
    then have x: "x \<in> set xs" "P x" by (auto simp: find_Some_iff)
    then obtain y where y: "find P ys = Some y" using sets by (cases "find P ys") (auto simp: find_None_iff)
    then have "y \<in> set ys" "P y" by (auto simp: find_Some_iff)
    then show ?thesis using x y Some assms(2) sets by auto
  qed
qed

lemma wants_mset: "mset fs = mset gs \<Longrightarrow> mset (wants fs) = mset (wants gs)"
  using wants_mono by (metis subset_mset.dual_order.antisym subset_mset.dual_order.refl)

context record_server
begin

lemma finished_database:
  assumes "reachable (Migrator_init config (Some ts) self) fl (run_init (Migrator_init config (Some ts) self) reg now rs exn w) s"
    and "\<nexists>s'. step (Migrator_init config (Some ts) self) fl s s'"
    and "\<forall>ar \<in> set (wanted_records (Migrator_init config (Some ts) self) reg rs). buildable self ar"
    and "distinct (map (sink_key self) (filter (sendable self) (wanted_records (Migrator_init config (Some ts) self) reg rs)))"
  shows "look (rn_db s) k =
      (case find (\<lambda>ar. sendable self ar \<and> sink_key self ar = k) (wanted_records (Migrator_init config (Some ts) self) reg rs) of
         Some ar \<Rightarrow> snd (write_result self rule ar (look w)) | None \<Rightarrow> look w k)"
    and "\<exists>es. mset es = mset (concat (map (\<lambda>r. fate_event self (Migrator_init config (Some ts) self) rule (look w)
        (fate (Migrator_init config (Some ts) self) reg r)) rs)) \<and> tally (rn_stats s) = stat_run es MigrationStats_init"
proof -
  let ?mg = "Migrator_init config (Some ts) self" and ?F = "fate (Migrator_init config (Some ts) self) reg"
  let ?ars = "wanted_records ?mg reg rs"
  obtain xs es where xs: "mset xs = mset rs"
    and e: "settle (record_effect self ?mg rule) (map ?F xs) ([], look w) = (es, look (rn_db s))"
      "tally (rn_stats s) = stat_run es MigrationStats_init"
    using settled_run [OF assms(1) disjI2, OF orderly_distinct [OF assms(3,4)]] assms(2) by blast
  have m: "mset (wants (map ?F xs)) = mset ?ars"
    unfolding wanted_records_def by (rule wants_mset) (simp add: xs)
  then have "mset (map (sink_key self) (filter (sendable self) (wants (map ?F xs)))) =
      mset (map (sink_key self) (filter (sendable self) ?ars))" by simp
  then have d: "distinct (map (sink_key self) (filter (sendable self) (wants (map ?F xs))))"
    using assms(4) mset_eq_imp_distinct_iff by blast
  have es: "es = concat (map (fate_event self ?mg rule (look w)) (map ?F xs))"
    "look (rn_db s) = fold (write_effect self rule) (wants (map ?F xs)) (look w)"
    using e(1) settle_distinct [OF d, of ?mg rule "look w"] by simp_all
  have "find (\<lambda>ar. sendable self ar \<and> sink_key self ar = k) (wants (map ?F xs)) =
      find (\<lambda>ar. sendable self ar \<and> sink_key self ar = k) ?ars"
    using d by (intro find_unique [OF m]) (auto simp: distinct_map inj_on_def)
  then show "look (rn_db s) k =
      (case find (\<lambda>ar. sendable self ar \<and> sink_key self ar = k) ?ars of
         Some ar \<Rightarrow> snd (write_result self rule ar (look w)) | None \<Rightarrow> look w k)"
    unfolding es(2) fold_effect_distinct [OF d] by simp
  have "mset (concat (map f xs)) = mset (concat (map f rs))" for f :: "RedisRecord \<Rightarrow> stat_event list"
    by (simp only: mset_concat map_map sum_mset_sum_list [symmetric] mset_map xs)
  then show "\<exists>es. mset es = mset (concat (map (\<lambda>r. fate_event self ?mg rule (look w) (?F r)) rs)) \<and>
      tally (rn_stats s) = stat_run es MigrationStats_init"
    using e(2) es(1) by (intro exI [of _ es]) (simp add: comp_def)
qed

lemma in_order_result:
  assumes "\<forall>ar \<in> set (wanted_records (Migrator_init config (Some ts) self) reg rs). buildable self ar"
    and "distinct (map (sink_key self) (filter (sendable self) (wanted_records (Migrator_init config (Some ts) self) reg rs)))"
  shows "\<exists>es. fst (migrate_in_order (Migrator_init config (Some ts) self) reg rs (st, w)) = stat_run es st \<and>
    mset es = mset (concat (map (\<lambda>r. fate_event self (Migrator_init config (Some ts) self) rule (look w)
        (fate (Migrator_init config (Some ts) self) reg r)) rs)) \<and>
    look (snd (migrate_in_order (Migrator_init config (Some ts) self) reg rs (st, w))) =
      fold (write_effect self rule) (wanted_records (Migrator_init config (Some ts) self) reg rs) (look w)"
proof -
  let ?mg = "Migrator_init config (Some ts) self"
  have one: "orderly self rule [ar]" if "r \<in> set rs" "fate ?mg reg r = Wants ar" for r ar
  proof -
    have "Wants ar \<in># mset (map (fate ?mg reg) rs)" using that by force
    then show ?thesis
      by (intro orderly_batches [OF disjI2, OF orderly_distinct [OF assms]]) (simp_all add: single_subset_iff batch_size_pos)
  qed
  show ?thesis
    using run.migrate_in_order_settle [of rs reg w st, OF one]
      settle_distinct [of self "map (fate ?mg reg) rs" ?mg rule "look w"] assms(2)
    by (auto simp: wanted_records_def comp_def)
qed

end

section \<open>Records of the converters can be sent\<close>

text \<open>
  A batch or a list operation cannot be built when the client library lacks a list constant or a
  bin with the unique-list policy is not iterable; the converters only make lists of such bins.
\<close>

definition list_constants :: "aerospike_module \<Rightarrow> bool" where
  "list_constants m \<longleftrightarrow>
     list_all (\<lambda>name. am_const m (L name) \<noteq> None)
       [''LIST_ORDERED'', ''LIST_WRITE_ADD_UNIQUE'', ''LIST_WRITE_NO_FAIL'', ''LIST_WRITE_PARTIAL'']"

definition unique_lists :: "AerospikeRecord \<Rightarrow> bool" where
  "unique_lists ar \<longleftrightarrow>
     list_all (\<lambda>p. policy_for ar (fst p) = UNIQUE_LIST \<longrightarrow> (\<exists>xs. snd p = PList xs)) (ar_bins ar)"

lemma unique_lists_buildable:
  assumes "list_constants (sk_module self)" "unique_lists ar"
  shows "buildable self ar"
proof (cases "unique_bins ar = []")
  case False
  have unique: "policy_for ar name = UNIQUE_LIST" if "dict_get (unique_bins ar) name \<noteq> None" for name
    using that by (auto simp: unique_bins_def dest!: kget_SomeD)
  let ?f = "\<lambda>pol (name, value). if dict_get (unique_bins ar) name \<noteq> None then
      rmap (\<lambda>items. [OpWrite name (PList []), OpListAppendItems name items pol]) (py_list value)
      else Inr [OpWrite name (encode_bin_value_for_write (sk_module self) value)]"
  have "\<exists>ops. mapr (?f pol) bins = Inr ops"
    if "list_all (\<lambda>p. policy_for ar (fst p) = UNIQUE_LIST \<longrightarrow> (\<exists>xs. snd p = PList xs)) bins" for pol bins
    using that
  proof (induction bins)
    case (Cons p bins)
    then obtain ops where "mapr (?f pol) bins = Inr ops" by auto
    moreover have "\<exists>op. ?f pol p = Inr op" using Cons.prems unique by (cases p) auto
    ultimately show ?case by auto
  qed simp
  then have "\<exists>ops. mapr (?f pol) (ar_bins ar) = Inr ops" for pol using assms(2) by (simp add: unique_lists_def)
  then show ?thesis using False assms(1)
    by (auto simp: buildable_def ops_for_def build_ops_def am_attr_def list_constants_def Let_def
        rmap_def rbind_eq_Inr split: option.splits)
qed (simp add: buildable_def ops_for_def)

lemma build_unique_lists:
  assumes "build tp r bins ps = (Inr ar, tp')"
    and "ps = [] \<or> (\<exists>name xs. bins = Inr [(name, PList xs)]) \<or> (\<exists>e. bins = Inl e)"
  shows "unique_lists ar"
  using assms by (auto simp: build_def unique_lists_def policy_for_def list_all_iff split: sum.splits prod.splits)

lemma registry_unique_lists:
  assumes "reg_converters reg = default_converters config" "registry_convert reg r hs vb = (Inr ar, reg')"
  shows "unique_lists ar"
proof -
  have set_bins: "(\<exists>name xs. rmap (\<lambda>items. [(vb, PList (map PS (set_members items)))]) m = Inr [(name, PList xs)]) \<or>
      (\<exists>e. rmap (\<lambda>items. [(vb, PList (map PS (set_members items)))]) m = Inl e)" for vb :: pystr and m
    by (cases m) auto
  show ?thesis using assms(2) set_bins
    by (auto simp: registry_convert_def registry_get_def assms(1) default_get Let_def converter_defs
        split: if_splits prod.splits elim!: build_unique_lists)
qed

lemma convert_routed_unique_lists:
  assumes "reg_converters reg = default_converters config" "fst (convert_routed mg reg res r) = Inr ar"
  shows "unique_lists ar"
  using assms(2) registry_unique_lists [OF assms(1)]
  by (cases "convert_routed mg reg res r") (auto simp: convert_routed_def Let_def split: if_splits)

text \<open>So, without transforms, every record can be sent.\<close>

lemma wanted_buildable:
  assumes "registry_from_config config' = Inr reg" "mg_transforms mg = []" "list_constants (sk_module self)"
    and "ar \<in> set (wanted_records mg reg rs)"
  shows "buildable self ar"
proof -
  have reg: "reg_converters reg = default_converters config'" using assms(1) by (auto simp: registry_from_config_eq)
  obtain r where "fate mg reg r = Wants ar"
    using assms(4) by (auto simp: wanted_records_def wants_def map_filter_def elim: wants1.elims)
  then obtain ar0 where ar0: "fst (convert_routed mg reg (SetRouter_resolve (mg_router mg) (rr_key r)) r) = Inr ar0"
    "ar = route_record mg (SetRouter_resolve (mg_router mg) (rr_key r)) r ar0"
    by (auto simp: fate_def Let_def assms(2) split: sum.splits)
  have "unique_lists ar"
    using convert_routed_unique_lists [OF reg ar0(1)]
    by (simp add: ar0(2) route_record_def unique_lists_def policy_for_def Let_def)
  then show ?thesis by (rule unique_lists_buildable [OF assms(3)])
qed

section \<open>Properties\<close>

text \<open>
  C3 At every moment of a run the database and the counters are those of migrating some of the
  source records one after the other, in one thread and without batches; when the run is over,
  those of all of them. So the queue, the workers and the batches cannot corrupt, duplicate or
  lose a record, whatever the order in which the threads are scheduled, and a run that is killed
  leaves a prefix of a sequential migration. This holds in three cases: records are written one by one (a
  batch size of at most one), records are replaced, or no two records to write have one placement.
  Otherwise a batch with two records of one placement can count what no sequential migration counts
  (\<open>create_only_batch_differs\<close>). The server is assumed to treat each record by itself, as documented.
\<close>

theorem run_serializable:
  fixes self :: "'c AerospikeSink"
  assumes "sk_client self = Some c" "server_laws c look rule" "policy_results self rule"
    and "sk_config self = mc_aerospike config" "\<forall>ar. \<exists>ar'. apply_all ar ts = Inr ar'"
    and "\<forall>ar \<in> set (wanted_records (Migrator_init config (Some ts) self) reg rs). buildable self ar"
    and "mc_write_batch_size config \<le> 1 \<or> replacing self rule \<or>
      distinct (map (sink_key self) (filter (sendable self) (wanted_records (Migrator_init config (Some ts) self) reg rs)))"
    and "reachable (Migrator_init config (Some ts) self) fl
           (run_init (Migrator_init config (Some ts) self) reg now rs exn w) s"
  shows "\<exists>xs. mset xs \<subseteq># mset rs \<and>
    ((\<nexists>s'. step (Migrator_init config (Some ts) self) fl s s') \<longrightarrow> mset xs = mset rs) \<and>
    tally (rn_stats s) = fst (migrate_in_order (Migrator_init config (Some ts) self) reg xs (MigrationStats_init, w)) \<and>
    look (rn_db s) = look (snd (migrate_in_order (Migrator_init config (Some ts) self) reg xs (MigrationStats_init, w)))"
proof -
  have "record_server self c look rule config ts" using assms(1-5) by unfold_locales auto
  moreover have "mg_batch_size (Migrator_init config (Some ts) self) \<le> 1 \<longleftrightarrow> mc_write_batch_size config \<le> 1"
    by (simp add: mg_batch_size_def Migrator_init_def)
  then have "mg_batch_size (Migrator_init config (Some ts) self) \<le> 1 \<and>
      (\<forall>ar \<in> set (wanted_records (Migrator_init config (Some ts) self) reg rs). buildable self ar) \<or>
      orderly self rule (wanted_records (Migrator_init config (Some ts) self) reg rs)"
    using assms(6,7) by (auto simp: orderly_def)
  ultimately show ?thesis by (rule record_server.serial_run [OF _ assms(8)])
qed

text \<open>
  C4 When the placements of the records are distinct, the result of a finished run does not depend
  on the schedule, the number of workers, the queue or the batches, under any policy for existing
  records: every key holds what the write of its record makes of the record that the database had,
  keys that no record is placed on are untouched, and the counters are those of migrating the
  records in the order of the source.
\<close>

theorem run_deterministic:
  fixes self :: "'c AerospikeSink"
  assumes "sk_client self = Some c" "server_laws c look rule" "policy_results self rule"
    and "sk_config self = mc_aerospike config" "\<forall>ar. \<exists>ar'. apply_all ar ts = Inr ar'"
    and "\<forall>ar \<in> set (wanted_records (Migrator_init config (Some ts) self) reg rs). buildable self ar"
    and "distinct (map (sink_key self) (filter (sendable self) (wanted_records (Migrator_init config (Some ts) self) reg rs)))"
    and "reachable (Migrator_init config (Some ts) self) fl
           (run_init (Migrator_init config (Some ts) self) reg now rs exn w) s"
    and "\<nexists>s'. step (Migrator_init config (Some ts) self) fl s s'"
    and "migrate_in_order (Migrator_init config (Some ts) self) reg rs (MigrationStats_init, w) = (st, w')"
  shows "look (rn_db s) = look w' \<and>
    (\<forall>k. look (rn_db s) k =
      (case find (\<lambda>ar. sendable self ar \<and> sink_key self ar = k) (wanted_records (Migrator_init config (Some ts) self) reg rs) of
         Some ar \<Rightarrow> snd (write_result self rule ar (look w))
       | None \<Rightarrow> look w k)) \<and>
    st_migrated (rn_stats s) = st_migrated st \<and> st_skipped (rn_stats s) = st_skipped st \<and>
    st_errors (rn_stats s) = st_errors st"
proof -
  let ?mg = "Migrator_init config (Some ts) self"
  let ?F = "fate ?mg reg" and ?ars = "wanted_records ?mg reg rs"
  have rs: "record_server self c look rule config ts" using assms(1-5) by unfold_locales auto
  note fin = record_server.finished_database [OF rs assms(8,9,6,7)]
  obtain es where es: "mset es = mset (concat (map (\<lambda>r. fate_event self ?mg rule (look w) (?F r)) rs))"
    "tally (rn_stats s) = stat_run es MigrationStats_init" using fin(2) by blast
  obtain es' where es': "st = stat_run es' MigrationStats_init"
    "mset es' = mset (concat (map (\<lambda>r. fate_event self ?mg rule (look w) (?F r)) rs))"
    and m: "look w' = fold (write_effect self rule) ?ars (look w)"
    using record_server.in_order_result [OF rs assms(6,7), where w = w and st = MigrationStats_init] assms(10) by auto
  have "look (rn_db s) k = look w' k" for k
    using fin(1) [of k] fold_effect_distinct [OF assms(7), of rule "look w" k] m by simp
  moreover have "st_migrated (rn_stats s) = st_migrated st" "st_skipped (rn_stats s) = st_skipped st"
    "st_errors (rn_stats s) = st_errors st"
    using tally_counts [of "rn_stats s"] by (simp_all add: es es' stat_run_counts(2) stat_run_skips)
  ultimately show ?thesis using fin(1) by auto
qed

text \<open>The reference server and two records, for the witnesses.\<close>

definition ref_config :: "RecordExistsPolicy \<Rightarrow> MigrationConfig" where
  "ref_config mode = MigrationConfig_default\<lparr>mc_aerospike := AerospikeConfig_default\<lparr>ac_record_exists_policy := mode\<rparr>\<rparr>"

interpretation ref: record_server "ref_sink mode" ref_client "\<lambda>w. w" ref_rule "ref_config mode" "[IdentityTransform]" fl
  for mode fl
  by unfold_locales
    (simp_all add: ref_sink_def ref_config_def ref_server_laws ref_policy_results [unfolded ref_sink_def] apply_all_def)

abbreviation ref_mg :: "RecordExistsPolicy \<Rightarrow> ref_store Migrator" where
  "ref_mg mode \<equiv> Migrator_init (ref_config mode) (Some [IdentityTransform]) (ref_sink mode)"

definition ref_written :: "nat \<Rightarrow> AerospikeRecord" where
  "ref_written k = \<lparr>ar_key = KStr [k], ar_bins = [(L ''value'', PList [])], ar_ttl_s = Some TTL_NEVER_EXPIRE,
     ar_bin_policies = [], ar_set_name = None\<rparr>"

lemma ref_fate: "fate (ref_mg mode) ref_registry (ref_redis_record k) = Wants (ref_written k)"
proof -
  have "SetRouter_resolve (mg_router (ref_mg mode)) (KStr [k]) =
      \<lparr>rs_set_name = L ''redis'', rs_key = KStr [k], rs_hash_strategy = None, rs_value_bin = None\<rparr>"
    by (simp add: SetRouter_resolve_def mg_router_def SetRouter_init_def Migrator_init_def ref_config_def
        AerospikeConfig_default_def)
  moreover have "fst (registry_convert ref_registry (ref_redis_record k) None None) = Inr (ref_written k)"
    by (simp add: ref_registry_def registry_from_config_eq registry_convert_def registry_get_def default_get
        ref_redis_record_def Let_def text_simps ListConverter_convert_def build_def ref_written_def
        MigrationConfig_default_def AerospikeConfig_default_def)
  ultimately show ?thesis
    by (simp add: fate_def convert_routed_def Let_def apply_all_def ref_redis_record_def text_simps Migrator_init_def)
      (simp add: route_record_def ref_config_def AerospikeConfig_default_def Let_def ref_written_def)
qed

lemma ref_wanted:
  "wanted_records (ref_mg mode) ref_registry [ref_redis_record i, ref_redis_record j] = [ref_written i, ref_written j]"
  by (simp add: wanted_records_def ref_fate)

lemma ref_written_sink: "sink_key (ref_sink mode) (ref_written k) = (L ''test'', L ''redis'', KStr [k])"
  "sendable (ref_sink mode) (ref_written k)" "buildable (ref_sink mode) (ref_written k)"
  by (simp_all add: sink_key_def ref_sink_def AerospikeConfig_default_def ref_written_def opt_text_def Let_def
      sendable_def record_size_def buildable_def ops_for_def unique_bins_def policy_for_def L_def utf8_encode_def enc1_def)

lemma ref_orderly: "i \<noteq> j \<Longrightarrow> orderly (ref_sink mode) ref_rule [ref_written i, ref_written j]"
  by (simp add: orderly_def ref_written_sink)

lemma ref_write_result:
  "snd (write_result (ref_sink UPDATE) ref_rule (ref_written k) (\<lambda>k. None)) =
     Some ([OpWrite (L ''value'') (PList [])], Some TTL_NEVER_EXPIRE)"
  by (simp add: write_result_def ref_rule_def ref_written_def ops_for_def unique_bins_def policy_for_def ttl_or_default_def)

text \<open>A finished run of the two records.\<close>

lemma ref_finished:
  "\<exists>s. run_ends (ref_mg mode)
      (run_init (ref_mg mode) ref_registry 0 [ref_redis_record 1, ref_redis_record 2] None (\<lambda>k. None)) s"
proof -
  let ?s = "run_init (ref_mg mode) ref_registry 0 [ref_redis_record 1, ref_redis_record 2] None (\<lambda>k. None)"
  have r: "reachable (ref_mg mode) exact ?s ?s" by (simp add: reachable_def)
  obtain s where s: "reachable (ref_mg mode) exact ?s s" "rn_producer s = Finished"
    using ref.run.can_finish [OF r] by blast
  have "sentinels_ok s" using am.reachable_inv [OF s(1)] by blast
  then show ?thesis using s finished_stuck by blast
qed

theorem run_serializable_witness:
  "\<exists>s xs. run_ends (ref_mg UPDATE)
      (run_init (ref_mg UPDATE) ref_registry 0 [ref_redis_record 1, ref_redis_record 2] None (\<lambda>k. None)) s \<and>
    mset xs = mset [ref_redis_record 1, ref_redis_record 2] \<and>
    tally (rn_stats s) = fst (migrate_in_order (ref_mg UPDATE) ref_registry xs (MigrationStats_init, \<lambda>k. None)) \<and>
    rn_db s = snd (migrate_in_order (ref_mg UPDATE) ref_registry xs (MigrationStats_init, \<lambda>k. None))"
proof -
  have id: "\<forall>ar. \<exists>ar'. apply_all ar [IdentityTransform] = Inr ar'" by (simp add: apply_all_def)
  have o: "\<forall>ar \<in> set (wanted_records (ref_mg UPDATE) ref_registry [ref_redis_record 1, ref_redis_record 2]).
      buildable (ref_sink UPDATE) ar"
    "mc_write_batch_size (ref_config UPDATE) \<le> 1 \<or> replacing (ref_sink UPDATE) ref_rule \<or>
      distinct (map (sink_key (ref_sink UPDATE)) (filter (sendable (ref_sink UPDATE))
        (wanted_records (ref_mg UPDATE) ref_registry [ref_redis_record 1, ref_redis_record 2])))"
    using ref_orderly [of 1 2 UPDATE] by (auto simp: ref_wanted orderly_def)
  obtain s where s: "reachable (ref_mg UPDATE) exact
      (run_init (ref_mg UPDATE) ref_registry 0 [ref_redis_record 1, ref_redis_record 2] None (\<lambda>k. None)) s"
    "\<nexists>s'. step (ref_mg UPDATE) exact s s'" using ref_finished by blast
  from run_serializable [OF ref.client ref.laws ref.results ref.sink_config id o s(1)] s show ?thesis by blast
qed

theorem run_deterministic_witness:
  "\<exists>s. run_ends (ref_mg UPDATE)
      (run_init (ref_mg UPDATE) ref_registry 0 [ref_redis_record 1, ref_redis_record 2] None (\<lambda>k. None)) s \<and>
    rn_db s (L ''test'', L ''redis'', KStr [1]) = Some ([OpWrite (L ''value'') (PList [])], Some TTL_NEVER_EXPIRE) \<and>
    rn_db s (L ''test'', L ''redis'', KStr [2]) = Some ([OpWrite (L ''value'') (PList [])], Some TTL_NEVER_EXPIRE) \<and>
    rn_db s (L ''test'', L ''redis'', KStr [3]) = None"
proof -
  have id: "\<forall>ar. \<exists>ar'. apply_all ar [IdentityTransform] = Inr ar'" by (simp add: apply_all_def)
  obtain s where s: "reachable (ref_mg UPDATE) exact
      (run_init (ref_mg UPDATE) ref_registry 0 [ref_redis_record 1, ref_redis_record 2] None (\<lambda>k. None)) s"
    "\<nexists>s'. step (ref_mg UPDATE) exact s s'" using ref_finished by blast
  obtain st w' where seq: "migrate_in_order (ref_mg UPDATE) ref_registry [ref_redis_record 1, ref_redis_record 2]
      (MigrationStats_init, \<lambda>k. None) = (st, w')" by fastforce
  have "\<forall>ar \<in> set [ref_written 1, ref_written 2]. buildable (ref_sink UPDATE) ar"
    "distinct (map (sink_key (ref_sink UPDATE)) (filter (sendable (ref_sink UPDATE)) [ref_written 1, ref_written 2]))"
    by (simp_all add: ref_written_sink)
  note pre = this [folded ref_wanted [of UPDATE]]
  have "\<forall>k. rn_db s k = (case find (\<lambda>ar. sendable (ref_sink UPDATE) ar \<and> sink_key (ref_sink UPDATE) ar = k)
        [ref_written 1, ref_written 2] of
      Some ar \<Rightarrow> snd (write_result (ref_sink UPDATE) ref_rule ar (\<lambda>k. None)) | None \<Rightarrow> None)"
    using run_deterministic [OF ref.client ref.laws ref.results ref.sink_config id pre s seq]
    unfolding ref_wanted by blast
  note db = this [rule_format]
  show ?thesis using s by (intro exI [of _ s] conjI) (simp_all add: db ref_written_sink ref_write_result)
qed

end
