(* ===== verification/Placement.thy ===== *)
theory Placement
  imports Run_Result
begin

text \<open>
  Where a source record is written: the set and the key that the router resolves for its Redis key,
  in the configured namespace. Without transforms every record that is written goes there.
\<close>

definition placement :: "MigrationConfig \<Rightarrow> pykey \<Rightarrow> AerospikeKeyTuple" where
  "placement config key =
     (let resolution = SetRouter_resolve (SetRouter_init (ac_set_routes (mc_aerospike config)) (ac_set_name (mc_aerospike config))) key
      in (ac_namespace (mc_aerospike config), rs_set_name resolution, rs_key resolution))"

text \<open>Sets have names.\<close>

definition sets_named :: "MigrationConfig \<Rightarrow> bool" where
  "sets_named config \<longleftrightarrow>
     list_all valid_route (ac_set_routes (mc_aerospike config)) \<and> ac_set_name (mc_aerospike config) \<noteq> []"

lemma build_key: "build tp r bins ps = (Inr ar, tp') \<Longrightarrow> ar_key ar = rr_key r \<and> ar_set_name ar = None"
  by (auto simp: build_def split: sum.splits prod.splits)

lemma registry_key:
  assumes "reg_converters reg = default_converters config" "registry_convert reg r hs vb = (Inr ar, reg')"
  shows "ar_key ar = rr_key r \<and> ar_set_name ar = None"
  using assms(2)
  by (auto simp: registry_convert_def registry_get_def assms(1) default_get Let_def converter_defs
      split: if_splits prod.splits dest: build_key)

lemma convert_routed_key:
  assumes "reg_converters reg = default_converters config" "fst (convert_routed mg reg res r) = Inr ar"
  shows "ar_key ar = rr_key r \<and> ar_set_name ar = None"
  using assms(2) registry_key [OF assms(1)]
  by (cases "convert_routed mg reg res r") (auto simp: convert_routed_def Let_def split: if_splits)

lemma route_record_placement:
  assumes "sk_config self = mc_aerospike config" "sets_named config" "mg_config mg = config"
    and "ar_key ar = rr_key r" "ar_set_name ar = None"
  shows "sink_key self (route_record mg (SetRouter_resolve (mg_router mg) (rr_key r)) r ar) = placement config (rr_key r)"
proof -
  have "rs_set_name (SetRouter_resolve (mg_router mg) (rr_key r)) \<noteq> []"
    using resolve_set_nonempty assms(2,3) by (simp add: mg_router_def sets_named_def)
  then show ?thesis using assms
    by (simp add: sink_key_def route_record_def placement_def mg_router_def Let_def opt_text_def)
qed

lemma fate_placement:
  assumes "registry_from_config config' = Inr reg" "mg_transforms mg = []"
    and "sk_config self = mc_aerospike config" "sets_named config" "mg_config mg = config"
    and "fate mg reg r = Wants ar"
  shows "sink_key self ar = placement config (rr_key r)"
proof -
  let ?res = "SetRouter_resolve (mg_router mg) (rr_key r)"
  have reg: "reg_converters reg = default_converters config'" using assms(1) by (auto simp: registry_from_config_eq)
  obtain ar0 where ar0: "fst (convert_routed mg reg ?res r) = Inr ar0" "ar = route_record mg ?res r ar0"
    using assms(6) by (auto simp: fate_def Let_def assms(2) split: sum.splits)
  then show ?thesis using convert_routed_key [OF reg ar0(1)] route_record_placement [OF assms(3-5)] by simp
qed

text \<open>Distinct placements of the source records are distinct keys of the records to write.\<close>

lemma wanted_distinct:
  assumes "\<And>r ar. r \<in> set rs \<Longrightarrow> fate mg reg r = Wants ar \<Longrightarrow> sink_key self ar = f r" "distinct (map f rs)"
  shows "distinct (map (sink_key self) (filter (sendable self) (wanted_records mg reg rs)))"
proof -
  have "distinct (map (sink_key self) (wanted_records mg reg rs)) \<and>
      sink_key self ` set (wanted_records mg reg rs) \<subseteq> f ` set rs"
    using assms
  proof (induction rs)
    case (Cons r rs)
    then have IH: "distinct (map (sink_key self) (wanted_records mg reg rs))"
      "sink_key self ` set (wanted_records mg reg rs) \<subseteq> f ` set rs" by auto
    have "wanted_records mg reg (r # rs) = (case fate mg reg r of Wants ar \<Rightarrow> [ar] | _ \<Rightarrow> []) @ wanted_records mg reg rs"
      by (cases "fate mg reg r") (simp_all add: wanted_records_def)
    moreover have "sink_key self ar = f r" if "fate mg reg r = Wants ar" for ar using Cons.prems(1) that by simp
    moreover have "f r \<notin> sink_key self ` set (wanted_records mg reg rs)" using IH(2) Cons.prems(2) by auto
    ultimately show ?case using IH by (cases "fate mg reg r") auto
  qed (simp add: wanted_records_def)
  then show ?thesis by (simp add: distinct_map inj_on_def)
qed

lemma wanted_find:
  assumes "r \<in> set rs" "fate mg reg r = Wants ar" "sendable self ar"
    and "distinct (map (sink_key self) (filter (sendable self) (wanted_records mg reg rs)))"
  shows "find (\<lambda>x. sendable self x \<and> sink_key self x = sink_key self ar) (wanted_records mg reg rs) = Some ar"
proof -
  have mem: "ar \<in> set (wanted_records mg reg rs)"
    using assms(1,2) by (induction rs) (auto simp: wanted_records_def, (case_tac "fate mg reg a"; auto)+)
  then obtain x where x: "find (\<lambda>x. sendable self x \<and> sink_key self x = sink_key self ar) (wanted_records mg reg rs) = Some x"
    using assms(3) by (cases "find (\<lambda>x. sendable self x \<and> sink_key self x = sink_key self ar) (wanted_records mg reg rs)")
      (auto simp: find_None_iff)
  then have "x \<in> set (wanted_records mg reg rs)" "sendable self x" "sink_key self x = sink_key self ar"
    by (auto simp: find_Some_iff)
  then have "x = ar" using mem assms(3,4) by (auto simp: distinct_map inj_on_def)
  then show ?thesis using x by simp
qed

end
