(* ===== verification/Seed_Names.thy ===== *)
theory Seed_Names
  imports Seed_Keyspace Placement
begin

text \<open>
  The names of the keys that the seed scripts write, with their types; that they are distinct; and
  where the routes of the documentation place them.
\<close>

section \<open>Names\<close>

definition sample_kinds :: "(pystr \<times> pystr) list" where
  "sample_kinds =
     [(L ''string'', L '':str:''), (L ''hash'', L '':hash:''), (L ''list'', L '':list:''), (L ''set'', L '':set:''),
      (L ''zset'', L '':zset:'')]"

definition sample_name :: "pystr \<Rightarrow> nat \<Rightarrow> pystr" where
  "sample_name kind i = numbered (KEY_PREFIX @ kind) i"

definition sample_names :: "int list \<Rightarrow> (pystr \<times> pystr) list" where
  "sample_names counts =
     concat (map (\<lambda>((t, kind), n). map (\<lambda>i. (t, sample_name kind i)) [0 ..< nat n]) (zip sample_kinds counts))"

definition route_name :: "pystr \<Rightarrow> nat \<Rightarrow> pystr" where
  "route_name kind i = numbered (ROUTE_KEY_PREFIX @ kind) i"

definition user_names :: "nat \<Rightarrow> (pystr \<times> pystr) list" where
  "user_names i =
     (L ''string'', route_name (L '':user:'') i)
     # (if i mod 4 = 0 then [(L ''hash'', route_name (L '':user:'') i @ L '':profile'')] else [])"

definition routing_names :: "int \<Rightarrow> (pystr \<times> pystr) list" where
  "routing_names n =
     concat (map user_names [0 ..< nat n]) @
     map (\<lambda>i. (L ''string'', route_name (L '':session:sid-'') i)) [0 ..< nat n] @
     map (\<lambda>i. (L ''string'', route_name (L '':cache:key-'') i)) [0 ..< nat n] @
     map (\<lambda>i. (L ''hash'', route_name (L '':ledger:entry-'') i)) [0 ..< nat n]"

section \<open>Encoding\<close>

lemma utf8_encode_inject: "wf_text s \<Longrightarrow> wf_text t \<Longrightarrow> utf8_encode s = utf8_encode t \<longleftrightarrow> s = t"
  using utf8_decode_encode by (metis option.inject)

lemma wf_text_append [simp]: "wf_text (s @ t) \<longleftrightarrow> wf_text s \<and> wf_text t"
  by (simp add: wf_text_def)

lemma wf_text_L [simp]: "wf_text (L s)"
  by (auto simp: wf_text_def L_def list_all_iff scalar_def of_char_def)

lemma str_nat_digits: "c \<in> set (str_nat n) \<Longrightarrow> 48 \<le> c \<and> c \<le> 57"
  by (auto simp: str_nat_def dest!: digits_of_lt)

lemma wf_text_str_nat [simp]: "wf_text (str_nat n)"
  using str_nat_digits by (fastforce simp: wf_text_def list_all_iff scalar_def)

lemma str_nat_inject [simp]: "str_nat m = str_nat n \<longleftrightarrow> m = n"
  by (metis str_nat_def inj_map_eq_map inj_def nat_of_digits_digits_of add_left_cancel)

lemma str_nat_not_suffix [simp]: "58 \<in> set t \<Longrightarrow> str_nat m \<noteq> str_nat n @ t"
  using str_nat_digits [of 58 m] by auto

lemma wf_names: "wf_text (sample_name (L s) i)" "wf_text (route_name (L s) i)"
  by (simp_all add: sample_name_def route_name_def numbered_def KEY_PREFIX_def ROUTE_KEY_PREFIX_def)

section \<open>The names are distinct\<close>

text \<open>A table of rows of names: distinct when a name gives its row and its number.\<close>

lemma distinct_table:
  assumes "distinct (map fst rows)"
    and "\<And>a b i j. a \<in> fst ` set rows \<Longrightarrow> b \<in> fst ` set rows \<Longrightarrow> g a i = g b j \<Longrightarrow> a = b \<and> i = j"
  shows "distinct (concat (map (\<lambda>(a, n). map (g a) [0 ..< n]) rows))"
  using assms
proof (induction rows)
  case (Cons row rows)
  obtain a n where row: "row = (a, n)" by (cases row)
  have "distinct (map fst rows)" using Cons.prems(1) by simp
  moreover have "x = y \<and> i = j" if "x \<in> fst ` set rows" "y \<in> fst ` set rows" "g x i = g y j" for x y i j
    using Cons.prems(2) [OF _ _ that(3)] that(1,2) by simp
  ultimately have "distinct (concat (map (\<lambda>(a, n). map (g a) [0 ..< n]) rows))" by (rule Cons.IH)
  moreover have "i = j" if "g a i = g a j" for i j using Cons.prems(2) [OF _ _ that] by (simp add: row)
  then have "distinct (map (g a) [0 ..< n])" by (auto simp: distinct_map inj_on_def)
  moreover have "g a i \<noteq> g b j" if "(b, m) \<in> set rows" for i b m j
  proof -
    have "b \<in> fst ` set rows" using imageI [OF that, of fst] by simp
    then have "b \<noteq> a" using Cons.prems(1) by (auto simp: row)
    moreover have "a \<in> fst ` set (row # rows)" by (simp add: row)
    moreover have "b \<in> fst ` set (row # rows)" using imageI [OF that, of fst] by simp
    ultimately show ?thesis using Cons.prems(2) [of a b i j] by auto
  qed
  then have "set (map (g a) [0 ..< n]) \<inter> set (concat (map (\<lambda>(a, n). map (g a) [0 ..< n]) rows)) = {}" by fastforce
  ultimately show ?case by (simp add: row)
qed simp

lemma sample_kinds_inject:
  assumes "a \<in> set sample_kinds" "b \<in> set sample_kinds" "sample_name (snd a) i = sample_name (snd b) j"
  shows "a = b \<and> i = j"
proof -
  have "snd a @ str_nat i = snd b @ str_nat j" using assms(3) by (simp add: sample_name_def numbered_def)
  then show ?thesis using assms(1,2) by (auto simp: sample_kinds_def L_def)
qed

lemma distinct_sample_names: "length counts = 5 \<Longrightarrow> distinct (map snd (sample_names counts))"
proof -
  assume "length counts = 5"
  then have l: "length counts = length sample_kinds" by (simp add: sample_kinds_def)
  have "map snd (sample_names counts) =
      concat (map (\<lambda>(a, n). map (\<lambda>i. sample_name (snd a) i) [0 ..< n]) (zip sample_kinds (map nat counts)))"
    by (auto simp: sample_names_def map_concat comp_def zip_map2 intro!: arg_cong [where f = concat])
  moreover have "distinct sample_kinds" by (simp add: sample_kinds_def)
  then have "distinct (map fst (zip sample_kinds (map nat counts)))" using l by (simp add: map_fst_zip)
  ultimately show ?thesis
    using sample_kinds_inject by (auto intro!: distinct_table dest!: set_zip_leftD)
qed

lemma length_sample_names: "length counts = 5 \<Longrightarrow> length (sample_names counts) = sum_list (map nat counts)"
  by (auto simp: sample_names_def sample_kinds_def length_concat numeral_eq_Suc length_Suc_conv)

lemma route_names_inject:
  "route_name kind i = route_name kind j \<longleftrightarrow> i = j"
  "route_name (L '':user:'') i \<noteq> route_name (L '':user:'') j @ L '':profile''"
  by (simp_all add: route_name_def numbered_def L_def)

lemma route_names_apart:
  "route_name (L '':user:'') i @ s \<noteq> route_name (L '':session:sid-'') j" "route_name (L '':user:'') i @ s \<noteq> route_name (L '':cache:key-'') j"
  "route_name (L '':user:'') i @ s \<noteq> route_name (L '':ledger:entry-'') j"
  "route_name (L '':session:sid-'') i \<noteq> route_name (L '':cache:key-'') j"
  "route_name (L '':session:sid-'') i \<noteq> route_name (L '':ledger:entry-'') j"
  "route_name (L '':cache:key-'') i \<noteq> route_name (L '':ledger:entry-'') j"
  by (simp_all add: route_name_def numbered_def L_def)

lemma distinct_concat_upt:
  assumes "\<And>i. distinct (f i)" "\<And>i j. i \<noteq> j \<Longrightarrow> set (f i) \<inter> set (f j) = {}"
  shows "distinct (concat (map f [0 ..< n]))"
proof (induction n)
  case (Suc n)
  have "set (f i) \<inter> set (f n) = {}" if "i < n" for i using assms(2) [of i n] that by simp
  then have "set (concat (map f [0 ..< n])) \<inter> set (f n) = {}" by (auto simp: disjoint_iff)
  then show ?case using Suc assms(1) by simp
qed simp

lemma distinct_routing_names: "distinct (map snd (routing_names n))"
proof -
  note apart = route_names_inject(2) route_names_apart route_names_apart(1-3) [of _ "[]", simplified]
  note facts = route_names_inject(1) apart apart [symmetric]
  have "map snd (concat (map user_names [0 ..< nat n])) = concat (map (\<lambda>i. map snd (user_names i)) [0 ..< nat n])"
    by (simp add: map_concat comp_def)
  moreover have "distinct (concat (map (\<lambda>i. map snd (user_names i)) [0 ..< nat n]))"
    by (rule distinct_concat_upt) (auto simp: user_names_def facts)
  ultimately have "distinct (map snd (concat (map user_names [0 ..< nat n])))" by simp
  then show ?thesis
    by (auto simp: routing_names_def distinct_map inj_on_def facts user_names_def split: if_splits)
qed

lemma user_names_length: "length (concat (map user_names [0 ..< m])) = m + (m + 3) div 4"
proof (induction m)
  case (Suc m)
  have "(Suc m + 3) div 4 = (m + 3) div 4 + (if m mod 4 = 0 then 1 else 0)" by presburger
  then show ?case using Suc by (simp add: user_names_def)
qed simp

lemma length_routing_names: "1 \<le> n \<Longrightarrow> int (length (routing_names n)) = total_keys_for_per_route n"
  by (simp add: routing_names_def user_names_length total_keys_for_per_route_def Let_def zdiv_int)

section \<open>Placements\<close>

text \<open>The routes that the documentation of the script gives.\<close>

definition plain_route :: "pystr \<Rightarrow> pystr \<Rightarrow> AerospikeSetRoute" where
  "plain_route pat dest = \<lparr>pattern = pat, destination = dest, route_hash_strategy = None, route_value_bin = None\<rparr>"

definition documented_routes :: "AerospikeSetRoute list" where
  "documented_routes =
     [plain_route (L ''sample:route:user:*'') (L ''users''), plain_route (L ''sample:route:session:*'') (L ''sessions''),
      plain_route (L ''sample:route:cache:*'') (L ''caches'')]"

lemma prefix_route:
  assumes "literal l"
  shows "fnmatch k (l @ [42]) \<longleftrightarrow> (\<exists>b. k = l @ b)"
    and "b \<noteq> [] \<Longrightarrow> aerospike_key_from_route (l @ b) (l @ [42]) = b"
  using fnmatch_single_star [OF assms, of "[]" k] key_from_route_star [OF assms, of "[]" b] by (simp_all add: literal_def)

lemma decode_key_encode: "wf_text s \<Longrightarrow> decode_key (utf8_encode s) = KStr s"
  by (simp add: decode_key_def utf8_decode_encode)

lemma documented_patterns:
  "L ''sample:route:user:*'' = L ''sample:route:user:'' @ [42]" "L ''sample:route:session:*'' = L ''sample:route:session:'' @ [42]"
  "L ''sample:route:cache:*'' = L ''sample:route:cache:'' @ [42]" "literal (L ''sample:route:user:'')"
  "literal (L ''sample:route:session:'')" "literal (L ''sample:route:cache:'')"
  by (simp_all add: L_def literal_def)

definition domains :: "(pystr \<times> pystr) list" where
  "domains =
     [(L ''sample:route:user:'', L ''users''), (L ''sample:route:session:'', L ''sessions''),
      (L ''sample:route:cache:'', L ''caches'')]"

lemma resolve_documented:
  "b \<noteq> [] \<Longrightarrow> (l, dest) \<in> set domains \<Longrightarrow> resolve_text documented_routes d (l @ b) =
     \<lparr>rs_set_name = dest, rs_key = KStr b, rs_hash_strategy = None, rs_value_bin = None\<rparr>"
  "resolve_text documented_routes d (L ''sample:route:ledger:'' @ b) =
     \<lparr>rs_set_name = d, rs_key = KStr (L ''sample:route:ledger:'' @ b), rs_hash_strategy = None, rs_value_bin = None\<rparr>"
proof -
  note pats = documented_patterns(1-3) prefix_route [OF documented_patterns(4)] prefix_route [OF documented_patterns(5)]
    prefix_route [OF documented_patterns(6)]
  have apart: "L ''sample:route:session:'' @ b \<noteq> L ''sample:route:user:'' @ c" "L ''sample:route:cache:'' @ b \<noteq> L ''sample:route:user:'' @ c"
    "L ''sample:route:cache:'' @ b \<noteq> L ''sample:route:session:'' @ c" "L ''sample:route:ledger:'' @ b \<noteq> L ''sample:route:user:'' @ c"
    "L ''sample:route:ledger:'' @ b \<noteq> L ''sample:route:session:'' @ c" "L ''sample:route:ledger:'' @ b \<noteq> L ''sample:route:cache:'' @ c"
    for b c by (simp_all add: L_def)
  show "b \<noteq> [] \<Longrightarrow> (l, dest) \<in> set domains \<Longrightarrow> resolve_text documented_routes d (l @ b) =
     \<lparr>rs_set_name = dest, rs_key = KStr b, rs_hash_strategy = None, rs_value_bin = None\<rparr>"
    by (auto simp: domains_def documented_routes_def plain_route_def pats apart apart [symmetric])
  show "resolve_text documented_routes d (L ''sample:route:ledger:'' @ b) =
     \<lparr>rs_set_name = d, rs_key = KStr (L ''sample:route:ledger:'' @ b), rs_hash_strategy = None, rs_value_bin = None\<rparr>"
    by (simp add: documented_routes_def plain_route_def pats apart)
qed

text \<open>The place of a name, as the bytes in Redis are read.\<close>

definition name_place :: "MigrationConfig \<Rightarrow> pystr \<Rightarrow> AerospikeKeyTuple" where
  "name_place config name = placement config (decode_key (utf8_encode name))"

lemma name_place_text:
  assumes "ac_set_routes (mc_aerospike config) = documented_routes" "wf_text name"
  shows "name_place config name =
    (let r = resolve_text documented_routes (ac_set_name (mc_aerospike config)) name
     in (ac_namespace (mc_aerospike config), rs_set_name r, rs_key r))"
  using assms by (simp add: name_place_def decode_key_encode placement_def SetRouter_resolve_def SetRouter_init_def Let_def)

lemma route_texts:
  "route_name (L '':user:'') i = L ''sample:route:user:'' @ str_nat i"
  "route_name (L '':session:sid-'') i = L ''sample:route:session:'' @ (L ''sid-'' @ str_nat i)"
  "route_name (L '':cache:key-'') i = L ''sample:route:cache:'' @ (L ''key-'' @ str_nat i)"
  "route_name (L '':ledger:entry-'') i = L ''sample:route:ledger:'' @ (L ''entry-'' @ str_nat i)"
  by (simp_all add: route_name_def numbered_def ROUTE_KEY_PREFIX_def L_def)

lemma routing_places:
  assumes "ac_set_routes (mc_aerospike config) = documented_routes"
  shows "name_place config (route_name (L '':user:'') i) = (ac_namespace (mc_aerospike config), L ''users'', KStr (str_nat i))"
    "name_place config (route_name (L '':user:'') i @ L '':profile'') =
      (ac_namespace (mc_aerospike config), L ''users'', KStr (str_nat i @ L '':profile''))"
    "name_place config (route_name (L '':session:sid-'') i) =
      (ac_namespace (mc_aerospike config), L ''sessions'', KStr (L ''sid-'' @ str_nat i))"
    "name_place config (route_name (L '':cache:key-'') i) =
      (ac_namespace (mc_aerospike config), L ''caches'', KStr (L ''key-'' @ str_nat i))"
    "name_place config (route_name (L '':ledger:entry-'') i) =
      (ac_namespace (mc_aerospike config), ac_set_name (mc_aerospike config), KStr (route_name (L '':ledger:entry-'') i))"
  by (simp_all add: name_place_text [OF assms] wf_names)
    (simp_all add: route_texts domains_def resolve_documented(2) resolve_documented(1) [of _ "L ''sample:route:user:''" "L ''users''"]
      resolve_documented(1) [of _ "L ''sample:route:session:''" "L ''sessions''"]
      resolve_documented(1) [of _ "L ''sample:route:cache:''" "L ''caches''"])

lemma place_keys_apart:
  "str_nat i \<noteq> str_nat j @ L '':profile''" "str_nat i \<noteq> L ''sid-'' @ s" "str_nat i \<noteq> L ''key-'' @ s" "str_nat i \<noteq> route_name k j"
  "str_nat i @ t \<noteq> L ''sid-'' @ s" "str_nat i @ t \<noteq> L ''key-'' @ s" "str_nat i @ t \<noteq> route_name k j"
  "L ''sid-'' @ s \<noteq> L ''key-'' @ t" "L ''sid-'' @ s \<noteq> route_name k j" "L ''key-'' @ s \<noteq> route_name k j"
proof -
  have letter: "str_nat i @ t \<noteq> c # s" "str_nat i \<noteq> c # s" if "57 < c" for c i t s
    using that str_nat_digits [of "hd (str_nat i)" i] by (cases "str_nat i"; auto)+
  show "str_nat i \<noteq> str_nat j @ L '':profile''" by (rule str_nat_not_suffix) (simp add: L_def)
  show "str_nat i \<noteq> L ''sid-'' @ s" "str_nat i \<noteq> L ''key-'' @ s" "str_nat i \<noteq> route_name k j"
    "str_nat i @ t \<noteq> L ''sid-'' @ s" "str_nat i @ t \<noteq> L ''key-'' @ s" "str_nat i @ t \<noteq> route_name k j"
    "L ''sid-'' @ s \<noteq> L ''key-'' @ t" "L ''sid-'' @ s \<noteq> route_name k j" "L ''key-'' @ s \<noteq> route_name k j"
    by (simp_all add: letter L_def route_name_def numbered_def ROUTE_KEY_PREFIX_def)
qed

lemma routing_forms:
  assumes "(t, name) \<in> set (routing_names n)"
  shows "\<exists>i. name = route_name (L '':user:'') i \<or> name = route_name (L '':user:'') i @ L '':profile'' \<or>
    name = route_name (L '':session:sid-'') i \<or> name = route_name (L '':cache:key-'') i \<or> name = route_name (L '':ledger:entry-'') i"
  using assms by (auto simp: routing_names_def user_names_def split: if_splits)

lemma routing_place_inject:
  assumes "ac_set_routes (mc_aerospike config) = documented_routes"
    and "(t, a) \<in> set (routing_names n)" "(u, b) \<in> set (routing_names n)" "name_place config a = name_place config b"
  shows "a = b"
proof -
  note places = routing_places [OF assms(1)]
  from routing_forms [OF assms(2)] obtain i where i: "a = route_name (L '':user:'') i \<or> a = route_name (L '':user:'') i @ L '':profile'' \<or>
    a = route_name (L '':session:sid-'') i \<or> a = route_name (L '':cache:key-'') i \<or> a = route_name (L '':ledger:entry-'') i" by blast
  from routing_forms [OF assms(3)] obtain j where j: "b = route_name (L '':user:'') j \<or> b = route_name (L '':user:'') j @ L '':profile'' \<or>
    b = route_name (L '':session:sid-'') j \<or> b = route_name (L '':cache:key-'') j \<or> b = route_name (L '':ledger:entry-'') j" by blast
  show ?thesis using assms(4) i j
    by (elim disjE; simp add: places place_keys_apart place_keys_apart [symmetric] route_names_inject)
qed

text \<open>
  C39 Migrated under the routes that the script documents, every key of the routing sample goes where the
  documentation says: users, their profiles, sessions and cache entries under the text after the
  prefix into the sets users, sessions and caches, ledger entries under their whole key into the
  default set; and no two of them are written to the same place.
\<close>

theorem routing_placements:
  assumes "ac_set_routes (mc_aerospike config) = documented_routes"
  shows "name_place config (route_name (L '':user:'') i) = (ac_namespace (mc_aerospike config), L ''users'', KStr (str_nat i)) \<and>
    name_place config (route_name (L '':user:'') i @ L '':profile'') =
      (ac_namespace (mc_aerospike config), L ''users'', KStr (str_nat i @ L '':profile'')) \<and>
    name_place config (route_name (L '':session:sid-'') i) =
      (ac_namespace (mc_aerospike config), L ''sessions'', KStr (L ''sid-'' @ str_nat i)) \<and>
    name_place config (route_name (L '':cache:key-'') i) =
      (ac_namespace (mc_aerospike config), L ''caches'', KStr (L ''key-'' @ str_nat i)) \<and>
    name_place config (route_name (L '':ledger:entry-'') i) =
      (ac_namespace (mc_aerospike config), ac_set_name (mc_aerospike config), KStr (route_name (L '':ledger:entry-'') i)) \<and>
    distinct (map (\<lambda>(t, name). name_place config name) (routing_names n))"
proof -
  have "distinct (map (name_place config) (map snd (routing_names n)))"
    using distinct_routing_names [of n] routing_place_inject [OF assms]
    by (subst distinct_map) (auto simp: inj_on_def)
  then show ?thesis by (simp add: routing_places [OF assms] case_prod_unfold comp_def)
qed

text \<open>The example of the documentation: the user 7.\<close>

definition routed_config :: MigrationConfig where
  "routed_config = MigrationConfig_default\<lparr>mc_aerospike := AerospikeConfig_default\<lparr>ac_set_routes := documented_routes\<rparr>\<rparr>"

theorem routing_placements_witness:
  "name_place routed_config (L ''sample:route:user:7'') = (L ''test'', L ''users'', KStr (L ''7''))"
  using routing_placements [of routed_config 7 1]
  by (simp add: routed_config_def route_texts(1)) (simp add: L_def str_nat_def digits_of.simps AerospikeConfig_default_def)

end
