(* ===== verification/Seed_Results.thy ===== *)
theory Seed_Results
  imports Seed_Names
begin

text \<open>
  What a run of a seed script leaves in Redis: exactly the named keys with their types, well-shaped
  values, everything else as it was; and what it leaves alone whenever it does not flush.
\<close>

section \<open>Turns and names\<close>

lemma send_all_names:
  assumes "redis_laws c look ord" "server_up c look ord" "shaped_db (look w)"
    and "list_all (\<lambda>(t, u). leaves ord t u) kinds"
    and "map (\<lambda>(t, u). (t, turn_key u)) kinds = map (\<lambda>(t, name). (t, utf8_encode name)) names"
    and "distinct (map snd names)" "list_all (\<lambda>(t, name). wf_text name) names"
    and "list_all (\<lambda>(t, name). t = L ''hash'' \<longrightarrow> (\<forall>e. look w (utf8_encode name) = Some e \<longrightarrow> fst e = L ''hash'')) names"
  shows "\<exists>w'. send_all c (map snd kinds) w = (Inr (), w') \<and> shaped_db (look w') \<and>
    (\<forall>(t, name) \<in> set names. map_option fst (look w' (utf8_encode name)) = Some t) \<and>
    (\<forall>k. k \<notin> (utf8_encode \<circ> snd) ` set names \<longrightarrow> look w' k = look w k) \<and>
    (\<forall>(t, u) \<in> set kinds. look w' (turn_key u) = snd (run_entry ord (fst u) (look w (turn_key u))))"
proof -
  let ?f = "\<lambda>(t, u). (t, turn_key u)" and ?g = "\<lambda>(t, name). (t, utf8_encode name)"
  have keys: "map (turn_key \<circ> snd) kinds = map (utf8_encode \<circ> snd) names"
    using arg_cong [OF assms(5), of "map snd"] by (simp add: comp_def case_prod_unfold)
  have sets: "?f ` set kinds = ?g ` set names" using arg_cong [OF assms(5), of set] by simp
  have "inj_on utf8_encode (set (map snd names))"
    using assms(7) by (auto simp: inj_on_def list_all_iff) (metis utf8_encode_inject case_prodD)
  then have "distinct (map utf8_encode (map snd names))" using assms(6) by (intro distinct_map [THEN iffD2]) simp
  then have d: "distinct (map (turn_key \<circ> snd) kinds)" by (simp add: keys)
  have "list_all (\<lambda>(t, k). t = L ''hash'' \<longrightarrow> (\<forall>e. look w k = Some e \<longrightarrow> fst e = L ''hash'')) (map ?g names)"
    using assms(8) by (simp add: list_all_iff case_prod_unfold)
  then have "list_all (\<lambda>(t, k). t = L ''hash'' \<longrightarrow> (\<forall>e. look w k = Some e \<longrightarrow> fst e = L ''hash'')) (map ?f kinds)"
    by (simp only: assms(5))
  then have "list_all (\<lambda>(t, u). t = L ''hash'' \<longrightarrow> (\<forall>e. look w (turn_key u) = Some e \<longrightarrow> fst e = L ''hash'')) kinds"
    by (simp add: list_all_iff case_prod_unfold)
  from send_all_leaves [OF assms(1-4) d this]
  obtain w' where w': "send_all c (map snd kinds) w = (Inr (), w')" "shaped_db (look w')"
    "\<forall>(t, k) \<in> ?f ` set kinds. map_option fst (look w' k) = Some t"
    "\<forall>k. k \<notin> (turn_key \<circ> snd) ` set kinds \<longrightarrow> look w' k = look w k"
    "\<forall>(t, u) \<in> set kinds. look w' (turn_key u) = snd (run_entry ord (fst u) (look w (turn_key u)))" by fastforce
  have "(turn_key \<circ> snd) ` set kinds = (utf8_encode \<circ> snd) ` set names"
    using arg_cong [OF keys, of set] by simp
  then show ?thesis using w' unfolding sets by (intro exI [of _ w']) auto
qed

text \<open>The turns of the sample.\<close>

definition sample_forms :: "(pystr list \<Rightarrow> pystr list) \<Rightarrow> ((pystr \<times> pystr) \<times> (nat \<Rightarrow> turn)) list" where
  "sample_forms enum = zip sample_kinds [string_turn, hash_turn, list_turn, set_turn enum, zset_turn]"

lemma string_turn_form:
  "\<exists>v ex. string_turn i = ([CSet (sample_name (L '':str:'') i) v ex], 1) \<and> (\<forall>s. ex = Some s \<longrightarrow> 0 \<le> s)"
  by (simp add: string_turn_def sample_name_def Let_def)

lemma sample_form_leaves:
  assumes "permuting ord" "\<And>xs. xs \<noteq> [] \<Longrightarrow> enum xs \<noteq> []" "((t, kind), f) \<in> set (sample_forms enum)"
  shows "leaves ord t (f i) \<and> turn_key (f i) = utf8_encode (sample_name kind i)"
proof -
  obtain v ex where s: "string_turn i = ([CSet (sample_name (L '':str:'') i) v ex], 1)" "\<And>s. ex = Some s \<Longrightarrow> 0 \<le> s"
    using string_turn_form by blast
  have "leaves ord (L ''string'') (string_turn i)" unfolding s(1) using s(2) by (rule leaves_string)
  moreover have "leaves ord (L ''hash'') (hash_turn i)" unfolding hash_turn_def by (rule leaves_hash) simp
  moreover have "leaves ord (L ''list'') (list_turn i)" unfolding list_turn_def Let_def by (rule leaves_list) simp
  moreover have "leaves ord (L ''set'') (set_turn enum i)"
    unfolding set_turn_def Let_def using assms(1,2) by (intro leaves_set) simp_all
  moreover have "leaves ord (L ''zset'') (zset_turn i)"
    unfolding zset_turn_def Let_def using assms(1) by (intro leaves_zset) (simp_all add: float_scalar_def)
  moreover have "turn_key (string_turn i) = utf8_encode (sample_name (L '':str:'') i)"
    "turn_key (hash_turn i) = utf8_encode (sample_name (L '':hash:'') i)"
    "turn_key (list_turn i) = utf8_encode (sample_name (L '':list:'') i)"
    "turn_key (set_turn enum i) = utf8_encode (sample_name (L '':set:'') i)"
    "turn_key (zset_turn i) = utf8_encode (sample_name (L '':zset:'') i)"
    unfolding s(1)
    by (simp_all add: turn_key_def hash_turn_def list_turn_def set_turn_def zset_turn_def sample_name_def Let_def)
  ultimately show ?thesis using assms(3) by (auto simp: sample_forms_def sample_kinds_def)
qed

definition kinds_of :: "((pystr \<times> pystr) \<times> (nat \<Rightarrow> turn)) list \<Rightarrow> int list \<Rightarrow> (pystr \<times> turn) list" where
  "kinds_of forms counts = concat (map (\<lambda>(((t, kind), f), n). map (\<lambda>i. (t, f i)) [0 ..< nat n]) (zip forms counts))"

lemma sample_turns_kinds: "length counts = 5 \<Longrightarrow> sample_turns enum counts = map snd (kinds_of (sample_forms enum) counts)"
  by (auto simp: sample_turns_def kinds_of_def sample_forms_def sample_kinds_def turns_of_def numeral_eq_Suc length_Suc_conv comp_def)

lemma sample_names_kinds:
  assumes "length counts = 5" "permuting ord" "\<And>xs. xs \<noteq> [] \<Longrightarrow> enum xs \<noteq> []"
  shows "map (\<lambda>(t, u). (t, turn_key u)) (kinds_of (sample_forms enum) counts) =
    map (\<lambda>(t, name). (t, utf8_encode name)) (sample_names counts)"
proof -
  have "turn_key (f i) = utf8_encode (sample_name kind i)" if "((t, kind), f) \<in> set (sample_forms enum)" for t kind f i
    using sample_form_leaves [OF assms(2,3) that] by blast
  then show ?thesis using assms(1)
    by (auto simp: kinds_of_def sample_names_def sample_forms_def sample_kinds_def numeral_eq_Suc length_Suc_conv comp_def)
qed

section \<open>The sample of every type\<close>

text \<open>The database that a script starts to write to.\<close>

definition start_db :: "('w \<Rightarrow> database) \<Rightarrow> seed_args \<Rightarrow> 'w \<Rightarrow> database" where
  "start_db look args w = (if sd_flush args then Map.empty else look w)"

lemma connected_up:
  assumes "redis_laws (client_of env args) look ord" "server_up (client_of env args) look ord"
  shows "\<exists>lines w1. connected env args w rest = rest lines w1 \<and> look w1 = start_db look args w"
proof -
  let ?c = "client_of env args"
  obtain w1 where w1: "sc_ping ?c w = (Inr (), w1)" "look w1 = look w"
    using assms unfolding redis_laws_def server_up_def by (metis prod.collapse)
  obtain w2 where w2: "sc_flushdb ?c w1 = (Inr (), w2)" "look w2 = Map.empty"
    using assms unfolding redis_laws_def server_up_def by (metis prod.collapse)
  show ?thesis
  proof (cases "sd_flush args")
    case True
    then have "connected env args w rest = rest [Printed (L ''Flushed Redis DB '' @ str_int (sd_db args) @ L ''.'')] w2"
      by (simp add: connected_def w1(1) w2(1) Let_def)
    moreover have "look w2 = start_db look args w" using True w2(2) by (simp add: start_db_def)
    ultimately show ?thesis by blast
  next
    case False
    then have "connected env args w rest = rest [] w1" by (simp add: connected_def w1(1) Let_def)
    moreover have "look w1 = start_db look args w" using False w1(2) by (simp add: start_db_def)
    ultimately show ?thesis by blast
  qed
qed

lemma closed_up:
  assumes "redis_laws c look ord" "server_up c look ord"
  shows "\<exists>w'. closed c lines w = (lines, Exit 0, w') \<and> look w' = look w"
proof -
  obtain w' where "sc_close c w = (Inr (), w')" "look w' = look w"
    using assms unfolding redis_laws_def server_up_def by (metis prod.collapse)
  then show ?thesis by (simp add: closed_def)
qed

text \<open>
  C36 A sample of at least five keys, written to a server that is up, ends with exit code 0 and leaves
  exactly as many keys as asked for, split over the five types, each key of its type and with a
  well-shaped value, so that a migration can read them; all other keys are as they were, or gone with a
  flush. A hash key must not hold another type.
\<close>

theorem sample_run_keys:
  assumes "redis_laws (client_of env args) look ord" "server_up (client_of env args) look ord"
    and "\<And>xs. xs \<noteq> [] \<Longrightarrow> se_enum env xs \<noteq> []" "5 \<le> sd_count args" "shaped_db (start_db look args w)"
    and "\<And>i e. start_db look args w (utf8_encode (sample_name (L '':hash:'') i)) = Some e \<Longrightarrow> fst e = L ''hash''"
  shows "\<exists>lines w' counts. sample_run env args w = (lines, Exit 0, w') \<and> split_counts (sd_count args) 5 = Inr counts \<and>
    int (length (sample_names counts)) = sd_count args \<and> distinct (map snd (sample_names counts)) \<and>
    (\<forall>(t, name) \<in> set (sample_names counts). map_option fst (look w' (utf8_encode name)) = Some t) \<and>
    (\<forall>k. k \<notin> (utf8_encode \<circ> snd) ` set (sample_names counts) \<longrightarrow> look w' k = start_db look args w k) \<and>
    shaped_db (look w')"
proof -
  let ?c = "client_of env args" and ?start = "start_db look args w"
  obtain a b c d e where counts: "split_counts (sd_count args) 5 = Inr [a, b, c, d, e]" "a + b + c + d + e = sd_count args"
    "list_all (\<lambda>x. sd_count args div 5 \<le> x \<and> x \<le> sd_count args div 5 + 1) [a, b, c, d, e]"
    using split_counts_five [OF assms(4)] by blast
  let ?counts = "[a, b, c, d, e]" and ?kinds = "kinds_of (sample_forms (se_enum env)) [a, b, c, d, e]"
  have pos: "0 \<le> sd_count args div 5" using assms(4) by simp
  have len: "int (length (sample_names ?counts)) = sd_count args"
    using length_sample_names [of ?counts] counts(2,3) pos by simp
  have ord: "permuting ord" using assms(1) by (simp add: redis_laws_def)
  have "list_all (\<lambda>(t, u). leaves ord t u) ?kinds"
    using sample_form_leaves [OF ord assms(3)] by (auto simp: list_all_iff kinds_of_def dest!: set_zip_leftD)
  note sends = send_all_names [OF assms(1,2) _ this sample_names_kinds [OF _ ord assms(3), of ?counts] distinct_sample_names [of ?counts]]
  have names: "list_all (\<lambda>(t, name). wf_text name) (sample_names ?counts)"
    "list_all (\<lambda>(t, name). t = L ''hash'' \<longrightarrow> (\<forall>e. ?start (utf8_encode name) = Some e \<longrightarrow> fst e = L ''hash'')) (sample_names ?counts)"
    using assms(6) by (auto simp: list_all_iff sample_names_def sample_kinds_def wf_names)
  let ?rest = "\<lambda>lines w1. let lines' = lines @ [Printed (writing_line (sd_count args) ?counts)]
            in case seed_sample (se_enum env) (se_elapsed env) ?c (sd_count args) w1 of
                 (said, Inl e, w2) \<Rightarrow> (lines' @ said, Raised e, w2)
               | (said, Inr u, w2) \<Rightarrow> closed ?c (lines' @ said) w2"
  obtain lines w1 where w1: "connected env args w ?rest = ?rest lines w1" "look w1 = ?start"
    using connected_up [OF assms(1,2), of w ?rest] by blast
  obtain w2 where w2: "send_all ?c (map snd ?kinds) w1 = (Inr (), w2)" "shaped_db (look w2)"
    "\<forall>(t, name) \<in> set (sample_names ?counts). map_option fst (look w2 (utf8_encode name)) = Some t"
    "\<forall>k. k \<notin> (utf8_encode \<circ> snd) ` set (sample_names ?counts) \<longrightarrow> look w2 k = ?start k"
    using sends [of w1] names assms(5) by (auto simp: w1(2))
  have "\<exists>said. sample_run env args w = closed ?c said w2"
    using w1(1) w2(1) by (simp add: sample_run_def counts(1) Let_def seed_sample_def sample_turns_kinds) blast
  then obtain said w' where "sample_run env args w = (said, Exit 0, w')" "look w' = look w2"
    using closed_up [OF assms(1,2)] by metis
  then show ?thesis using w2(2-4) counts(1) len distinct_sample_names [of ?counts]
    by (intro exI [of _ said] exI [of _ w'] exI [of _ ?counts]) simp
qed

section \<open>The sample for routes\<close>

definition user_kinds :: "nat \<Rightarrow> (pystr \<times> turn) list" where
  "user_kinds i =
     (L ''string'', hd (user_turns i)) # (if i mod 4 = 0 then [(L ''hash'', hd (tl (user_turns i)))] else [])"

definition routing_kinds :: "int \<Rightarrow> (pystr \<times> turn) list" where
  "routing_kinds n =
     concat (map user_kinds [0 ..< nat n]) @ map (\<lambda>i. (L ''string'', session_turn i)) [0 ..< nat n] @
     map (\<lambda>i. (L ''string'', cache_turn i)) [0 ..< nat n] @ map (\<lambda>i. (L ''hash'', ledger_turn i)) [0 ..< nat n]"

lemma user_turns_kinds: "user_turns = (\<lambda>i. map snd (user_kinds i))"
  by (simp add: fun_eq_iff user_kinds_def user_turns_def Let_def)

lemma route_turns_kinds: "route_turns n = map snd (routing_kinds n)"
  by (simp add: routing_kinds_def route_turns_def turns_of_def map_concat comp_def user_turns_kinds)

lemmas route_turn_defs = user_turns_def session_turn_def cache_turn_def ledger_turn_def Let_def

lemma routing_kinds_leave: "list_all (\<lambda>(t, u). leaves ord t u) (routing_kinds n)"
  by (auto simp: list_all_iff routing_kinds_def user_kinds_def route_turn_defs split: if_splits
      intro!: leaves_string [unfolded One_nat_def] leaves_hash [unfolded One_nat_def])

lemma routing_names_kinds:
  "map (\<lambda>(t, u). (t, turn_key u)) (routing_kinds n) = map (\<lambda>(t, name). (t, utf8_encode name)) (routing_names n)"
proof -
  have "map (\<lambda>(t, u). (t, turn_key u)) (user_kinds i) = map (\<lambda>(t, name). (t, utf8_encode name)) (user_names i)" for i
    by (simp add: user_kinds_def user_names_def route_turn_defs turn_key_def route_name_def)
  then show ?thesis
    by (simp add: routing_kinds_def routing_names_def map_concat comp_def route_turn_defs turn_key_def route_name_def)
qed

text \<open>What a run does, down to the entries that the turns leave.\<close>

lemma routing_run_outcome:
  assumes "redis_laws (client_of env args) look ord" "server_up (client_of env args) look ord"
    and "routing_depth args = Inl (Inr n)" "shaped_db (start_db look args w)"
    and "\<forall>name e. (L ''hash'', name) \<in> set (routing_names n) \<and> start_db look args w (utf8_encode name) = Some e \<longrightarrow>
      fst e = L ''hash''"
  shows "\<exists>lines w'. routing_run env args w = (lines, Exit 0, w') \<and>
    int (length (routing_names n)) = total_keys_for_per_route n \<and> distinct (map snd (routing_names n)) \<and>
    (if sd_per_route args = None then sd_count args \<le> total_keys_for_per_route n else sd_per_route args = Some n) \<and>
    (\<forall>(t, name) \<in> set (routing_names n). map_option fst (look w' (utf8_encode name)) = Some t) \<and>
    (\<forall>k. k \<notin> (utf8_encode \<circ> snd) ` set (routing_names n) \<longrightarrow> look w' k = start_db look args w k) \<and>
    shaped_db (look w') \<and>
    (\<forall>(t, u) \<in> set (routing_kinds n). look w' (turn_key u) = snd (run_entry ord (fst u) (start_db look args w (turn_key u))))"
proof -
  let ?c = "client_of env args" and ?start = "start_db look args w"
  note depth = routing_depth_enough [OF assms(3)]
  have names: "list_all (\<lambda>(t, name). wf_text name) (routing_names n)"
    by (auto simp: list_all_iff routing_names_def user_names_def wf_names split: if_splits)
  have hashes: "list_all (\<lambda>(t, name). t = L ''hash'' \<longrightarrow> (\<forall>e. ?start (utf8_encode name) = Some e \<longrightarrow> fst e = L ''hash'')) (routing_names n)"
    using assms(5) by (auto simp: list_all_iff)
  note sends = send_all_names [OF assms(1,2) _ routing_kinds_leave routing_names_kinds distinct_routing_names names]
  let ?rest = "\<lambda>lines w1.
            let lines' = lines @ (if sd_per_route args = None then [Printed (target_line (sd_count args) n)] else [])
            in case seed_routing (se_elapsed env) ?c n w1 of
                 (said, Inl e, w2) \<Rightarrow> (lines' @ said, Raised e, w2)
               | (said, Inr m, w2) \<Rightarrow> closed ?c (lines' @ said) w2"
  obtain lines w1 where w1: "connected env args w ?rest = ?rest lines w1" "look w1 = ?start"
    using connected_up [OF assms(1,2), of w ?rest] by blast
  obtain w2 where w2: "send_all ?c (map snd (routing_kinds n)) w1 = (Inr (), w2)" "shaped_db (look w2)"
    "\<forall>(t, name) \<in> set (routing_names n). map_option fst (look w2 (utf8_encode name)) = Some t"
    "\<forall>k. k \<notin> (utf8_encode \<circ> snd) ` set (routing_names n) \<longrightarrow> look w2 k = ?start k"
    "\<forall>(t, u) \<in> set (routing_kinds n). look w2 (turn_key u) = snd (run_entry ord (fst u) (?start (turn_key u)))"
    using sends [of w1] hashes assms(4) by (auto simp: w1(2))
  have "\<exists>said. routing_run env args w = closed ?c said w2"
    using w1(1) w2(1) by (simp add: routing_run_def assms(3) Let_def seed_routing_def route_turns_kinds) blast
  then obtain said w' where "routing_run env args w = (said, Exit 0, w')" "look w' = look w2"
    using closed_up [OF assms(1,2)] by metis
  moreover have "if sd_per_route args = None then sd_count args \<le> total_keys_for_per_route n else sd_per_route args = Some n"
    using depth by auto
  ultimately show ?thesis using w2(2-5) length_routing_names [OF depth(1)] distinct_routing_names
    by (intro exI [of _ said] exI [of _ w']) simp
qed

text \<open>
  C37 A routing sample, written to a server that is up, ends with exit code 0 and leaves exactly the keys
  that the depth promises, at least as many as were asked for unless the depth itself was given, each of
  its type and with a well-shaped value; all other keys are as they were, or gone with a flush.
\<close>

theorem routing_run_keys:
  assumes "redis_laws (client_of env args) look ord" "server_up (client_of env args) look ord"
    and "routing_depth args = Inl (Inr n)" "shaped_db (start_db look args w)"
    and "\<forall>name e. (L ''hash'', name) \<in> set (routing_names n) \<and> start_db look args w (utf8_encode name) = Some e \<longrightarrow>
      fst e = L ''hash''"
  shows "\<exists>lines w'. routing_run env args w = (lines, Exit 0, w') \<and>
    int (length (routing_names n)) = total_keys_for_per_route n \<and> distinct (map snd (routing_names n)) \<and>
    (if sd_per_route args = None then sd_count args \<le> total_keys_for_per_route n else sd_per_route args = Some n) \<and>
    (\<forall>(t, name) \<in> set (routing_names n). map_option fst (look w' (utf8_encode name)) = Some t) \<and>
    (\<forall>k. k \<notin> (utf8_encode \<circ> snd) ` set (routing_names n) \<longrightarrow> look w' k = start_db look args w k) \<and>
    shaped_db (look w')"
  using routing_run_outcome [OF assms] by blast

end
