(* ===== verification/Seed_Main.thy ===== *)
theory Seed_Main
  imports Seed_Results Args_Facts
begin

text \<open>
  The seed scripts as commands: what they leave alone whatever happens, which attributes their parsers
  provide, and how they end.
\<close>

section \<open>Other keys\<close>

text \<open>Keys that do not begin with a prefix.\<close>

definition outside :: "pystr \<Rightarrow> bytes \<Rightarrow> bool" where
  "outside p k \<longleftrightarrow> take (length (utf8_encode p)) k \<noteq> utf8_encode p"

lemma utf8_encode_append: "utf8_encode (a @ b) = utf8_encode a @ utf8_encode b"
  by (simp add: utf8_encode_def)

lemma outside_encode [simp]: "\<not> outside p (utf8_encode (p @ s))"
  by (simp add: outside_def utf8_encode_append)

lemma outside_encode_more [simp]: "\<not> outside p (utf8_encode ((p @ s) @ t))"
  using outside_encode [of p "s @ t"] by simp

text \<open>Turns that only work on keys with a prefix.\<close>

definition keyed :: "pystr \<Rightarrow> turn \<Rightarrow> bool" where
  "keyed p u \<longleftrightarrow> counted_turn u \<and> (\<forall>cmd \<in> set (fst u). \<not> outside p (key_of cmd))"

lemma send_all_keeps:
  assumes "redis_laws c look ord" "list_all (keyed p) turns" "outside p k"
  shows "look (snd (send_all c turns w)) k = look w k"
proof -
  have "list_all counted_turn turns" using assms(2) by (auto simp: list_all_iff keyed_def)
  from send_all_stream [OF this, of c w] obtain bs where bs: "send_all c turns w = execute_all c bs w"
    "concat bs = concat (map fst turns)" by (elim exE conjE) (rule that)
  obtain n where n: "look (snd (send_all c turns w)) = apply_cmds ord (take n (concat (map fst turns))) (look w)"
    using execute_all_safe [OF assms(1), of bs w] bs by auto
  have "k \<notin> key_of ` set (concat (map fst turns))"
    using assms(2,3) by (auto simp: list_all_iff keyed_def)
  then have "k \<notin> key_of ` set (take n (concat (map fst turns)))" using set_take_subset by fast
  then show ?thesis unfolding n by (rule apply_cmds_other)
qed

lemma sample_turns_keyed: "list_all (keyed (KEY_PREFIX @ L '':'')) (sample_turns enum counts)"
proof -
  have names: "numbered (KEY_PREFIX @ L (CHR '':'' # kind)) i = (KEY_PREFIX @ L '':'') @ numbered (L kind) i" for kind i
    by (simp add: numbered_def L_def)
  have "keyed (KEY_PREFIX @ L '':'') (f i)" if "f \<in> {string_turn, hash_turn, list_turn, set_turn enum, zset_turn}" for f i
    using that by (auto simp: keyed_def counted_turn_def string_turn_def hash_turn_def list_turn_def set_turn_def zset_turn_def
        Let_def names simp del: append_assoc split: if_splits)
  then show ?thesis by (auto simp: list_all_iff sample_turns_def turns_of_def dest!: set_zip_leftD)
qed

lemma route_turns_keyed: "list_all (keyed (ROUTE_KEY_PREFIX @ L '':'')) (route_turns n)"
proof -
  have names: "numbered (ROUTE_KEY_PREFIX @ L (CHR '':'' # kind)) i = (ROUTE_KEY_PREFIX @ L '':'') @ numbered (L kind) i" for kind i
    by (simp add: numbered_def L_def)
  show ?thesis
    by (auto simp: list_all_iff route_turns_def turns_of_def route_turn_defs keyed_def counted_turn_def names
        simp del: append_assoc)
qed

text \<open>Connecting touches no key unless it flushes, and closing touches none.\<close>

lemma connected_cases:
  assumes "connected env args w rest = (lines, r, w')" "\<not> sd_flush args"
  obtains (failed) x where "sc_ping (client_of env args) w = (Inl x, w')" "r = (if se_connection_error env x then Exit 1 else Raised x)"
  | (rest) w1 where "sc_ping (client_of env args) w = (Inr (), w1)" "rest [] w1 = (lines, r, w')"
proof (cases "sc_ping (client_of env args) w")
  case (Pair x w1)
  then show ?thesis
    using assms failed rest by (cases x) (auto simp: connected_def Let_def split: if_splits)
qed

lemma closed_keeps: "redis_laws c look ord \<Longrightarrow> closed c said w = (lines, r, w') \<Longrightarrow> look w' = look w"
proof (cases "sc_close c w")
  case (Pair x w1)
  assume "redis_laws c look ord" "closed c said w = (lines, r, w')"
  then show ?thesis
    using Pair by (cases x) (auto simp: closed_def redis_laws_def dest: spec [of _ w])
qed

lemma connected_keeps:
  assumes "connected env args w rest = (lines, r, w')" "redis_laws (client_of env args) look ord" "\<not> sd_flush args"
    and "\<And>w1. rest [] w1 = (lines, r, w') \<Longrightarrow> look w' k = look w1 k"
  shows "look w' k = look w k"
proof -
  have "look (snd (sc_ping (client_of env args) w)) = look w" using assms(2) by (simp add: redis_laws_def)
  then show ?thesis using assms(4) by (cases rule: connected_cases [OF assms(1,3)]) auto
qed

lemma sample_run_keeps:
  assumes "redis_laws (client_of env args) look ord" "\<not> sd_flush args"
    and "sample_run env args w = (lines, r, w')" "outside (KEY_PREFIX @ L '':'') k"
  shows "look w' k = look w k"
proof (cases "split_counts (sd_count args) 5")
  case (Inr counts)
  let ?turns = "sample_turns (se_enum env) counts"
  from assms(3) [unfolded sample_run_def Inr, simplified] assms(1,2) show ?thesis
  proof (rule connected_keeps, goal_cases)
    case (1 w1)
    obtain x w2 where sent: "send_all (client_of env args) ?turns w1 = (x, w2)"
      by (cases "send_all (client_of env args) ?turns w1")
    then have "look w2 k = look w1 k" using send_all_keeps [OF assms(1) sample_turns_keyed assms(4)] by (metis snd_conv)
    moreover have "look w' = look w2" using 1 closed_keeps [OF assms(1)]
      by (cases x) (auto simp: seed_sample_def Inr sent Let_def)
    ultimately show ?case by simp
  qed
qed (use assms(3) in \<open>simp add: sample_run_def\<close>)

lemma routing_run_keeps:
  assumes "redis_laws (client_of env args) look ord" "\<not> sd_flush args"
    and "routing_run env args w = (lines, r, w')" "outside (ROUTE_KEY_PREFIX @ L '':'') k"
  shows "look w' k = look w k"
proof (cases "\<exists>n. routing_depth args = Inl (Inr n)")
  case True
  then obtain n where n: "routing_depth args = Inl (Inr n)" by blast
  from assms(3) [unfolded routing_run_def n, simplified] assms(1,2) show ?thesis
  proof (rule connected_keeps, goal_cases)
    case (1 w1)
    obtain x w2 where sent: "send_all (client_of env args) (route_turns n) w1 = (x, w2)"
      by (cases "send_all (client_of env args) (route_turns n) w1")
    then have "look w2 k = look w1 k" using send_all_keeps [OF assms(1) route_turns_keyed assms(4)] by (metis snd_conv)
    moreover have "look w' = look w2" using 1 closed_keeps [OF assms(1)]
      by (cases x) (auto simp: seed_routing_def sent Let_def)
    ultimately show ?case by simp
  qed
qed (use assms(3) in \<open>auto simp: routing_run_def split: sum.splits\<close>)

text \<open>
  C40 Without a flush, a seed script changes no key outside its own prefix, whatever happens to the
  connection, however it ends, and wherever it is interrupted by an exception.
\<close>

theorem seed_keeps_other_keys:
  assumes "redis_laws (client_of env args) look ord" "\<not> sd_flush args"
  shows "(sample_run env args w = (lines, r, w') \<and> outside (KEY_PREFIX @ L '':'') k \<longrightarrow> look w' k = look w k) \<and>
    (routing_run env args w = (lines, r, w') \<and> outside (ROUTE_KEY_PREFIX @ L '':'') k \<longrightarrow> look w' k = look w k)"
  using sample_run_keeps [OF assms] routing_run_keeps [OF assms] by blast

section \<open>Command lines\<close>

text \<open>Every attribute that the scripts read is there with its type, so the defaults do not matter.\<close>

lemma consume_keeps: "consume ts ns extras = Parsed ns' \<Longrightarrow> dict_get ns d \<noteq> None \<Longrightarrow> dict_get ns' d \<noteq> None"
proof (induction ts ns extras rule: consume.induct)
  case (2 a name eq ex s ts ns extras)
  then show ?case by (auto simp: take_value_def kget_kset split: if_splits option.splits sum.splits)
next
  case (3 a name s ts ns extras)
  then show ?case
    by (auto simp: take_value_def kget_kset split: if_splits option.splits sum.splits list.splits token.splits prod.splits)
qed (auto split: if_splits)

lemma parsed_attribute:
  assumes "parse_with parser argv = Parsed ns" "parser_ok parser" "a \<in> set parser" "aa_default a = Some v"
  shows "\<exists>x. attr_get ns (aa_dest a) = Some x \<and> arg_ok a x"
proof -
  have "(L (aa_dest a), v) \<in> set (default_namespace parser)"
    using assms(3,4) by (force simp: default_namespace_def List.map_filter_def)
  then have "dict_get (default_namespace parser) (L (aa_dest a)) \<noteq> None"
    unfolding kget_None_iff by force
  then obtain x where x: "attr_get ns (aa_dest a) = Some x"
    using assms(1) consume_keeps by (fastforce simp: parse_with_def attr_get_def split: option.splits)
  obtain b where "b \<in> set parser" "aa_dest b = aa_dest a" "arg_ok b x"
    using ns_ok_get [OF parse_with_ok [OF assms(2,1)] x] by blast
  then show ?thesis using parser_dest [OF assms(2)] assms(3) x by metis
qed

lemmas seed_parser_defs = sample_parser_def routing_parser_def server_options_def flush_option_def defaulted_def opt_def help_action_def

lemma seed_parsers_ok: "parser_ok sample_parser" "parser_ok routing_parser"
  by (simp_all add: parser_ok_def seed_parser_defs)

text \<open>An option with one value of a type, and a default of that type.\<close>

definition offers :: "arg_action list \<Rightarrow> string \<Rightarrow> arg_type \<Rightarrow> bool" where
  "offers parser d ty \<longleftrightarrow>
     (\<exists>a \<in> set parser. aa_dest a = d \<and> takes_value a \<and> aa_type a = ty \<and> (\<exists>v. aa_default a = Some v \<and> shape ty v))"

lemma offered:
  assumes "parse_with parser argv = Parsed ns" "parser_ok parser" "offers parser d ty"
  shows "\<exists>x. attr_get ns d = Some x \<and> shape ty x"
proof -
  obtain a v where a: "a \<in> set parser" "aa_dest a = d" "takes_value a" "aa_type a = ty" "aa_default a = Some v" "shape ty v"
    using assms(3) by (auto simp: offers_def)
  show ?thesis using parsed_attribute [OF assms(1,2) a(1,5)] a(2-6) by (auto simp: arg_ok_def)
qed

lemma shape_iff: "shape TStr x \<longleftrightarrow> (\<exists>s. x = AStr s)" "shape TInt x \<longleftrightarrow> (\<exists>i. x = AInt i)"
  by (cases "(TStr, x)" rule: shape.cases; simp) (cases "(TInt, x)" rule: shape.cases; simp)

lemma seed_attributes:
  assumes "parse_with parser argv = Parsed ns" "parser = sample_parser \<or> parser = routing_parser"
  shows "text_at ns ''host'' \<noteq> None" "int_at ns ''port'' \<noteq> None" "int_at ns ''db'' \<noteq> None" "int_at ns ''count'' \<noteq> None"
proof -
  have ok: "parser_ok parser" using assms(2) seed_parsers_ok by blast
  have "offers parser ''host'' TStr" "offers parser ''port'' TInt" "offers parser ''db'' TInt" "offers parser ''count'' TInt"
    using assms(2) by (auto simp: offers_def seed_parser_defs takes_value_def)
  then show "text_at ns ''host'' \<noteq> None" "int_at ns ''port'' \<noteq> None" "int_at ns ''db'' \<noteq> None" "int_at ns ''count'' \<noteq> None"
    using offered [OF assms(1) ok, of _ TStr] offered [OF assms(1) ok, of _ TInt]
    by (fastforce simp: text_at_def int_at_def shape_iff)+
qed

section \<open>How the scripts end\<close>

lemma connected_ends:
  assumes "connected env args w rest = (lines, Exit n, w')"
    and "\<And>said w1. rest said w1 = (lines, Exit n, w') \<Longrightarrow> n = 0"
  shows "n = 0 \<or> (n = 1 \<and> (\<exists>x. sc_ping (client_of env args) w = (Inl x, w') \<and> se_connection_error env x))"
  using assms by (auto simp: connected_def Let_def split: sum.splits if_splits prod.splits)

lemma closed_ends: "closed c said w = (lines, Exit n, w') \<Longrightarrow> n = 0"
  by (auto simp: closed_def split: sum.splits prod.splits)

lemma sample_run_ends:
  assumes "sample_run env args w = (lines, Exit n, w')"
  shows "n = 0 \<or> (n = 1 \<and> (\<exists>x. sc_ping (client_of env args) w = (Inl x, w') \<and> se_connection_error env x)) \<or>
    (n = 2 \<and> w' = w \<and> sd_count args < 5)"
proof (cases "split_counts (sd_count args) 5")
  case (Inl e)
  then show ?thesis using assms by (auto simp: sample_run_def split_counts_def Let_def split: if_splits)
next
  case (Inr counts)
  from assms [unfolded sample_run_def Inr, simplified] show ?thesis
    by (auto dest!: connected_ends dest: closed_ends simp: Let_def split: sum.splits prod.splits)
qed

lemma routing_run_ends:
  assumes "routing_run env args w = (lines, Exit n, w')"
  shows "n = 0 \<or> (n = 1 \<and> (\<exists>x. sc_ping (client_of env args) w = (Inl x, w') \<and> se_connection_error env x)) \<or>
    (n = 2 \<and> w' = w \<and> (case sd_per_route args of Some d \<Rightarrow> d < 1 | None \<Rightarrow> sd_count args < 1))"
proof (cases "\<exists>d. routing_depth args = Inl (Inr d)")
  case True
  then obtain d where d: "routing_depth args = Inl (Inr d)" by blast
  from assms [unfolded routing_run_def d, simplified] show ?thesis
    by (auto dest!: connected_ends dest: closed_ends simp: Let_def split: sum.splits prod.splits)
next
  case False
  then show ?thesis
    using assms by (auto simp: routing_run_def routing_depth_def split: sum.splits option.splits if_splits)
qed

text \<open>
  A seed script that does not end with an exception ends with exit code 0, 1 or 2. Code 1 means that
  the first request, a ping, failed to connect, and nothing else was sent; code 2 means that the arguments
  were refused, and the server was not asked anything.
\<close>

lemma seed_main_ends:
  assumes "sample_main env argv w = (lines, Exit n, w') \<or> routing_main env argv w = (lines, Exit n, w')"
  shows "n = 0 \<or> (n = 1 \<and> (\<exists>args x. sc_ping (client_of env args) w = (Inl x, w') \<and> se_connection_error env x)) \<or>
    (n = 2 \<and> w' = w)"
proof (rule disjE [OF assms])
  assume "sample_main env argv w = (lines, Exit n, w')"
  then show ?thesis
    using parse_with_exit sample_run_ends [of env _ w lines n w']
    by (cases "parse_with sample_parser argv") (force simp: sample_main_def)+
next
  assume "routing_main env argv w = (lines, Exit n, w')"
  then show ?thesis
    using parse_with_exit routing_run_ends [of env _ w lines n w']
    by (cases "parse_with routing_parser argv") (force simp: routing_main_def)+
qed

section \<open>A reference server\<close>

definition ref_orders :: orders where
  "ref_orders = (\<lambda>xs. xs, \<lambda>ps. ps)"

definition ref_seed_client :: "database seed_client" where
  "ref_seed_client =
     \<lparr>sc_ping = (\<lambda>db. (Inr (), db)), sc_flushdb = (\<lambda>db. (Inr (), Map.empty)),
      sc_execute = (\<lambda>db cmds. (if accepted ref_orders cmds db then Inr () else Inl RuntimeError, apply_cmds ref_orders cmds db)),
      sc_close = (\<lambda>db. (Inr (), db))\<rparr>"

definition ref_seed_env :: "database seed_env" where
  "ref_seed_env =
     \<lparr>se_redis = (\<lambda>host port db password. ref_seed_client), se_connection_error = (\<lambda>e. False),
      se_enum = remdups, se_elapsed = 0\<rparr>"

definition ref_seed_args :: "int \<Rightarrow> int option \<Rightarrow> bool \<Rightarrow> seed_args" where
  "ref_seed_args n depth f =
     \<lparr>sd_host = L ''127.0.0.1'', sd_port = 6379, sd_db = 0, sd_password = None, sd_count = n, sd_per_route = depth,
      sd_flush = f\<rparr>"

lemma ref_seed_simps [simp]:
  "client_of ref_seed_env args = ref_seed_client" "se_enum ref_seed_env = remdups" "sd_count (ref_seed_args n depth f) = n"
  "sd_per_route (ref_seed_args n depth f) = depth" "sd_flush (ref_seed_args n depth f) = f"
  "start_db look (ref_seed_args n depth True) w = Map.empty"
  by (simp_all add: client_of_def ref_seed_env_def ref_seed_args_def start_db_def)

lemma ref_redis_laws: "redis_laws ref_seed_client (\<lambda>db. db) ref_orders"
proof -
  have "\<exists>n. apply_cmds ref_orders cmds db = apply_cmds ref_orders (take n cmds) db \<and> length cmds \<le> n" for cmds db
    by (rule exI [of _ "length cmds"]) simp
  moreover have "permuting ref_orders" by (simp add: permuting_def ref_orders_def)
  ultimately show ?thesis unfolding redis_laws_def ref_seed_client_def by auto
qed

lemma ref_server_up: "server_up ref_seed_client (\<lambda>db. db) ref_orders"
  by (simp add: server_up_def ref_seed_client_def)

lemma other_key: "[107] \<noteq> utf8_encode (KEY_PREFIX @ s)" "[107] \<noteq> utf8_encode (ROUTE_KEY_PREFIX @ s)"
  by (simp_all add: KEY_PREFIX_def ROUTE_KEY_PREFIX_def utf8_encode_append) (simp_all add: L_def utf8_encode_def enc1_def)

text \<open>Seven keys: two strings, two hashes, and one of each of the other types.\<close>

theorem sample_run_keys_witness:
  "\<exists>lines w'. sample_run ref_seed_env (ref_seed_args 7 None True) Map.empty = (lines, Exit 0, w') \<and>
     map_option fst (w' (utf8_encode (sample_name (L '':hash:'') 1))) = Some (L ''hash'') \<and>
     map_option fst (w' (utf8_encode (sample_name (L '':zset:'') 0))) = Some (L ''zset'') \<and> w' [107] = None"
proof -
  have counts: "split_counts 7 5 = Inr [2, 2, 1, 1, 1]" by (simp add: split_counts_def Let_def upt_rec)
  have names: "(L ''hash'', sample_name (L '':hash:'') 1) \<in> set (sample_names [2, 2, 1, 1, 1])"
    "(L ''zset'', sample_name (L '':zset:'') 0) \<in> set (sample_names [2, 2, 1, 1, 1])"
    by (simp_all add: sample_names_def sample_kinds_def)
  have others: "[107] \<notin> (\<lambda>x. utf8_encode (snd x)) ` set (sample_names counts)" for counts
    by (auto simp: sample_names_def sample_name_def numbered_def other_key)
  obtain lines w' where run: "sample_run ref_seed_env (ref_seed_args 7 None True) Map.empty = (lines, Exit 0, w')"
    "\<forall>(t, name) \<in> set (sample_names [2, 2, 1, 1, 1]). \<exists>v x. w' (utf8_encode name) = Some (t, v, x)"
    "\<forall>k. k \<notin> (\<lambda>x. utf8_encode (snd x)) ` set (sample_names [2, 2, 1, 1, 1]) \<longrightarrow> w' k = None"
    using sample_run_keys [of ref_seed_env "ref_seed_args 7 None True" "\<lambda>db. db" ref_orders Map.empty, simplified,
        OF ref_redis_laws ref_server_up] counts by auto
  obtain v x v' x' where "w' (utf8_encode (sample_name (L '':hash:'') 1)) = Some (L ''hash'', v, x)"
    "w' (utf8_encode (sample_name (L '':zset:'') 0)) = Some (L ''zset'', v', x')"
    using bspec [OF run(2) names(1)] bspec [OF run(2) names(2)] by auto
  then show ?thesis using run(1,3) others by (intro exI [of _ lines] exI [of _ w']) simp
qed

text \<open>One key of each kind.\<close>

theorem routing_run_keys_witness:
  "\<exists>lines w'. routing_run ref_seed_env (ref_seed_args 10000 (Some 1) True) Map.empty = (lines, Exit 0, w') \<and>
     map_option fst (w' (utf8_encode (route_name (L '':user:'') 0 @ L '':profile''))) = Some (L ''hash'') \<and> w' [107] = None"
proof -
  have names: "(L ''hash'', route_name (L '':user:'') 0 @ L '':profile'') \<in> set (routing_names 1)"
    by (simp add: routing_names_def user_names_def)
  have others: "[107] \<notin> (\<lambda>x. utf8_encode (snd x)) ` set (routing_names n)" for n
    by (auto simp: routing_names_def user_names_def route_name_def numbered_def other_key)
  have "routing_depth (ref_seed_args 10000 (Some 1) True) = Inl (Inr 1)" by (simp add: routing_depth_def)
  then obtain lines w' where run: "routing_run ref_seed_env (ref_seed_args 10000 (Some 1) True) Map.empty = (lines, Exit 0, w')"
    "\<forall>(t, name) \<in> set (routing_names 1). \<exists>v x. w' (utf8_encode name) = Some (t, v, x)"
    "\<forall>k. k \<notin> (\<lambda>x. utf8_encode (snd x)) ` set (routing_names 1) \<longrightarrow> w' k = None"
    using routing_run_keys [of ref_seed_env "ref_seed_args 10000 (Some 1) True" "\<lambda>db. db" ref_orders 1 Map.empty, simplified,
        OF ref_redis_laws ref_server_up] by auto
  from run(2) names obtain v x where "w' (utf8_encode (route_name (L '':user:'') 0 @ L '':profile'')) = Some (L ''hash'', v, x)"
    by fast
  then show ?thesis using run(1,3) others by (intro exI [of _ lines] exI [of _ w']) simp
qed

text \<open>A key of another application is still there after a sample of five keys.\<close>

theorem seed_keeps_other_keys_witness:
  "snd (snd (sample_run ref_seed_env (ref_seed_args 5 None False) [[107] \<mapsto> (L ''stream'', RScalar (SInt 1), None)])) [107] =
     Some (L ''stream'', RScalar (SInt 1), None)"
proof -
  let ?db = "[[107] \<mapsto> (L ''stream'', RScalar (SInt 1), None)] :: database"
  obtain lines r w' where run: "sample_run ref_seed_env (ref_seed_args 5 None False) ?db = (lines, r, w')"
    by (cases "sample_run ref_seed_env (ref_seed_args 5 None False) ?db")
  have "outside (KEY_PREFIX @ L '':'') [107]"
    by (simp add: outside_def KEY_PREFIX_def L_def utf8_encode_def enc1_def)
  then have "w' [107] = ?db [107]"
    using seed_keeps_other_keys [of ref_seed_env "ref_seed_args 5 None False" "\<lambda>db. db" ref_orders ?db lines r w' "[107]"]
      run ref_redis_laws by simp
  then show ?thesis using run by simp
qed

end
