(* ===== verification/Conversion_Total.thy ===== *)
theory Conversion_Total
  imports Registry_Facts
begin

text \<open>
  When a conversion cannot fail: values whose byte strings are too short to hold an integer literal
  that Python refuses to read, and a TTL within the limit.
\<close>

section \<open>Short byte strings\<close>

definition short :: "pyscalar \<Rightarrow> bool" where
  "short v \<longleftrightarrow> (case v of SBytes b \<Rightarrow> length b \<le> max_str_digits | _ \<Rightarrow> True)"

fun short_value :: "redis_value \<Rightarrow> bool" where
  "short_value (RScalar v) = short v"
| "short_value (RHash d) = list_all (\<lambda>p. short (snd p)) d"
| "short_value (RList xs) = list_all short xs"
| "short_value v = True"

lemma length_utf8_encode: "length s \<le> length (utf8_encode s)"
proof (induction s)
  case (Cons c s)
  have "0 < length (enc1 c)" by simp
  then have "1 \<le> length (enc1 c)" by linarith
  then show ?case using Cons by (simp add: utf8_encode_def)
qed (simp add: utf8_encode_def)

lemma length_literal_digits: "length (literal_digits t) \<le> length t"
  by (simp add: literal_digits_def literal_of_def strip_minus_def)

lemma coerce_short: "short (SBytes b) \<Longrightarrow> \<exists>v. coerce_scalar (SBytes b) = Inr v"
proof (cases "utf8_decode b")
  case (Some t)
  assume "short (SBytes b)"
  moreover have "length t \<le> length b" using length_utf8_encode [of t] utf8_decode_Some [OF Some] by simp
  ultimately have "length (literal_digits t) \<le> max_str_digits" using length_literal_digits [of t] by (simp add: short_def)
  then have "coerce_text t \<noteq> Inl e" for e by (auto simp: coerce_text_raises)
  then show ?thesis by (cases "coerce_text t") (auto simp: Some)
qed simp

lemma mapr_succeeds: "(\<And>x. x \<in> set xs \<Longrightarrow> \<exists>y. f x = Inr y) \<Longrightarrow> \<exists>ys. mapr f xs = Inr ys"
  using mapr_Inl_iff [of f xs] by (cases "mapr f xs") (auto, force)

lemma to_map_short:
  assumes "list_all (\<lambda>p. short (snd p)) (map (\<lambda>(f, v). (SBytes f, SBytes v)) d)"
  shows "\<exists>m. to_map (map (\<lambda>(f, v). (SBytes f, SBytes v)) d) = Inr m"
proof -
  have "\<exists>y. (case p of (field, value) \<Rightarrow> rmap (\<lambda>v. (SStr (decode_field field), PS v)) (coerce_scalar value)) = Inr y"
    if "p \<in> set (map (\<lambda>(f, v). (SBytes f, SBytes v)) d)" for p
    using that assms coerce_short by (auto simp: list_all_iff rmap_eq_Inr simp del: coerce_scalar.simps)
  then have "\<exists>items. mapr (\<lambda>(field, value). rmap (\<lambda>v. (SStr (decode_field field), PS v)) (coerce_scalar value))
      (map (\<lambda>(f, v). (SBytes f, SBytes v)) d) = Inr items" by (rule mapr_succeeds)
  then show ?thesis by (auto simp: to_map_def)
qed

lemma items_short:
  assumes "list_all short (map SBytes xs)"
  shows "\<exists>ys. mapr coerce_scalar (map SBytes xs) = Inr ys"
  using assms coerce_short by (intro mapr_succeeds) (auto simp: list_all_iff simp del: coerce_scalar.simps)

section \<open>Expiry within the limit\<close>

definition ttl_within :: "MigrationConfig \<Rightarrow> RedisRecord \<Rightarrow> bool" where
  "ttl_within config r \<longleftrightarrow> (\<forall>t. rr_ttl_ms r = Some t \<longrightarrow> 0 \<le> t \<and> t < 1000 * 2 ^ 44 \<and>
     (mc_ttl_overflow_policy config = REJECT \<longrightarrow>
        ac_max_ttl (mc_aerospike config) = 0 \<or> exact_seconds t \<le> ac_max_ttl (mc_aerospike config)))"

lemma to_ttl_within:
  assumes "ttl_within config r"
  shows "\<exists>ttl tp'. to_ttl (TtlPolicy_init (mc_ttl_overflow_policy config) (ac_max_ttl (mc_aerospike config))) (rr_ttl_ms r) = (Inr ttl, tp')"
proof (cases "rr_ttl_ms r")
  case (Some t)
  then have "ceil_seconds t = Inr ((t + 999) div 1000)" using assms ceil_seconds_small by (auto simp: ttl_within_def)
  then show ?thesis using assms Some
    by (auto simp: to_ttl_Some ttl_within_def TtlPolicy_init_def exact_seconds_def handle_overflow_def
        simp del: to_ttl.simps split: TtlOverflowPolicy.splits)
qed simp

section \<open>The conversion\<close>

text \<open>
  A record of one of the five types with short values and an expiry within the limit converts under
  every configuration, a hash when it is kept as a map.
\<close>

lemma short_records_convert:
  assumes "registry_from_config config = Inr reg" "well_shaped r" "rr_type r \<in> set supported_types"
    and "short_value (rr_value r)" "ttl_within config r"
    and "rr_type r = L ''hash'' \<Longrightarrow> (case hs of None \<Rightarrow> mc_hash_strategy config | Some h \<Rightarrow> h) \<noteq> FIELD_BINS"
  shows "\<exists>ar. fst (registry_convert reg r hs vb) = Inr ar"
proof -
  let ?tp = "TtlPolicy_init (mc_ttl_overflow_policy config) (ac_max_ttl (mc_aerospike config))"
  have reg: "reg_converters reg = default_converters config" "reg_ttl_policy reg = ?tp"
    using assms(1) by (auto simp: registry_from_config_eq)
  obtain ttl tp' where ttl: "to_ttl ?tp (rr_ttl_ms r) = (Inr ttl, tp')" using to_ttl_within [OF assms(5)] by blast
  have built: "\<exists>ar. out = Inr ar" if "build ?tp r (Inr bs) ps = (out, tp1)" for bs ps out tp1
    using that by (auto simp: build_def ttl)
  have get: "registry_get reg (rr_type r) = (case dict_get (default_converters config) (rr_type r) of None \<Rightarrow> Inl UnsupportedTypeError | Some c \<Rightarrow> Inr c)"
    by (simp add: registry_get_def reg)
  consider "rr_type r = L ''string''" | "rr_type r = L ''hash''" | "rr_type r = L ''list''"
    | "rr_type r = L ''set''" | "rr_type r = L ''zset''" using assms(3) by (auto simp: supported_types_def)
  then show ?thesis
  proof cases
    case 1
    then obtain b where v: "rr_value r = RScalar (SBytes b)" using assms(2) by (auto simp: well_shaped_def)
    then have "\<exists>v. convert_string_value (rr_value r) = Inr v" using assms(4) coerce_short [of b] by auto
    then show ?thesis using 1 get
      by (auto simp: registry_convert_def reg default_get Let_def text_simps converter_defs dest: built split: prod.splits)
  next
    case 2
    then obtain d where v: "rr_value r = RHash (map (\<lambda>(f, v). (SBytes f, SBytes v)) d)" using assms(2) by (auto simp: well_shaped_def)
    then have "\<exists>m. to_map (map (\<lambda>(f, v). (SBytes f, SBytes v)) d) = Inr m" using assms(4) to_map_short by simp
    then show ?thesis using 2 get assms(6)
      by (auto simp: registry_convert_def reg default_get Let_def text_simps converter_defs v dest: built split: prod.splits)
  next
    case 3
    then obtain xs where v: "rr_value r = RList (map SBytes xs)" using assms(2) by (auto simp: well_shaped_def)
    then have "\<exists>ys. mapr coerce_scalar (map SBytes xs) = Inr ys" using assms(4) items_short by simp
    then show ?thesis using 3 get
      by (auto simp: registry_convert_def reg default_get Let_def text_simps converter_defs v dest: built split: prod.splits)
  next
    case 4
    then obtain xs where v: "rr_value r = RSet (map SBytes xs)" using assms(2) by (auto simp: well_shaped_def)
    then show ?thesis using 4 get
      by (auto simp: registry_convert_def reg default_get Let_def text_simps converter_defs v dest: built split: prod.splits)
  next
    case 5
    then obtain ps where v: "rr_value r = RZset (map (\<lambda>(m, s). (SBytes m, SFloat s)) ps)" using assms(2) by (auto simp: well_shaped_def)
    then show ?thesis using 5 get
      by (auto simp: registry_convert_def reg default_get Let_def text_simps converter_defs v dest: built split: prod.splits)
  qed
qed

end
