(* ===== verification/Seed_Values.thy ===== *)
theory Seed_Values
  imports Seed_Results Conversion_Total
begin

text \<open>
  The values that the routing sample leaves are small: they convert under every configuration that
  keeps hashes as maps, and their records are far below any sensible limit.
\<close>

section \<open>Lengths\<close>

lemma utf8_encode_length: "length (utf8_encode s) \<le> 4 * length s"
proof (induction s)
  case (Cons c s)
  have "length (enc1 c) \<le> 4" by (simp add: enc1_def)
  then show ?case using Cons by (simp add: utf8_encode_def)
qed (simp add: utf8_encode_def)

lemma digits_of_length: "n < 10 ^ Suc k \<Longrightarrow> length (digits_of n) \<le> Suc k"
proof (induction k arbitrary: n)
  case 0
  then show ?case by (subst digits_of.simps) simp
next
  case (Suc k)
  then have "length (digits_of (n div 10)) \<le> Suc k" by (simp add: div_less_iff_less_mult)
  then show ?case by (subst digits_of.simps) simp
qed

lemma str_nat_length: "n < 10 ^ 24 \<Longrightarrow> length (str_nat n) \<le> 24"
  using digits_of_length [of n 23] by (simp add: str_nat_def)

lemma hex_digits_length: "n < 16 ^ Suc k \<Longrightarrow> length (hex_digits n) \<le> Suc k"
proof (induction k arbitrary: n)
  case 0
  then show ?case by (subst hex_digits.simps) simp
next
  case (Suc k)
  then have "length (hex_digits (n div 16)) \<le> Suc k" by (simp add: div_less_iff_less_mult)
  then show ?case by (subst hex_digits.simps) simp
qed

section \<open>Small entries\<close>

text \<open>
  A string of at most 200 bytes, or a hash of at most five fields, each the encoding of a text and at most
  200 bytes long with a value of at most 200 bytes; an expiry of at most five minutes.
\<close>

definition small_text :: "pyscalar \<Rightarrow> bool" where
  "small_text v \<longleftrightarrow> (\<exists>s. v = raw s \<and> wf_text s \<and> length s \<le> 50)"

fun small_entry :: "entry \<Rightarrow> bool" where
  "small_entry (t, v, x) \<longleftrightarrow>
     (case v of
        RScalar s \<Rightarrow> small_text s
      | RHash d \<Rightarrow> length d \<le> 5 \<and> list_all (\<lambda>p. small_text (fst p) \<and> small_text (snd p)) d
      | _ \<Rightarrow> False) \<and> (\<forall>i. x = Some i \<longrightarrow> i \<le> 300000)"

definition leaves_small :: "orders \<Rightarrow> turn \<Rightarrow> bool" where
  "leaves_small ord u \<longleftrightarrow> (\<exists>e. snd (run_entry ord (fst u) None) = Some e \<and> small_entry e)"

lemma small_string:
  "wf_text s \<Longrightarrow> length s \<le> 50 \<Longrightarrow> (\<And>i. ex = Some i \<Longrightarrow> i \<le> 300) \<Longrightarrow>
   leaves_small ord ([CSet k (VText s) ex], m)"
  by (auto simp: leaves_small_def small_text_def raw_def)

lemma length_kset: "length (kset nf k v d) \<le> Suc (length d)"
  by (induction d) auto

lemma length_kset_all: "length (kset_all nf items d) \<le> length d + length items"
proof (induction items arbitrary: d)
  case (Cons p items)
  show ?case using Cons.IH [of "kset nf (fst p) (snd p) d"] length_kset [of nf "fst p" "snd p" d]
    by (simp add: kset_all_def case_prod_unfold)
qed (simp add: kset_all_def)

lemma small_hash:
  assumes "fs \<noteq> []" "length fs \<le> 5"
    and "list_all (\<lambda>p. wf_text (fst p) \<and> length (fst p) \<le> 50 \<and> wf_text (snd p) \<and> length (snd p) \<le> 50) fs"
  shows "leaves_small ord ([CHset k fs], m)"
proof -
  let ?d = "kset_all (\<lambda>k. k) (map (map_prod raw raw) fs) []"
  have "list_all (\<lambda>p. small_text (fst p) \<and> small_text (snd p)) ?d"
    using assms(3) by (intro list_all_kset_all) (auto simp: list_all_iff small_text_def)
  moreover have "length ?d \<le> 5" using length_kset_all [of "\<lambda>k. k" "map (map_prod raw raw) fs" "[]"] assms(2) by simp
  ultimately show ?thesis by (simp add: leaves_small_def amend_def add_fields_def)
qed

lemma wf_text_hex [simp]: "wf_text (hex_digits n)"
proof (induction n rule: hex_digits.induct)
  case (1 n)
  have "wf_text [hex_digit m]" if "m < 16" for m using that by (simp add: wf_text_def scalar_def hex_digit_def)
  then show ?case using 1 by (subst hex_digits.simps) simp
qed

lemma length_numbered: "i < 10 ^ 24 \<Longrightarrow> length (numbered (L s) i) \<le> length s + 24"
  using str_nat_length by (simp add: numbered_def)

lemma routing_kinds_small:
  assumes "n \<le> 10 ^ 20" "(t, u) \<in> set (routing_kinds n)"
  shows "leaves_small ord u"
proof -
  obtain i where i: "i < nat n" "u \<in> set (user_turns i) \<or> u = session_turn i \<or> u = cache_turn i \<or> u = ledger_turn i"
    using assms(2) by (auto simp: routing_kinds_def user_turns_kinds) (metis image_eqI snd_conv)
  have big: "i < 10 ^ 20" "i < 10 ^ 24" "(i + 1) * 100 < 10 ^ 24" "i < 16 ^ 24" using i(1) assms(1) by auto
  have texts: "length (numbered (L s) i) \<le> 50" if "length s \<le> 20" for s
    using length_numbered [OF big(2), of s] that by simp
  have logins: "10 + i mod 100 < 10 ^ 24" using mod_less_divisor [of 100 i] by simp
  have nums: "length (str_nat i) \<le> 50" "length (str_nat ((i + 1) * 100)) \<le> 50" "length (str_nat (10 + i mod 100)) \<le> 50"
    "length (hex_digits i) \<le> 24"
    using str_nat_length [OF big(2)] str_nat_length [OF big(3)] str_nat_length [OF logins]
      hex_digits_length [of i 23] big(4) by simp_all
  have tiers: "wf_text ([L ''free'', L ''pro'', L ''team''] ! (i mod 3)) \<and> length ([L ''free'', L ''pro'', L ''team''] ! (i mod 3)) \<le> 50"
  proof -
    have "i mod 3 = 0 \<or> i mod 3 = 1 \<or> i mod 3 = 2" by presburger
    then show ?thesis by auto
  qed
  have wf: "wf_text (numbered (L s) i)" for s by (simp add: numbered_def)
  have small: "leaves_small ord ([CSet k (VText x) ex], 1)"
    if "x \<in> {numbered (L ''display-name-'') i, L ''payload-token-'' @ hex_digits i, numbered (L ''cached-value-'') i}"
      "\<And>j. ex = Some j \<Longrightarrow> j \<le> 300" for k x ex
    using that texts nums(4) wf by (intro small_string) auto
  have hashes: "leaves_small ord ([CHset k fs], 1)"
    if "fs \<in> {[(L ''id'', str_nat i), (L ''tier'', [L ''free'', L ''pro'', L ''team''] ! (i mod 3)), (L ''logins'', str_nat (10 + i mod 100))],
      [(L ''amount'', str_nat ((i + 1) * 100)), (L ''currency'', L ''USD''), (L ''seq'', str_nat i)]}" for k fs
    using that nums tiers by (intro small_hash) auto
  have user: "\<forall>u \<in> set (user_turns i). leaves_small ord u"
    unfolding user_turns_def Let_def using small hashes by auto
  have "leaves_small ord (session_turn i)" "leaves_small ord (ledger_turn i)"
    unfolding session_turn_def ledger_turn_def using small hashes by auto
  moreover have "leaves_small ord (cache_turn i)" unfolding cache_turn_def
  proof (rule small)
    show "j \<le> 300" if "Some (120 + int (i mod 180)) = Some j" for j
      using that pos_mod_bound [of 180 "int i"] by (simp add: zmod_int)
  qed simp
  ultimately show ?thesis using i(2) user by blast
qed

section \<open>Their records\<close>

lemma small_text_bytes:
  assumes "small_text v"
  shows "\<exists>s. v = SBytes (utf8_encode s) \<and> wf_text s \<and> length (utf8_encode s) \<le> 200"
proof -
  obtain s where "v = SBytes (utf8_encode s)" "wf_text s" "length s \<le> 50" using assms by (auto simp: small_text_def raw_def)
  then show ?thesis using utf8_encode_length [of s] by auto
qed

lemma small_text_short: "small_text v \<Longrightarrow> short v"
  by (auto dest!: small_text_bytes simp: short_def max_str_digits_def)

lemma coerced_size:
  assumes "small_text v" "coerce_scalar v = Inr w"
  shows "estimate_scalar w \<le> 200"
proof -
  obtain s where s: "v = SBytes (utf8_encode s)" "wf_text s" "length (utf8_encode s) \<le> 200"
    using small_text_bytes [OF assms(1)] by blast
  then have "coerce_text s = Inr w" using assms(2) by (simp add: utf8_decode_encode)
  then show ?thesis using coerce_text_result s(3) by fastforce
qed

lemma field_size: "small_text v \<Longrightarrow> estimate_scalar (SStr (decode_field v)) \<le> 200"
  by (auto dest!: small_text_bytes simp: utf8_decode_replace_valid [OF utf8_decode_encode])

lemma estimate_kset: "estimate_size (PDict (kset nf k v d)) \<le> estimate_scalar k + estimate_size v + estimate_size (PDict d)"
  by (induction d) auto

lemma estimate_kset_all:
  "estimate_size (PDict (kset_all nf items d)) \<le> estimate_size (PDict items) + estimate_size (PDict d)"
proof (induction items arbitrary: d)
  case (Cons p items)
  show ?case
    using Cons.IH [of "kset nf (fst p) (snd p) d"] estimate_kset [of nf "fst p" "snd p" d]
    by (simp add: kset_all_def case_prod_unfold)
qed (simp add: kset_all_def)

lemma map_size:
  assumes "to_map d = Inr m" "list_all (\<lambda>p. small_text (fst p) \<and> small_text (snd p)) d" "length d \<le> 5"
  shows "estimate_size (PDict m) \<le> 2000"
proof -
  obtain items where items: "mapr (\<lambda>(field, value). rmap (\<lambda>v. (SStr (decode_field field), PS v)) (coerce_scalar value)) d = Inr items"
    "m = kset_all scalar_key items []" using assms(1) by (auto simp: to_map_def rmap_eq_Inr)
  have size: "estimate_scalar (fst q) + estimate_size (snd q) \<le> 400"
    if "small_text f" "small_text v" "rmap (\<lambda>w. (SStr (decode_field f), PS w)) (coerce_scalar v) = Inr q" for f v q
    using that field_size [of f] coerced_size [of v] by (auto simp: rmap_eq_Inr simp del: estimate_scalar.simps)
  have "list_all2 (\<lambda>p q. (case p of (field, value) \<Rightarrow> rmap (\<lambda>v. (SStr (decode_field field), PS v)) (coerce_scalar value)) = Inr q) d items"
    using items(1) by (simp add: mapr_eq_Inr)
  then have "list_all2 (\<lambda>p q. estimate_scalar (fst q) + estimate_size (snd q) \<le> 400) d items" using assms(2)
    by (induction rule: list_all2_induct) (auto simp del: estimate_scalar.simps coerce_scalar.simps intro: size)
  then have "estimate_size (PDict items) \<le> 400 * length d"
    by (induction rule: list_all2_induct) auto
  then show ?thesis using estimate_kset_all [of scalar_key items "[]"] assms(3) by (simp add: items(2))
qed

lemma short_small: "small_entry (t, v, x) \<Longrightarrow> short_value v"
  by (cases v) (auto simp: list_all_iff dest: small_text_short)

lemma documented_plain:
  "rs_hash_strategy (resolve_text documented_routes d k) = None" "rs_value_bin (resolve_text documented_routes d k) = None"
  by (simp_all add: documented_routes_def plain_route_def)

lemma record_size_bin: "record_size ar = estimate_scalar (SStr bin) + estimate_size v" if "ar_bins ar = [(bin, v)]"
  using that by (simp add: record_size_def)

text \<open>A small entry of a string or a hash converts to one bin of bounded size.\<close>

lemma small_convert:
  assumes "registry_from_config config = Inr reg" "rr_type r \<in> {L ''string'', L ''hash''}"
    and "well_shaped r" "small_entry (rr_type r, rr_value r, rr_ttl_ms r)" "ttl_within config r"
    and "mc_hash_strategy config = MAP_BIN"
  shows "\<exists>ar. fst (registry_convert reg r (if rr_type r = L ''hash'' then Some MAP_BIN else None)
       (if rr_type r = L ''hash'' then Some (ac_value_bin (mc_aerospike config)) else None)) = Inr ar \<and>
     record_size ar \<le> 2000 + length (utf8_encode (ac_value_bin (mc_aerospike config)))"
proof -
  let ?vb = "ac_value_bin (mc_aerospike config)" and ?hash = "rr_type r = L ''hash''"
  have "rr_type r \<in> set supported_types" using assms(2) by (auto simp: supported_types_def)
  from short_records_convert [OF assms(1,3) this short_small [OF assms(4)] assms(5),
      of "if ?hash then Some MAP_BIN else None" "if ?hash then Some ?vb else None"]
  obtain ar where ar: "fst (registry_convert reg r (if ?hash then Some MAP_BIN else None) (if ?hash then Some ?vb else None)) = Inr ar"
    by auto
  have reg: "reg_converters reg = default_converters config" using assms(1) by (auto simp: registry_from_config_eq)
  have bins: "ar_bins ar = bs" if "fst (build tp r (Inr bs) ps) = Inr ar" for tp bs ps
    using that by (auto simp: build_def split: sum.splits prod.splits)
  have get: "registry_get reg (rr_type r) =
      Inr (if ?hash then HashConverter ?vb MAP_BIN else StringConverter ?vb)"
    using assms(2,6) by (auto simp: registry_get_def reg default_get text_simps)
  have "\<exists>v. ar_bins ar = [(?vb, v)] \<and> estimate_size v \<le> 2000"
  proof (cases ?hash)
    case True
    then obtain d where v: "rr_value r = RHash d" using assms(3) by (auto simp: well_shaped_def)
    then obtain m where m: "to_map d = Inr m" "ar_bins ar = [(?vb, PDict m)]"
      using ar True get by (cases "to_map d") (auto simp: registry_convert_def converter_defs build_def dest: bins split: prod.splits sum.splits)
    then show ?thesis using map_size [OF m(1)] assms(4) v by simp
  next
    case False
    then obtain b where v: "rr_type r = L ''string''" "rr_value r = RScalar (SBytes b)"
      using assms(2,3) by (auto simp: well_shaped_def)
    then obtain w where w: "coerce_scalar (SBytes b) = Inr w" "ar_bins ar = [(?vb, PS w)]"
      using ar get by (cases "coerce_scalar (SBytes b)")
        (auto simp: registry_convert_def converter_defs build_def text_simps simp del: coerce_scalar.simps dest: bins split: prod.splits sum.splits)
    then show ?thesis using coerced_size [OF _ w(1)] assms(4) v by auto
  qed
  then show ?thesis using ar record_size_bin by fastforce
qed

text \<open>What a migrator without transforms does with it under the documented routes.\<close>

definition sample_config :: "MigrationConfig \<Rightarrow> bool" where
  "sample_config config \<longleftrightarrow>
     ac_set_routes (mc_aerospike config) = documented_routes \<and> mc_hash_strategy config = MAP_BIN \<and>
     (mc_ttl_overflow_policy config = REJECT \<longrightarrow>
        ac_max_ttl (mc_aerospike config) = 0 \<or> 300 \<le> ac_max_ttl (mc_aerospike config)) \<and>
     2000 + int (length (utf8_encode (ac_value_bin (mc_aerospike config)))) \<le> ac_max_record_size (mc_aerospike config)"

lemma small_fate:
  assumes "registry_from_config config = Inr reg" "sample_config config"
    and "mg_transforms mg = []" "mg_config mg = config" "sk_config self = mc_aerospike config"
    and "db k = Some e" "shaped_entry e" "small_entry e" "fst e \<in> {L ''string'', L ''hash''}"
  shows "\<exists>ar. fate mg reg (db_record db k) = Wants ar \<and> sendable self ar"
proof -
  obtain t v x where e: "e = (t, v, x)" by (cases e)
  let ?r = "db_record db k" and ?res = "SetRouter_resolve (mg_router mg) (rr_key (db_record db k))"
  have r: "rr_type ?r = t" "rr_value ?r = v" "rr_ttl_ms ?r = x" using assms(6) e by (simp_all add: db_record_def)
  have "shaped_db [k \<mapsto> e]" using assms(7) by (auto simp: shaped_db_def)
  from shaped_db_ok [OF this] have "well_shaped (db_record [k \<mapsto> e] k)" by (simp del: not_None_eq)
  then have shape: "well_shaped ?r" using assms(6) by (simp add: db_record_def)
  have expiry: "0 \<le> i \<and> i \<le> 300000" if "x = Some i" for i using assms(7,8) that e by (auto simp: shaped_entry.simps)
  moreover have "exact_seconds i \<le> 300" if "x = Some i" for i
  proof -
    have "(i + 999) div 1000 \<le> 300" using zdiv_mono1 [of "i + 999" 300999 1000] expiry [OF that] by simp
    then show ?thesis by (simp add: exact_seconds_def)
  qed
  ultimately have ttl: "ttl_within config ?r" using assms(2) r by (force simp: ttl_within_def sample_config_def)
  have res: "rs_hash_strategy ?res = None" "rs_value_bin ?res = None"
    using assms(2,4) documented_plain by (auto simp: SetRouter_resolve_def mg_router_def SetRouter_init_def sample_config_def split: pykey.splits)
  have "convert_routed mg reg ?res ?r = registry_convert reg ?r (if rr_type ?r = L ''hash'' then Some MAP_BIN else None)
      (if rr_type ?r = L ''hash'' then Some (ac_value_bin (mc_aerospike config)) else None)"
    using assms(2,4) by (simp add: convert_routed_def res sample_config_def Let_def)
  then obtain ar where ar: "fst (convert_routed mg reg ?res ?r) = Inr ar"
    "record_size ar \<le> 2000 + length (utf8_encode (ac_value_bin (mc_aerospike config)))"
    using small_convert [OF assms(1) _ shape _ ttl] assms(2,8,9) r e by (auto simp: sample_config_def)
  have "record_size (route_record mg ?res ?r ar) = record_size ar" by (simp add: route_record_def record_size_def Let_def)
  then have "sendable self (route_record mg ?res ?r ar)" using ar(2) assms(2,5) by (simp add: sendable_def sample_config_def)
  then show ?thesis using ar(1) assms(3) by (simp add: fate_def)
qed

end
