(* ===== verification/Copies.thy ===== *)
theory Copies
  imports Placement Source_Facts
begin

text \<open>
  From a database that does not change during the scan to the content of the target after a finished
  run, for keys whose placements are distinct.
\<close>

lemma quiet_migration_copies:
  fixes self :: "'c AerospikeSink" and source :: "'w RedisSource"
  assumes "\<not> rs_cluster source" "db_ok db" "quiet (rs_client source) db"
    and "pages_from (rs_client source) (rc_scan_match (rs_config source)) (mc_scan_batch config) 0 pages"
    and "iter_records (length pages) source v (mc_scan_batch config) = Some ((records, exn), v')"
    and "live = filter (\<lambda>k. db k \<noteq> None) (concat (map snd pages))"
    and "distinct (map (\<lambda>k. placement config (rr_key (db_record db k))) live)"
    and "registry_from_config config = Inr reg" "sets_named config"
    and "sk_client self = Some c" "server_laws c look rule" "policy_results self rule"
    and "sk_config self = mc_aerospike config" "list_constants (sk_module self)"
    and "reachable (Migrator_init config None self) fl
           (run_init (Migrator_init config None self) reg now records exn w) s"
    and "\<nexists>s'. step (Migrator_init config None self) fl s s'"
  shows "(\<forall>k \<in> set live.
      (\<exists>e. fate (Migrator_init config None self) reg (db_record db k) = Dropped e) \<or>
      (\<exists>ar. fate (Migrator_init config None self) reg (db_record db k) = Wants ar \<and>
         (sendable self ar \<longrightarrow> look (rn_db s) (placement config (rr_key (db_record db k))) = snd (write_result self rule ar (look w))))) \<and>
    (\<forall>key. key \<notin> (\<lambda>k. placement config (rr_key (db_record db k))) ` set live \<longrightarrow> look (rn_db s) key = look w key)"
proof -
  let ?mg = "Migrator_init config None self"
  have it: "iter_records (length pages) source v (mc_scan_batch config) = Some ((map (db_record db) live, None), v)"
    using assms(1) scan_loop_quiet [OF assms(2-4)] by (simp add: iter_records_def assms(6))
  then have rs: "records = map (db_record db) live" using assms(5) by auto
  have mg: "?mg = Migrator_init config (Some []) self" by (simp add: Migrator_init_def)
  have ts: "mg_transforms ?mg = []" "mg_config ?mg = config" by (simp_all add: Migrator_init_def)
  note placed = fate_placement [OF assms(8) ts(1) assms(13,9) ts(2)]
  have "distinct (map (\<lambda>r. placement config (rr_key r)) records)" using assms(7) by (simp add: rs comp_def)
  from wanted_distinct [of records ?mg reg self "\<lambda>r. placement config (rr_key r)", OF placed this]
  have d: "distinct (map (sink_key self) (filter (sendable self) (wanted_records ?mg reg records)))" by blast
  have b: "\<forall>ar \<in> set (wanted_records ?mg reg records). buildable self ar"
    using wanted_buildable [OF assms(8) ts(1) assms(14)] by blast
  have server: "record_server self c look rule config []" using assms(10-13) by unfold_locales simp_all
  note db = record_server.finished_database(1) [OF server assms(15,16) [unfolded mg] b [unfolded mg] d [unfolded mg], folded mg]
  have "(\<exists>e. fate ?mg reg r = Dropped e) \<or> (\<exists>ar. fate ?mg reg r = Wants ar \<and>
      (sendable self ar \<longrightarrow> look (rn_db s) (placement config (rr_key r)) = snd (write_result self rule ar (look w))))"
    if r: "r \<in> set records" for r
  proof (cases "fate ?mg reg r")
    case (Wants ar)
    then show ?thesis using db [of "sink_key self ar"] wanted_find [OF r Wants _ d] placed [OF Wants] by auto
  next
    case (Raises e)
    then show ?thesis using fate_safe [of ?mg reg r e] ts(1) by auto
  qed auto
  moreover have "look (rn_db s) key = look w key" if key: "key \<notin> (\<lambda>r. placement config (rr_key r)) ` set records" for key
  proof -
    have "sink_key self ar \<noteq> key" if "ar \<in> set (wanted_records ?mg reg records)" for ar
      using that key placed by (auto simp: wanted_records_def wants_def map_filter_def elim!: wants1.elims)
    then have "find (\<lambda>ar. sendable self ar \<and> sink_key self ar = key) (wanted_records ?mg reg records) = None"
      by (auto simp: find_None_iff)
    then show ?thesis by (simp add: db)
  qed
  ultimately show ?thesis by (simp add: rs image_image)
qed

end
