(* ===== verification/Seed_Migration.thy ===== *)
theory Seed_Migration
  imports Seed_Main Seed_Values Copies
begin

text \<open>
  The example of the documentation as a whole: the routing sample is written to an empty Redis database
  and migrated under the documented routes.
\<close>

section \<open>What the migrator finds\<close>

text \<open>After a run on an emptied database, the keys are exactly the names, with small entries.\<close>

lemma routing_sample_entries:
  assumes "redis_laws (client_of env args) rlook ord" "server_up (client_of env args) rlook ord"
    and "routing_depth args = Inl (Inr n)" "n \<le> 10 ^ 20" "sd_flush args"
    and "routing_run env args u = (lines, r, u')"
  shows "r = Exit 0 \<and> shaped_db (rlook u') \<and> dom (rlook u') = (utf8_encode \<circ> snd) ` set (routing_names n) \<and>
    (\<forall>(t, name) \<in> set (routing_names n). \<exists>e. rlook u' (utf8_encode name) = Some e \<and> fst e = t \<and> small_entry e)"
proof -
  have start: "start_db rlook args u = Map.empty" using assms(5) by (simp add: start_db_def)
  obtain lines' w' where out: "routing_run env args u = (lines', Exit 0, w')" "shaped_db (rlook w')"
    "\<forall>(t, name) \<in> set (routing_names n). map_option fst (rlook w' (utf8_encode name)) = Some t"
    "\<forall>k. k \<notin> (utf8_encode \<circ> snd) ` set (routing_names n) \<longrightarrow> rlook w' k = None"
    "\<forall>(t, v) \<in> set (routing_kinds n). rlook w' (turn_key v) = snd (run_entry ord (fst v) None)"
    using routing_run_outcome [OF assms(1-3), of u] by (auto simp: start)
  have fin: "r = Exit 0" "w' = u'" using out(1) assms(6) by auto
  have entry: "\<exists>e. rlook u' (utf8_encode name) = Some e \<and> fst e = t \<and> small_entry e" if "(t, name) \<in> set (routing_names n)" for t name
  proof -
    have "(t, utf8_encode name) \<in> set (map (\<lambda>(t, name). (t, utf8_encode name)) (routing_names n))" using that by force
    then obtain v where v: "(t, v) \<in> set (routing_kinds n)" "turn_key v = utf8_encode name"
      unfolding routing_names_kinds [symmetric] by auto
    obtain e where "snd (run_entry ord (fst v) None) = Some e" "small_entry e"
      using routing_kinds_small [OF assms(4) v(1), of ord] by (auto simp: leaves_small_def)
    then show ?thesis using out(3,5) v that by (fastforce simp: fin(2) [symmetric])
  qed
  moreover have "dom (rlook u') = (utf8_encode \<circ> snd) ` set (routing_names n)"
    using out(4) entry by (fastforce simp: fin(2) [symmetric])
  ultimately show ?thesis using out(2) fin by blast
qed

lemma routing_names_types: "(t, name) \<in> set (routing_names n) \<Longrightarrow> t \<in> {L ''string'', L ''hash''}"
  by (auto simp: routing_names_def user_names_def split: if_splits)

text \<open>The names a scan finds, each once, have distinct places.\<close>

lemma scanned_places_distinct:
  assumes "ac_set_routes (mc_aerospike config) = documented_routes"
    and "distinct keys" "set keys \<subseteq> (utf8_encode \<circ> snd) ` set (routing_names n)"
  shows "distinct (map (\<lambda>k. placement config (decode_key k)) keys)"
proof -
  have "inj_on (\<lambda>k. placement config (decode_key k)) (set keys)"
  proof (rule inj_onI)
    fix a b assume "a \<in> set keys" "b \<in> set keys" and eq: "placement config (decode_key a) = placement config (decode_key b)"
    then have "a \<in> (utf8_encode \<circ> snd) ` set (routing_names n)" "b \<in> (utf8_encode \<circ> snd) ` set (routing_names n)"
      using assms(3) by blast+
    then obtain t x s y where names: "(t, x) \<in> set (routing_names n)" "(s, y) \<in> set (routing_names n)"
      and ab: "a = utf8_encode x" "b = utf8_encode y" by auto
    have "name_place config x = name_place config y" using eq by (simp add: ab name_place_def)
    then have "x = y" by (rule routing_place_inject [OF assms(1) names])
    then show "a = b" by (simp add: ab)
  qed
  then show ?thesis using assms(2) by (simp add: distinct_map)
qed

section \<open>The example\<close>

text \<open>
  C6 The example of the documentation, from the seed script to the target: the routing sample is
  written with a flush to a server that is up, the source reads that database without changes and its
  scan finds every key once, and the migration runs with the documented routes, hashes as maps, an
  expiry limit of five minutes or more and a sink that keeps its contract. Then every finished run,
  with any number of workers and any interleaving, has written every key of the sample, under the
  documented set and the shortened key, and nothing else; no record is dropped or too large.
\<close>

theorem routing_sample_migrates:
  fixes self :: "'c AerospikeSink" and source :: "'w RedisSource"
  assumes "redis_laws (client_of env args) rlook ord" "server_up (client_of env args) rlook ord"
    and "routing_depth args = Inl (Inr n)" "n \<le> 10 ^ 20" "sd_flush args" "routing_run env args u = (lines, r, u')"
    and "\<not> rs_cluster source" "quiet (rs_client source) (rlook u')"
    and "pages_from (rs_client source) (rc_scan_match (rs_config source)) (mc_scan_batch config) 0 pages"
    and "distinct (concat (map snd pages))" "dom (rlook u') \<subseteq> set (concat (map snd pages))"
    and "iter_records (length pages) source v (mc_scan_batch config) = Some ((records, exn), v')"
    and "registry_from_config config = Inr reg" "sample_config config" "sets_named config"
    and "sk_client self = Some c" "server_laws c look rule" "policy_results self rule"
    and "sk_config self = mc_aerospike config" "list_constants (sk_module self)"
    and "reachable (Migrator_init config None self) fl
           (run_init (Migrator_init config None self) reg now records exn w) s"
    and "\<nexists>s'. step (Migrator_init config None self) fl s s'"
  shows "(\<forall>(t, name) \<in> set (routing_names n). \<exists>ar.
      fate (Migrator_init config None self) reg (db_record (rlook u') (utf8_encode name)) = Wants ar \<and> sendable self ar \<and>
      look (rn_db s) (name_place config name) = snd (write_result self rule ar (look w))) \<and>
    (\<forall>key. key \<notin> (name_place config \<circ> snd) ` set (routing_names n) \<longrightarrow> look (rn_db s) key = look w key)"
proof -
  let ?db = "rlook u'" and ?mg = "Migrator_init config None self"
  define live where "live = filter (\<lambda>k. ?db k \<noteq> None) (concat (map snd pages))"
  note seeded = routing_sample_entries [OF assms(1-6)]
  have ok: "db_ok ?db" using seeded shaped_db_ok by blast
  have live: "set live = (utf8_encode \<circ> snd) ` set (routing_names n)" "distinct live"
    using seeded assms(10,11) by (auto simp: live_def)
  have key: "rr_key (db_record ?db k) = decode_key k" if "k \<in> set live" for k
    using that by (auto simp: live_def db_record_def)
  have routes: "ac_set_routes (mc_aerospike config) = documented_routes" using assms(14) by (simp add: sample_config_def)
  have "map (\<lambda>k. placement config (rr_key (db_record ?db k))) live = map (\<lambda>k. placement config (decode_key k)) live"
    using key by (simp only: map_eq_conv) simp
  moreover have "distinct (map (\<lambda>k. placement config (decode_key k)) live)"
    using scanned_places_distinct [OF routes live(2)] live(1) by blast
  ultimately have "distinct (map (\<lambda>k. placement config (rr_key (db_record ?db k))) live)" by (simp only:)
  note copied = quiet_migration_copies [OF assms(7) ok assms(8,9,12) live_def this assms(13,15-22)]
  have mg: "mg_transforms ?mg = []" "mg_config ?mg = config" by (simp_all add: Migrator_init_def)
  have "\<exists>ar. fate ?mg reg (db_record ?db (utf8_encode name)) = Wants ar \<and> sendable self ar \<and>
      look (rn_db s) (name_place config name) = snd (write_result self rule ar (look w))"
    if name: "(t, name) \<in> set (routing_names n)" for t name
  proof -
    obtain e where e: "?db (utf8_encode name) = Some e" "fst e = t" "small_entry e" using seeded name by blast
    have "shaped_db ?db" using seeded by blast
    then have shaped: "shaped_entry e" using e(1) unfolding shaped_db_def by blast
    have "fst e \<in> {L ''string'', L ''hash''}" unfolding e(2) by (rule routing_names_types [OF name])
    from small_fate [where db = "?db" and k = "utf8_encode name", OF assms(13,14) mg assms(19) e(1) shaped e(3) this] obtain ar where
      ar: "fate ?mg reg (db_record ?db (utf8_encode name)) = Wants ar" "sendable self ar" by blast
    have k: "utf8_encode name \<in> set live" using name live(1) by force
    then show ?thesis using copied ar key [OF k] by (auto simp: name_place_def)
  qed
  moreover have "(\<lambda>k. placement config (rr_key (db_record ?db k))) ` set live = (name_place config \<circ> snd) ` set (routing_names n)"
    using key by (simp add: live(1) image_image name_place_def) 
  ultimately show ?thesis using copied by auto
qed

section \<open>A run of the example\<close>

text \<open>
  One key of each kind, seeded into the reference server, scanned in one page and migrated to the reference
  client: the user 0 is in its set afterwards, and a key that is not of the sample is not.
\<close>

definition ref_sample_keys :: "bytes list" where
  "ref_sample_keys = remdups (map (utf8_encode \<circ> snd) (routing_names 1))"

definition ref_sample_source :: "database \<Rightarrow> unit RedisSource" where
  "ref_sample_source db =
     \<lparr>rs_config = RedisConfig_default,
      rs_client = ref_redis\<lparr>rd_scan := \<lambda>w cur m n. (Inr (0, ref_sample_keys), w),
        rd_pipeline := \<lambda>w cmds. (serve db cmds, w)\<rparr>\<rparr>"

definition ref_sample_sink :: "ref_store AerospikeSink" where
  "ref_sample_sink = (ref_sink UPDATE)\<lparr>sk_config := mc_aerospike routed_config\<rparr>"

lemma ref_sample_source_ok:
  "\<not> rs_cluster (ref_sample_source db)" "quiet (rs_client (ref_sample_source db)) db"
  "pages_from (rs_client (ref_sample_source db)) m n 0 [(0, ref_sample_keys)]"
  by (simp_all add: ref_sample_source_def rs_cluster_def RedisConfig_default_def serve_quiet)

lemma ref_sample_config_ok:
  "sample_config routed_config" "sets_named routed_config" "sk_client ref_sample_sink = Some ref_client"
  "sk_config ref_sample_sink = mc_aerospike routed_config" "list_constants (sk_module ref_sample_sink)"
  "policy_results ref_sample_sink ref_rule"
proof -
  have "policy_results (ref_sink UPDATE) ref_rule" by (rule ref_policy_results)
  then show "policy_results ref_sample_sink ref_rule"
    by (simp add: policy_results_def policy_code_def ref_sample_sink_def ref_sink_def routed_config_def AerospikeConfig_default_def)
  show "sample_config routed_config"
    by (simp add: sample_config_def routed_config_def MigrationConfig_default_def AerospikeConfig_default_def DEFAULT_MAX_TTL_S_def
        utf8_encode_def enc1_def L_def)
  have "list_all valid_route documented_routes"
    by (simp add: documented_routes_def plain_route_def valid_route_def MAX_AEROSPIKE_SET_NAME_LEN_def L_def)
  then show "sets_named routed_config" by (simp add: sets_named_def routed_config_def AerospikeConfig_default_def text_simps)
qed (simp_all add: routed_config_def ref_sample_sink_def ref_sink_def list_constants_def ref_module_def text_simps)

theorem routing_sample_migrates_witness:
  "\<exists>lines db reg s. routing_run ref_seed_env (ref_seed_args 10000 (Some 1) True) Map.empty = (lines, Exit 0, db) \<and>
     registry_from_config routed_config = Inr reg \<and>
     run_ends (Migrator_init routed_config None ref_sample_sink) (run_init (Migrator_init routed_config None ref_sample_sink)
       reg 0 (map (db_record db) (filter (\<lambda>k. db k \<noteq> None) ref_sample_keys)) None (\<lambda>k. None)) s \<and>
     rn_db s (L ''test'', L ''users'', KStr (str_nat 0)) \<noteq> None \<and> rn_db s (L ''test'', L ''redis'', KStr [120]) = None"
proof -
  let ?args = "ref_seed_args 10000 (Some 1) True" and ?mg = "Migrator_init routed_config None ref_sample_sink"
  obtain lines r db where run: "routing_run ref_seed_env ?args Map.empty = (lines, r, db)"
    by (cases "routing_run ref_seed_env ?args Map.empty")
  have depth: "routing_depth ?args = Inl (Inr 1)" by (simp add: routing_depth_def)
  have laws: "redis_laws (client_of ref_seed_env ?args) (\<lambda>db. db) ref_orders" "server_up (client_of ref_seed_env ?args) (\<lambda>db. db) ref_orders"
    "sd_flush ?args" using ref_redis_laws ref_server_up by simp_all
  have "(1::int) \<le> 10 ^ 20" by simp
  note seeded = routing_sample_entries [OF laws(1,2) depth this laws(3) run]
  let ?recs = "map (db_record db) (filter (\<lambda>k. db k \<noteq> None) ref_sample_keys)"
  have it: "iter_records (length [(0 :: int, ref_sample_keys)]) (ref_sample_source db) () (mc_scan_batch routed_config) =
      Some ((?recs, None), ())"
    using scan_loop_quiet [OF _ ref_sample_source_ok(2,3) order_refl] shaped_db_ok seeded ref_sample_source_ok(1)
    by (simp add: iter_records_def del: not_None_eq)
  obtain reg where reg: "registry_from_config routed_config = Inr reg"
    by (simp add: registry_from_config_eq)
  let ?s0 = "run_init ?mg reg 0 ?recs None (\<lambda>k. None)"
  obtain s where s: "reachable ?mg exact ?s0 s" "rn_producer s = Finished"
    using cm.can_finish [of routed_config ref_sample_sink exact] unfolding reachable_def by blast
  have "sentinels_ok s" using am.reachable_inv [OF s(1)] by blast
  then have stuck: "\<nexists>s'. step ?mg exact s s'" using finished_stuck s(2) by blast
  have keys: "distinct (concat (map snd [(0 :: int, ref_sample_keys)]))" "dom db \<subseteq> set (concat (map snd [(0 :: int, ref_sample_keys)]))"
    using seeded by (simp_all add: ref_sample_keys_def)
  have "(1::int) \<le> 10 ^ 20" by simp
  note db = routing_sample_migrates [where rlook = "\<lambda>db. db" and look = "\<lambda>w. w" and u' = db, OF laws(1,2) depth this laws(3) run ref_sample_source_ok keys it reg ref_sample_config_ok(1-3)
      ref_server_laws ref_sample_config_ok(6,4,5) s(1) stuck]
  have in_test: "ac_namespace (mc_aerospike routed_config) = L ''test''" "ac_set_name (mc_aerospike routed_config) = L ''redis''"
    by (simp_all add: routed_config_def AerospikeConfig_default_def)
  have "ac_set_routes (mc_aerospike routed_config) = documented_routes" by (simp add: routed_config_def)
  note places = routing_places [OF this, unfolded in_test]
  have others: "(L ''test'', L ''redis'', KStr [120]) \<notin> (name_place routed_config \<circ> snd) ` set (routing_names 1)"
    by (auto simp: routing_names_def user_names_def places text_simps) (simp add: route_name_def ROUTE_KEY_PREFIX_def numbered_def L_def)
  have user: "(L ''string'', route_name (L '':user:'') 0) \<in> set (routing_names 1)" by (simp add: routing_names_def user_names_def)
  have "snd (write_result ref_sample_sink ref_rule ar (\<lambda>k. None)) \<noteq> None" for ar by (simp add: write_result_def ref_rule_def)
  then have "rn_db s (L ''test'', L ''users'', KStr (str_nat 0)) \<noteq> None" using db user places(1) by fastforce
  moreover have "rn_db s (L ''test'', L ''redis'', KStr [120]) = None" using db others by blast
  ultimately show ?thesis using run seeded reg s(1) stuck by blast
qed

end
