(* ===== verification/Spec2Isabelle.thy ===== *)
theory Spec2Isabelle
  imports Args_Facts Progress Seed_Migration
begin

text \<open>
  A verification development of redis-to-aerospike, a program that migrates the keys of a Redis server
  (standalone or cluster) into records of an Aerospike namespace.

  \<^bold>\<open>The program.\<close> The command line (\<^verbatim>\<open>cli.py\<close>) parses its arguments, builds the configuration
  (\<^verbatim>\<open>config.py\<close>) from defaults, a YAML file and flags, connects a source (\<^verbatim>\<open>redis_source.py\<close>) and a sink
  (\<^verbatim>\<open>aerospike_sink.py\<close>), logs a preview and runs the migrator (\<^verbatim>\<open>migrator.py\<close>). The migrator's producer
  scans the keys in pages, reads each page with two pipelined requests and puts the records into a bounded
  queue; worker threads take them, resolve the set and the key (\<^verbatim>\<open>set_routing.py\<close>), convert the value by
  its Redis type (\<^verbatim>\<open>converters/\<close>), apply transforms (\<^verbatim>\<open>transforms.py\<close>) and write records singly or in
  batches. Token buckets (\<^verbatim>\<open>ratelimit.py\<close>) limit both sides; shared counters (\<^verbatim>\<open>stats.py\<close>) are what a
  heartbeat thread (\<^verbatim>\<open>progress.py\<close>) and the final report show. Two scripts (\<^verbatim>\<open>scripts/\<close>) fill a Redis server
  with samples to migrate.

  \<^bold>\<open>Python.\<close>
  \<^item> \<open>Prelude\<close>: text as lists of code points, byte strings as lists of 8-bit words, exceptions as values,
    results (\<open>py_exn + 'a\<close>) with their sequencing, and insertion-ordered dictionaries. Locale \<open>dictionary\<close>
    states the laws of lookup and assignment; the loops of assignments of the program are proved from them.
  \<^item> \<open>Py_Text\<close>, \<open>Py_Str\<close>: UTF-8 strict and replacing, string methods, \<^verbatim>\<open>int()\<close> with its limit of 4300 digits.
  \<^item> \<open>Py_Float\<close>: IEEE doubles as sign, mantissa and exponent: correctly rounded division, reading and
    printing of decimals, \<^verbatim>\<open>math.ceil\<close>. \<open>Literals\<close>: integer and decimal literals and the numbers they denote,
    independently of the functions that read them, and that reading rounds to a nearest double. \<open>Py_Value\<close>: the values of bins and documents with Python equality.
  \<^item> \<open>Glob\<close>: \<^verbatim>\<open>fnmatch.fnmatchcase\<close>.

  \<^bold>\<open>Configuration.\<close>
  \<^item> \<open>Config\<close>: enumerations, set routes and the typed records of the three dataclasses with their defaults.
  \<^item> \<open>Config_Load\<close>: the constructors \<^verbatim>\<open>from_env\<close>, \<^verbatim>\<open>from_dict\<close>, \<^verbatim>\<open>from_yaml\<close> with \<^verbatim>\<open>_as_bool\<close> and
    \<^verbatim>\<open>_normalize_hosts\<close>. A document can put any value in any attribute, so these build dictionaries of
    attributes; \<open>MigrationConfig_view\<close> is the typed record of an object whose attributes have the declared
    types. \<open>Config_Load_Facts\<close>: a document overlays the defaults, the environment yields typed objects.

  \<^bold>\<open>Conversion and routing.\<close>
  \<^item> \<open>Models\<close>, \<open>Converters\<close>: the records, scalar coercion, the TTL policy, the five converters and the
    registry. \<open>Converter_Facts\<close>: a coerced value is legal and what its text denotes, and when coercion raises.
    \<open>Ttl_Facts\<close>: the TTL computed in floating point is the exact ceiling, its bounds, overflow policies and
    the single warning. \<open>Collection_Facts\<close>: sets, sorted sets, hashes. \<open>Registry_Facts\<close>: outcomes of a conversion.
    \<open>Conversion_Total\<close>: which records always convert.
  \<^item> \<open>Transforms\<close>; \<open>Set_Routing\<close>: first match wins, what a route makes of a key, and which keys collide.

  \<^bold>\<open>Source and sink.\<close>
  \<^item> \<open>Source\<close>, \<open>Source_Facts\<close>: client arguments, server information, key batches and their pipelined reads,
    the scan loop and the cluster batches. The Redis client is a record of its methods over a state; \<open>quiet\<close>
    says that it answers from a database that does not change, and refuses a pipeline with a command that does not
    fit the type of its key. A batch yields only well-shaped records, and a scan yields one record per live key.
  \<^item> \<open>Sink\<close>, \<open>Sink_Facts\<close>: client configuration, server information, single writes, size estimates and
    batches. The Aerospike client and module are parameters. A batch sends each key once, from the last
    record that carries it, returns one outcome per record, and refines sequential writes under the
    replacing policy. \<open>Sink_Effects\<close>: what a write does to a database in which a key is changed alone
    (\<open>server_laws\<close>), for single writes and for batches of distinct keys.

  \<^bold>\<open>Run.\<close>
  \<^item> \<open>Stats\<close>, \<open>Ratelimit\<close>, \<open>Progress\<close>: counters with their breakdowns and reports, the token bucket with its
    rate bound, the heartbeat thread as a step relation.
  \<^item> \<open>Migrator\<close>: \<^verbatim>\<open>_prepare\<close>, \<^verbatim>\<open>_write_one\<close> and \<^verbatim>\<open>_flush\<close> as functions, and the run as the step relation \<open>step\<close>
    of the producer and any number of workers over a shared queue. \<open>Migrator_Facts\<close> proves in every reachable
    state that each record is in exactly one place, that queue and buffers are bounded, that a run has a
    bounded number of steps, that it cannot get stuck unless a transform raises, and that it can then. Locale
    \<open>sink_contract\<close> is what the migrator relies on of its sink, \<open>migration\<close> and \<open>safe_migration\<close> extend it; they
    are interpreted on the sink and the migrator of the program (\<open>asink\<close>, \<open>am\<close>, \<open>cm\<close>).
  \<^item> \<open>Run_Content\<close>, \<open>Run_Result\<close>: what a run has written. \<open>fate\<close> says what becomes of a record and
    \<open>migrate_in_order\<close> is the loop of one worker without queue or batches; locale \<open>atomic_sink\<close> proves that a
    run agrees with that loop over some order of the records, if the records are written one by one or replaced or
    have distinct keys, and \<open>record_server\<close> that with distinct keys the order does not matter. The first follows from the second by a \<open>sublocale\<close>, and \<open>ref\<close> interprets both.
  \<^item> \<open>Placement\<close>: the set and key of a Redis key under the routes, and when placements are distinct. \<open>Copies\<close>:
    from a database that does not change to the content of the target.

  \<^bold>\<open>Command line.\<close>
  \<^item> \<open>Preview\<close>: the summaries and \<^verbatim>\<open>render_preview\<close>, which does not depend on passwords.
  \<^item> \<open>Cli\<close>, \<open>Cli_Facts\<close>: \<^verbatim>\<open>build_config\<close> and its precedence, route tokens with their round trip, the use of
    the server information, and \<^verbatim>\<open>main\<close> as a relation with the run in its place: exit codes and dry runs.
  \<^item> \<open>Args\<close>, \<open>Args_Facts\<close>: the option table and the parsing of arguments; parsed flags keep a configuration
    well-typed, and the exit codes are 0, 1 and 2.
  \<^item> This theory: from a Redis key to the set and key it is written to, and from the keyspace to the counters
    and to the content of the database.

  \<^bold>\<open>Samples.\<close>
  \<^item> \<open>Seed\<close>: both seed scripts, their loops as lists of turns (the commands queued and what \<^verbatim>\<open>pending\<close> adds), their
    pipelines, the derived depth, parsers and exit codes. The Redis client is a record of its methods.
  \<^item> \<open>Seed_Facts\<close>: the batches that are sent are the queued commands in their order, and the derived depth is the
    exact ceiling. \<open>Seed_Keyspace\<close>: the documented effect of the commands on a keyspace, as laws of the client.
    \<open>Seed_Names\<close>: the names of the keys, that they are distinct, and where the documented routes place them.
    \<open>Seed_Results\<close>, \<open>Seed_Main\<close>: the keyspace that a script leaves, what it does not touch, and how it ends.
  \<^item> \<open>Seed_Values\<close>: the entries of the routing sample are small, so they convert and fit. \<open>Seed_Migration\<close>: the
    documented example as a whole, from the script over scan, conversion and routing to the target.

  \<^bold>\<open>Fuel and bounds.\<close> \<open>scan_loop\<close> carries fuel, because the server decides when the cursor is zero, and
  returns \<open>None\<close> without enough of it; \<open>scan_terminates\<close> and \<open>iter_records_standalone\<close> show that one unit per
  page is enough. The searches of \<open>Py_Float\<close> for a decimal exponent and for 17 digits are bounded by what a
  double can need. Everything else is total.

  \<^bold>\<open>Abstractions.\<close> Python integers are \<open>int\<close>. Times, rates and intervals are rationals, with the rounding of
  an operation as the function \<open>fl\<close> where the result depends on it; scores and bin values are doubles. A step of a
  worker is one of its handlers: the counters are updated under a lock and their updates commute
  (\<open>report_interleaving\<close>), so finer interleavings give the same reports. Lone surrogates do not occur in
  text, since all text comes from decoded bytes or documents. A cluster iterator is the list of keys it
  yields and the exception that ends it. The texts of exceptions only reach the log and are not carried.

  \<^bold>\<open>Not modelled.\<close> The client libraries, PyYAML and shtab are parameters or absent; usage and help texts of
  the parser, the set-up of logging and log levels; the re-exports of the package and its version.
\<close>

section \<open>From a Redis key to an Aerospike record\<close>

text \<open>
  C12 A record that a migrator without transforms prepares is written to the set and under the key
  that the router resolves for its Redis key, in the configured namespace; when the record cannot
  be prepared, exactly one error is counted, for a conversion that failed, and nothing else changes
  in the statistics. No exception escapes.
\<close>

theorem prepare_routed:
  assumes "registry_from_config config = Inr reg" "well_shaped r" "ttl_in_range r"
    and "rr_type r \<in> set supported_types" "sk_config self = mc_aerospike config"
    and "list_all valid_route (ac_set_routes (mc_aerospike config))" "ac_set_name (mc_aerospike config) \<noteq> []"
    and "prepare (Migrator_init config None self) reg st r = (out, reg', st')"
  shows "case out of
     Inr (Some ar) \<Rightarrow> st' = st \<and>
       sink_key self ar = (ac_namespace (mc_aerospike config),
         rs_set_name (SetRouter_resolve (mg_router (Migrator_init config None self)) (rr_key r)),
         rs_key (SetRouter_resolve (mg_router (Migrator_init config None self)) (rr_key r)))
   | Inr None \<Rightarrow> st' = record_error (L ''convert:ValueError'') st \<or> st' = record_error (L ''convert:TtlTooLongError'') st
   | Inl e \<Rightarrow> False"
proof -
  let ?mg = "Migrator_init config None self"
  let ?res = "SetRouter_resolve (mg_router ?mg) (rr_key r)"
  let ?dflt = "ac_set_name (mc_aerospike config)"
  obtain hs vb where hs: "convert_routed ?mg reg ?res r = registry_convert reg r hs vb"
    unfolding convert_routed_def Let_def by (cases "rr_type r = L ''hash''") auto
  obtain cv reg1 where cv: "registry_convert reg r hs vb = (cv, reg1)" by (cases "registry_convert reg r hs vb")
  have set: "rs_set_name ?res \<noteq> []" using resolve_set_nonempty assms(6,7) by (simp add: mg_router_def Migrator_init_def)
  have ts: "mg_transforms ?mg = []" by (simp add: Migrator_init_def)
  have prep: "prepare ?mg reg st r =
    (case cv of
       Inl exc \<Rightarrow> (Inr None, reg1, if exc = UnsupportedTypeError then record_skipped (rr_type r) st
                                  else record_error (L ''convert:'' @ exn_name exc) st)
     | Inr ar \<Rightarrow> (Inr (Some (route_record ?mg ?res r ar)), reg1, st))"
    unfolding prepare_def Let_def hs cv ts by (simp split: sum.splits)
  show ?thesis
  proof (cases cv)
    case (Inl e)
    then have "e = ValueError \<or> e = TtlTooLongError"
      using registry_convert_ok [OF assms(1-4), of hs vb] cv by auto
    then show ?thesis using assms(8) prep Inl by (auto simp: L_append)
  next
    case (Inr ar)
    then have ar: "ar_key ar = rr_key r" "ar_set_name ar = None"
      using registry_convert_ok [OF assms(1-4), of hs vb] cv by auto
    have "sink_key self (route_record ?mg ?res r ar) = (ac_namespace (mc_aerospike config), rs_set_name ?res, rs_key ?res)"
      using ar set assms(5) by (simp add: sink_key_def route_record_def Let_def opt_text_def Migrator_init_def)
    then show ?thesis using assms(8) prep Inr by auto
  qed
qed

theorem prepare_routed_witness:
  "\<exists>ar reg' st'. prepare (Migrator_init MigrationConfig_default None (ref_sink UPDATE)) ref_registry MigrationStats_init
       (ref_redis_record 107) = (Inr (Some ar), reg', st') \<and>
     sink_key (ref_sink UPDATE) ar = (L ''test'', L ''redis'', KStr [107])"
proof -
  let ?mg = "Migrator_init MigrationConfig_default None (ref_sink UPDATE)" and ?r = "ref_redis_record 107"
  obtain ar where ar: "registry_convert ref_registry ?r None None = (Inr ar, ref_registry)"
    using ref_convert by blast
  have t: "rr_type ?r = L ''list''" "rr_key ?r = KStr [107]" by (simp_all add: ref_redis_record_def)
  obtain ar' where p: "prepare ?mg ref_registry MigrationStats_init ?r = (Inr (Some ar'), ref_registry, MigrationStats_init)"
    using ar t by (simp add: prepare_def convert_routed_def Let_def) (simp add: Migrator_init_def)
  have res: "SetRouter_resolve (mg_router ?mg) (KStr [107]) =
      \<lparr>rs_set_name = L ''redis'', rs_key = KStr [107], rs_hash_strategy = None, rs_value_bin = None\<rparr>"
    by (simp add: SetRouter_resolve_def mg_router_def SetRouter_init_def Migrator_init_def
        MigrationConfig_default_def AerospikeConfig_default_def)
  have reg: "registry_from_config MigrationConfig_default = Inr ref_registry"
    by (simp add: ref_registry_def registry_from_config_eq)
  have shape: "well_shaped ?r" "ttl_in_range ?r" "rr_type ?r \<in> set supported_types"
    by (auto simp: well_shaped_def ttl_in_range_def ref_redis_record_def supported_types_def text_simps)
  have cfg: "sk_config (ref_sink UPDATE) = mc_aerospike MigrationConfig_default"
    "list_all valid_route (ac_set_routes (mc_aerospike MigrationConfig_default))"
    "ac_set_name (mc_aerospike MigrationConfig_default) \<noteq> []"
    "ac_namespace (mc_aerospike MigrationConfig_default) = L ''test''"
    by (simp_all add: ref_sink_def MigrationConfig_default_def AerospikeConfig_default_def)
  have "sink_key (ref_sink UPDATE) ar' = (L ''test'', L ''redis'', KStr [107])"
    using prepare_routed [OF reg shape cfg(1-3) p] by (simp add: t res cfg(4))
  then show ?thesis using p by blast
qed

section \<open>From the keyspace to the counters\<close>

text \<open>
  C11 A migration of a standalone database that does not change, on a server that refuses commands
  on values of another type, run as the command line runs it:
  the scan ends, the run cannot get stuck, and when it is over every key that exists in the pages of
  the scan has been counted exactly once as migrated, skipped or failed.
\<close>

theorem migration_counts_keys:
  fixes self :: "'c AerospikeSink" and source :: "'w RedisSource"
  assumes "\<not> rs_cluster source" "db_ok db" "quiet (rs_client source) db"
    and "pages_from (rs_client source) (rc_scan_match (rs_config source)) (mc_scan_batch config) 0 pages"
    and "iter_records (length pages) source v (mc_scan_batch config) = Some ((records, exn), v')"
    and "reachable (Migrator_init config None self) fl
           (run_init (Migrator_init config None self) reg now records exn w) s"
    and "\<nexists>s'. step (Migrator_init config None self) fl s s'"
  shows "rn_producer s = Finished \<and> run_result s = Inr (rn_stats s) \<and>
    st_migrated (rn_stats s) + st_skipped (rn_stats s) + st_errors (rn_stats s) =
      int (length (filter (\<lambda>k. db k \<noteq> None) (concat (map snd pages))))"
proof -
  have it: "iter_records (length pages) source v (mc_scan_batch config) =
      Some ((map (db_record db) (filter (\<lambda>k. db k \<noteq> None) (concat (map snd pages))), None), v)"
    using assms(1) scan_loop_quiet [OF assms(2-4)] by (simp add: iter_records_def)
  then have rs: "records = map (db_record db) (filter (\<lambda>k. db k \<noteq> None) (concat (map snd pages)))" "exn = None"
    using assms(5) by auto
  have "rn_source_exn s = None"
    using reachable_source_exn [OF assms(6)] rs(2) by (simp add: run_init_def)
  then show ?thesis using cm.finished_complete [OF assms(6,7)] rs(1) by (simp add: counted_def run_result_def)
qed

text \<open>A scan of the reference database and a finished run, for the witnesses.\<close>

definition ref_pages_list :: "(int \<times> bytes list) list" where
  "ref_pages_list = [(7, [[107]]), (0, [[120]])]"

abbreviation ref_plain_mg :: "ref_store Migrator" where
  "ref_plain_mg \<equiv> Migrator_init MigrationConfig_default None (ref_sink UPDATE)"

lemma ref_source_simps:
  "\<not> rs_cluster (ref_source False)" "rs_client (ref_source False) = ref_redis"
  by (simp_all add: ref_source_def rs_cluster_def RedisConfig_default_def)

lemma ref_source_ok:
  "quiet (rs_client (ref_source False)) ref_db" "pages_from (rs_client (ref_source False)) m n 0 ref_pages_list"
  "filter (\<lambda>k. ref_db k \<noteq> None) (concat (map snd ref_pages_list)) = [[107]]"
  using ref_quiet ref_pages by (auto simp: ref_source_simps ref_pages_list_def ref_db_def)

lemma ref_scan:
  "iter_records (length ref_pages_list) (ref_source False) () (mc_scan_batch MigrationConfig_default) =
     Some ((map (db_record ref_db) [[107]], None), ())"
  using scan_loop_quiet [OF ref_db_ok, of "ref_source False", OF ref_source_ok(1,2) order_refl] ref_source_simps(1)
  by (simp add: iter_records_def ref_source_ok(3) del: not_None_eq)

lemma ref_plain_finished:
  "\<exists>s. rn_producer s = Finished \<and>
     run_ends ref_plain_mg (run_init ref_plain_mg ref_registry 0 (map (db_record ref_db) [[107]]) None (\<lambda>k. None)) s"
proof -
  let ?s0 = "run_init ref_plain_mg ref_registry 0 (map (db_record ref_db) [[107]]) None (\<lambda>k. None)"
  obtain s where s: "reachable ref_plain_mg exact ?s0 s" "rn_producer s = Finished"
    using cm.can_finish [of MigrationConfig_default "ref_sink UPDATE" exact] unfolding reachable_def by blast
  have "sentinels_ok s" using am.reachable_inv [OF s(1)] by blast
  then have "\<nexists>s'. step ref_plain_mg exact s s'" using finished_stuck s(2) by blast
  then show ?thesis using s by blast
qed

theorem migration_counts_keys_witness:
  "\<exists>s. run_ends ref_plain_mg (run_init ref_plain_mg ref_registry 0 (map (db_record ref_db) [[107]]) None (\<lambda>k. None)) s \<and>
     rn_producer s = Finished \<and> st_migrated (rn_stats s) + st_skipped (rn_stats s) + st_errors (rn_stats s) = 1"
proof -
  obtain s where s: "reachable ref_plain_mg exact
      (run_init ref_plain_mg ref_registry 0 (map (db_record ref_db) [[107]]) None (\<lambda>k. None)) s"
    "rn_producer s = Finished" "\<nexists>s'. step ref_plain_mg exact s s'" using ref_plain_finished by blast
  from migration_counts_keys [OF ref_source_simps(1) ref_db_ok ref_source_ok(1,2) ref_scan s(1,3)]
  have "st_migrated (rn_stats s) + st_skipped (rn_stats s) + st_errors (rn_stats s) = 1"
    by (simp add: ref_source_ok(3) del: not_None_eq)
  then show ?thesis using s by blast
qed

section \<open>From the keyspace to the database\<close>








end
